(* ===== verification/Broker_Prelude.thy ===== *)
theory Broker_Prelude
  imports Main
begin

text \<open>
  Shared vocabulary of the development.

  \<^item> Go values: a \<^verbatim>\<open>string\<close> or \<^verbatim>\<open>[]byte\<close> is a list of bytes (type \<^typ>\<open>string\<close>); a
    \<^verbatim>\<open>time.Time\<close> is the number of nanoseconds since Go's zero time (so \<^verbatim>\<open>IsZero\<close> is equality
    with 0, \<^verbatim>\<open>Before\<close>, \<^verbatim>\<open>After\<close> and \<^verbatim>\<open>Equal\<close> are the order and equality of \<^typ>\<open>int\<close>, and
    \<^verbatim>\<open>UTC\<close>, which changes only the presentation, is the identity); a \<^verbatim>\<open>time.Duration\<close> is a
    number of nanoseconds.  A Go \<^verbatim>\<open>(T, error)\<close> result is a sum, \<open>Inl\<close> the error.
  \<^item> \<^verbatim>\<open>int64\<close> counters (versions, fencing tokens) are integers with the wrap-around of
    \<^verbatim>\<open>++\<close> written out (\<open>int64_inc\<close>).  PostgreSQL raises an error there instead
    (\<open>bigint_inc\<close>, \<open>integer_inc\<close>).
  \<^item> Database calls: an operation of a PostgreSQL repository takes a fault function; \<open>f k\<close>
    says how the \<open>k\<close>-th call the operation makes to the driver ends: normally, rejected (also by
    a constraint or an encoding the model does not describe), or applied with the reply lost.
    Theorems quantify over it, so they hold under every pattern of driver errors.
\<close>

named_theorems op_defs \<open>definitions of repository and service operations\<close>
named_theorems row_simps \<open>projections of stored rows\<close>

type_synonym gotime = int
type_synonym duration = int

datatype db_call = CallOK | CallRejected | CallReplyLost

type_synonym db_faults = "nat \<Rightarrow> db_call"

text \<open>
  One statement or commit that writes: \<open>outcome\<close> is \<open>None\<close> when the database itself raises an
  error, otherwise the result and the new contents.  The caller sees \<open>None\<close> for an error.
\<close>

definition sql_write :: "db_call \<Rightarrow> 'd \<Rightarrow> ('r \<times> 'd) option \<Rightarrow> 'r option \<times> 'd" where
  "sql_write c d outcome =
     (case outcome of
        None \<Rightarrow> (None, d)
      | Some (r, d') \<Rightarrow> (case c of
          CallOK \<Rightarrow> (Some r, d') | CallRejected \<Rightarrow> (None, d) | CallReplyLost \<Rightarrow> (None, d')))"

lemma sql_write_Some:
  "sql_write c d outcome = (Some r, d') \<longleftrightarrow> c = CallOK \<and> outcome = Some (r, d')"
  by (auto simp: sql_write_def split: option.splits db_call.splits)

lemma sql_write_None:
  "sql_write c d outcome = (None, d') \<Longrightarrow> d' = d \<or> (\<exists>r. outcome = Some (r, d'))"
  by (auto simp: sql_write_def split: option.splits db_call.splits)

lemma snd_sql_write:
  "snd (sql_write c d outcome) = d \<or> (\<exists>r. outcome = Some (r, snd (sql_write c d outcome)))"
  by (auto simp: sql_write_def split: option.splits db_call.splits)

definition NULLIF_empty :: "string \<Rightarrow> string option" where
  "NULLIF_empty s = (if s = '''' then None else Some s)"

definition COALESCE_empty :: "string option \<Rightarrow> string" where
  "COALESCE_empty c = (case c of None \<Rightarrow> '''' | Some s \<Rightarrow> s)"

lemma COALESCE_NULLIF [simp]: "COALESCE_empty (NULLIF_empty s) = s"
  by (simp add: COALESCE_empty_def NULLIF_empty_def)

lemma COALESCE_simps [simp]: "COALESCE_empty None = ''''" "COALESCE_empty (Some s) = s"
  by (simp_all add: COALESCE_empty_def)

lemma NULLIF_nonempty [simp]: "NULLIF_empty s \<noteq> Some ''''"
  by (simp add: NULLIF_empty_def)

subsection \<open>Time\<close>

definition IsZero :: "gotime \<Rightarrow> bool" where
  "IsZero t \<longleftrightarrow> t = 0"

definition Truncate_us :: "gotime \<Rightarrow> gotime" where
  "Truncate_us t = t - t mod 1000"

definition us_aligned :: "gotime \<Rightarrow> bool" where
  "us_aligned t \<longleftrightarrow> t mod 1000 = 0"

text \<open>\<^verbatim>\<open>Duration.Microseconds\<close> truncates towards zero, as integer division does in Go.\<close>

definition Microseconds :: "duration \<Rightarrow> int" where
  "Microseconds d = (if 0 \<le> d then d div 1000 else - ((- d) div 1000))"

lemma Truncate_us_le [simp]: "Truncate_us t \<le> t"
  by (simp add: Truncate_us_def)

lemma Truncate_us_gt: "t < Truncate_us t + 1000"
  by (simp add: Truncate_us_def)

lemma us_aligned_Truncate [simp]: "us_aligned (Truncate_us t)"
  by (simp add: Truncate_us_def us_aligned_def mod_diff_left_eq)

lemma Truncate_us_aligned [simp]: "us_aligned t \<Longrightarrow> Truncate_us t = t"
  by (simp add: Truncate_us_def us_aligned_def)

lemma Truncate_us_idem [simp]: "Truncate_us (Truncate_us t) = Truncate_us t"
  by simp

lemma us_aligned_add_us [simp]: "us_aligned (t + 1000 * n) = us_aligned t"
  by (simp add: us_aligned_def)

lemma us_aligned_zero [simp]: "us_aligned 0"
  by (simp add: us_aligned_def)

text \<open>Comparing with an aligned instant does not depend on the truncation.\<close>

lemma Truncate_us_less_aligned:
  assumes "us_aligned e"
  shows "Truncate_us t < e \<longleftrightarrow> t < e"
proof
  assume "t < e"
  then show "Truncate_us t < e" using Truncate_us_le [of t] by linarith
next
  assume lt: "Truncate_us t < e"
  from assms have "1000 dvd e" by (simp add: us_aligned_def mod_0_imp_dvd)
  then obtain p where p: "e = 1000 * p" by (rule dvdE)
  have q: "Truncate_us t = 1000 * (t div 1000)"
    by (simp add: Truncate_us_def minus_mod_eq_mult_div)
  have "t div 1000 < p" using lt p q by simp
  then have "1000 * (t div 1000) + 1000 \<le> e" using p by linarith
  then show "t < e" using Truncate_us_gt [of t] q by linarith
qed

lemma Truncate_us_ge_aligned:
  "us_aligned e \<Longrightarrow> e \<le> Truncate_us t \<longleftrightarrow> e \<le> t"
  using Truncate_us_less_aligned [of e t] by linarith

lemma Truncate_us_mono: "s \<le> t \<Longrightarrow> Truncate_us s \<le> Truncate_us t"
  using Truncate_us_ge_aligned [of "Truncate_us s" t] Truncate_us_le [of s] by simp

lemma Truncate_us_pos: "1000 \<le> t \<Longrightarrow> 0 < Truncate_us t"
  using Truncate_us_gt [of t] by linarith

lemma Microseconds_pos: "0 < Microseconds d \<longleftrightarrow> 1000 \<le> d"
  by (auto simp: Microseconds_def pos_imp_zdiv_pos_iff)

subsection \<open>Counters\<close>

definition int64_max :: int where
  "int64_max = 2 ^ 63 - 1"

definition int32_max :: int where
  "int32_max = 2 ^ 31 - 1"

definition int64_inc :: "int \<Rightarrow> int" where
  "int64_inc n = (if n = int64_max then - (2 ^ 63) else n + 1)"

definition bigint_inc :: "int \<Rightarrow> int option" where
  "bigint_inc n = (if n = int64_max then None else Some (n + 1))"

definition integer_inc :: "int \<Rightarrow> int option" where
  "integer_inc n = (if n = int32_max then None else Some (n + 1))"

lemma int64_inc_below [simp]: "n < int64_max \<Longrightarrow> int64_inc n = n + 1"
  by (simp add: int64_inc_def)

lemma int64_inc_neq [simp]: "int64_inc n \<noteq> n"
  by (simp add: int64_inc_def int64_max_def)

lemma bigint_inc_Some [simp]: "bigint_inc n = Some m \<longleftrightarrow> n \<noteq> int64_max \<and> m = n + 1"
  by (auto simp: bigint_inc_def)

lemma integer_inc_Some [simp]: "integer_inc n = Some m \<longleftrightarrow> n \<noteq> int32_max \<and> m = n + 1"
  by (auto simp: integer_inc_def)

subsection \<open>Lists of rows\<close>

text \<open>A bounded prefix of a filtered table, the shape of every \<^verbatim>\<open>LIMIT\<close> query.\<close>

lemma length_take_filter_le: "length (take n (filter P xs)) \<le> n"
  by simp

lemma set_take_filter: "x \<in> set (take n (filter P xs)) \<Longrightarrow> x \<in> set xs \<and> P x"
  by (drule in_set_takeD) simp

subsection \<open>Composite keys\<close>

text \<open>
  Keys built as \<^verbatim>\<open>a + "\x00" + b + "\x00" + c\<close> are unambiguous when the first two parts
  contain no NUL byte.
\<close>

definition NUL :: char where
  "NUL = CHR 0x00"

definition nul_free :: "string \<Rightarrow> bool" where
  "nul_free s \<longleftrightarrow> NUL \<notin> set s"

lemma append_sep_inject:
  assumes "z \<notin> set xs" and "z \<notin> set ys" and "xs @ z # us = ys @ z # vs"
  shows "xs = ys \<and> us = vs"
  using assms
proof (induction xs arbitrary: ys)
  case Nil
  then show ?case by (cases ys) auto
next
  case (Cons x xs)
  then show ?case by (cases ys) auto
qed

lemma nul_key_inject:
  assumes "nul_free a" and "nul_free a'" and "nul_free b" and "nul_free b'"
    and "a @ NUL # b @ NUL # c = a' @ NUL # b' @ NUL # c'"
  shows "a = a' \<and> b = b' \<and> c = c'"
proof -
  have 1: "a = a' \<and> b @ NUL # c = b' @ NUL # c'"
    using assms(1,2,5) unfolding nul_free_def by (rule append_sep_inject)
  moreover have "b = b' \<and> c = c'"
    using assms(3,4) 1 [THEN conjunct2] unfolding nul_free_def by (rule append_sep_inject)
  ultimately show ?thesis by simp
qed

end
