(* ===== verification/Utf8.thy ===== *)
theory Utf8
  imports Broker_Prelude
begin

text \<open>
  The part of Go's UTF-8 handling the broker uses: conversion of a string to runes and back
  (\<^verbatim>\<open>[]rune(s)\<close>, \<^verbatim>\<open>string(rs)\<close>, \<^verbatim>\<open>utf8.DecodeRune\<close>, \<^verbatim>\<open>utf8.AppendRune\<close>) with the accept
  ranges of package \<^verbatim>\<open>unicode/utf8\<close>, and the function that bounds the error text stored with a
  task, \<^verbatim>\<open>boundedError\<close> of \<^verbatim>\<open>internal/collector/postgres_repository.go\<close> (by runes).
\<close>

subsection \<open>Decoding and encoding of one rune\<close>

definition RuneError :: nat where
  "RuneError = 0xFFFD"

definition cont :: "char \<Rightarrow> bool" where
  "cont c \<longleftrightarrow> 0x80 \<le> (of_char c :: nat) \<and> (of_char c :: nat) \<le> 0xBF"

definition in_byte :: "nat \<Rightarrow> nat \<Rightarrow> char \<Rightarrow> bool" where
  "in_byte lo hi c \<longleftrightarrow> lo \<le> of_char c \<and> of_char c \<le> hi"

definition low6 :: "char \<Rightarrow> nat" where
  "low6 c = of_char c - 0x80"

definition decode2 :: "nat \<Rightarrow> string \<Rightarrow> nat \<times> nat" where
  "decode2 b0 cs = (case cs of
       c1 # _ \<Rightarrow> if cont c1 then ((b0 - 0xC0) * 64 + low6 c1, 2) else (RuneError, 1)
     | [] \<Rightarrow> (RuneError, 1))"

definition decode3 :: "nat \<Rightarrow> string \<Rightarrow> nat \<times> nat" where
  "decode3 b0 cs = (case cs of
       c1 # c2 # _ \<Rightarrow>
         if in_byte (if b0 = 0xE0 then 0xA0 else 0x80) (if b0 = 0xED then 0x9F else 0xBF) c1 \<and> cont c2
         then ((b0 - 0xE0) * 4096 + low6 c1 * 64 + low6 c2, 3) else (RuneError, 1)
     | _ \<Rightarrow> (RuneError, 1))"

definition decode4 :: "nat \<Rightarrow> string \<Rightarrow> nat \<times> nat" where
  "decode4 b0 cs = (case cs of
       c1 # c2 # c3 # _ \<Rightarrow>
         if in_byte (if b0 = 0xF0 then 0x90 else 0x80) (if b0 = 0xF4 then 0x8F else 0xBF) c1
            \<and> cont c2 \<and> cont c3
         then ((b0 - 0xF0) * 262144 + low6 c1 * 4096 + low6 c2 * 64 + low6 c3, 4)
         else (RuneError, 1)
     | _ \<Rightarrow> (RuneError, 1))"

fun DecodeRune :: "string \<Rightarrow> nat \<times> nat" where
  "DecodeRune [] = (RuneError, 0)"
| "DecodeRune (c # cs) = (let b0 = of_char c in
     if b0 < 0x80 then (b0, 1)
     else if b0 < 0xC2 \<or> 0xF4 < b0 then (RuneError, 1)
     else if b0 < 0xE0 then decode2 b0 cs
     else if b0 < 0xF0 then decode3 b0 cs
     else decode4 b0 cs)"

definition valid_rune :: "nat \<Rightarrow> bool" where
  "valid_rune r \<longleftrightarrow> r < 0xD800 \<or> 0xE000 \<le> r \<and> r \<le> 0x10FFFF"

definition encode_valid :: "nat \<Rightarrow> string" where
  "encode_valid r =
     (if r < 0x80 then [char_of r]
      else if r < 0x800 then [char_of (0xC0 + r div 64), char_of (0x80 + r mod 64)]
      else if r < 0x10000 then
        [char_of (0xE0 + r div 4096), char_of (0x80 + r div 64 mod 64), char_of (0x80 + r mod 64)]
      else [char_of (0xF0 + r div 262144), char_of (0x80 + r div 4096 mod 64),
            char_of (0x80 + r div 64 mod 64), char_of (0x80 + r mod 64)])"

definition AppendRune :: "string \<Rightarrow> nat \<Rightarrow> string" where
  "AppendRune s r = s @ encode_valid (if valid_rune r then r else RuneError)"

lemma of_char_char_of [simp]: "n < 256 \<Longrightarrow> of_char (char_of n :: char) = (n :: nat)"
  by simp

lemma DecodeRune_size: "cs \<noteq> [] \<Longrightarrow> 0 < snd (DecodeRune cs)"
  by (cases cs)
    (auto simp: Let_def decode2_def decode3_def decode4_def split: list.splits)

lemma DecodeRune_size_le: "snd (DecodeRune cs) \<le> length cs"
  by (cases cs)
    (auto simp: Let_def decode2_def decode3_def decode4_def split: list.splits)

lemma decode2_valid: "0xC2 \<le> b0 \<Longrightarrow> b0 < 0xE0 \<Longrightarrow> valid_rune (fst (decode2 b0 cs))"
  by (auto simp: decode2_def valid_rune_def RuneError_def cont_def low6_def split: list.splits)

lemma decode3_valid: "0xE0 \<le> b0 \<Longrightarrow> b0 < 0xF0 \<Longrightarrow> valid_rune (fst (decode3 b0 cs))"
  by (auto simp: decode3_def valid_rune_def RuneError_def cont_def in_byte_def low6_def
      split: list.splits)

lemma decode4_valid: "0xF0 \<le> b0 \<Longrightarrow> b0 \<le> 0xF4 \<Longrightarrow> valid_rune (fst (decode4 b0 cs))"
  by (auto simp: decode4_def valid_rune_def RuneError_def cont_def in_byte_def low6_def
      split: list.splits)

lemma DecodeRune_valid: "valid_rune (fst (DecodeRune cs))"
proof (cases cs)
  case Nil
  then show ?thesis by (simp add: valid_rune_def RuneError_def)
next
  case (Cons c cs')
  have "valid_rune RuneError" by (simp add: valid_rune_def RuneError_def)
  then show ?thesis
    using Cons decode2_valid [of "of_char c"] decode3_valid [of "of_char c"]
      decode4_valid [of "of_char c"]
    by (simp add: Let_def valid_rune_def)
qed

lemma div_mod_bound:
  fixes r k m q j :: nat
  assumes "r div (k * m) = q" and "r < (q * m + j) * k"
  shows "r div k mod m < j"
proof -
  have "r div k < q * m + j" using assms(2) by (rule less_mult_imp_div_less)
  moreover have "r div k = q * m + r div k mod m"
    using assms(1) div_mult_mod_eq [of "r div k" m] by (simp add: div_mult2_eq)
  ultimately show ?thesis by linarith
qed

lemma div_digit:
  fixes r k m :: nat
  shows "r div (k * m) * (k * m) + r div k mod m * k = r div k * k"
proof -
  have "r div k = r div (k * m) * m + r div k mod m"
    using div_mult_mod_eq [of "r div k" m] by (simp add: div_mult2_eq)
  then have "r div k * k = (r div (k * m) * m + r div k mod m) * k" by simp
  then show ?thesis by (simp add: algebra_simps)
qed

lemma decode2_encode:
  assumes "0x80 \<le> r" and "r < 0x800"
  shows "DecodeRune (encode_valid r @ s) = (r, 2)"
proof -
  have b: "2 \<le> r div 64" "r div 64 < 32" using assms by auto
  show ?thesis
    using assms b
    by (simp add: encode_valid_def Let_def decode2_def cont_def low6_def)
qed

lemma decode3_encode:
  assumes "0x800 \<le> r" and "r < 0x10000" and "valid_rune r"
  shows "DecodeRune (encode_valid r @ s) = (r, 3)"
proof -
  have b: "r div 4096 < 16" using assms by auto
  have lo: "r div 4096 = 0 \<Longrightarrow> 0x20 \<le> r div 64 mod 64" using assms by auto
  have hi: "r div 4096 = 13 \<Longrightarrow> r div 64 mod 64 \<le> 0x1F"
    using assms(2,3) div_mod_bound [of r 64 64 13 32] by (auto simp: valid_rune_def)
  have sum: "r div 4096 * 4096 + r div 64 mod 64 * 64 + r mod 64 = r"
    using div_digit [of r 64 64] div_mult_mod_eq [of r 64] by simp
  have m: "r div 64 mod 64 \<le> 63" "r mod 64 \<le> 63" by auto
  show ?thesis
    using assms(1,2) b lo hi sum m
    by (auto simp: encode_valid_def Let_def decode3_def cont_def in_byte_def low6_def)
qed

lemma decode4_encode:
  assumes "0x10000 \<le> r" and "valid_rune r"
  shows "DecodeRune (encode_valid r @ s) = (r, 4)"
proof -
  have b: "r div 262144 \<le> 4" using assms by (auto simp: valid_rune_def)
  have lo: "r div 262144 = 0 \<Longrightarrow> 0x10 \<le> r div 4096 mod 64" using assms by auto
  have hi: "r div 262144 = 4 \<Longrightarrow> r div 4096 mod 64 \<le> 0xF"
    using assms(2) div_mod_bound [of r 4096 64 4 16] by (auto simp: valid_rune_def)
  have sum: "r div 262144 * 262144 + r div 4096 mod 64 * 4096 + r div 64 mod 64 * 64 + r mod 64 = r"
    using div_digit [of r 4096 64] div_digit [of r 64 64] div_mult_mod_eq [of r 64] by simp
  have m: "r div 4096 mod 64 \<le> 63" "r div 64 mod 64 \<le> 63" "r mod 64 \<le> 63" by auto
  show ?thesis
    using assms(1) b lo hi sum m
    by (auto simp: encode_valid_def Let_def decode4_def cont_def in_byte_def low6_def)
qed

lemma length_encode_valid:
  "length (encode_valid r) =
     (if r < 0x80 then 1 else if r < 0x800 then 2 else if r < 0x10000 then 3 else 4)"
  by (simp add: encode_valid_def)

lemma DecodeRune_encode:
  assumes "valid_rune r"
  shows "DecodeRune (encode_valid r @ s) = (r, length (encode_valid r))"
proof (cases "r < 0x80")
  case True
  then show ?thesis by (simp add: encode_valid_def)
next
  case False
  then show ?thesis
    using assms decode2_encode [of r s] decode3_encode [of r s] decode4_encode [of r s]
    by (simp add: length_encode_valid)
qed

subsection \<open>Strings as rune sequences\<close>

function runes :: "string \<Rightarrow> nat list" where
  "runes s = (if s = [] then [] else
     (case DecodeRune s of (r, n) \<Rightarrow> r # runes (drop n s)))"
  by pat_completeness auto
termination
proof (relation "measure length", goal_cases)
  case 1
  show ?case by simp
next
  case (2 s r n)
  then show ?case using DecodeRune_size [of s] by (cases s) (auto dest: sym)
qed

declare runes.simps [simp del]

definition string_of_runes :: "nat list \<Rightarrow> string" where
  "string_of_runes rs = foldl AppendRune [] rs"

lemma runes_Nil [simp]: "runes [] = []"
  by (simp add: runes.simps)

lemma foldl_AppendRune: "foldl AppendRune s rs = s @ foldl AppendRune [] rs"
proof (induction rs arbitrary: s)
  case Nil
  then show ?case by simp
next
  case (Cons r rs)
  show ?case
    using Cons [of "AppendRune s r"] Cons [of "AppendRune [] r"] by (simp add: AppendRune_def)
qed

lemma string_of_runes_Nil [simp]: "string_of_runes [] = []"
  by (simp add: string_of_runes_def)

lemma string_of_runes_Cons:
  "valid_rune r \<Longrightarrow> string_of_runes (r # rs) = encode_valid r @ string_of_runes rs"
  using foldl_AppendRune [of "AppendRune [] r" rs]
  by (simp add: string_of_runes_def AppendRune_def)

lemma encode_valid_neq_Nil [simp]: "encode_valid r \<noteq> []"
  by (simp add: encode_valid_def)

lemma runes_string_of_runes:
  "list_all valid_rune rs \<Longrightarrow> runes (string_of_runes rs) = rs"
proof (induction rs)
  case Nil
  then show ?case by simp
next
  case (Cons r rs)
  then show ?case
    by (subst runes.simps) (simp add: string_of_runes_Cons DecodeRune_encode)
qed

lemma runes_valid: "list_all valid_rune (runes s)"
proof (induction s rule: runes.induct)
  case (1 s)
  show ?case
  proof (cases "s = []")
    case False
    obtain r n where d: "DecodeRune s = (r, n)" by (cases "DecodeRune s")
    have "valid_rune r" using DecodeRune_valid [of s] d by simp
    then show ?thesis
      using "1" [OF False d [symmetric]] False d by (subst runes.simps) simp
  qed simp
qed

lemma runes_nonempty: "s \<noteq> [] \<Longrightarrow> Suc 0 \<le> length (runes s)"
  by (subst runes.simps) (simp split: prod.splits)

lemma runes_length_le: "length (runes s) \<le> length s"
proof (induction s rule: runes.induct)
  case (1 s)
  show ?case
  proof (cases "s = []")
    case False
    obtain r n where d: "DecodeRune s = (r, n)" by (cases "DecodeRune s")
    have "1 \<le> n" "n \<le> length s" using DecodeRune_size [of s] DecodeRune_size_le [of s] False d by auto
    then show ?thesis
      using "1" [OF False d [symmetric]] False d by (subst runes.simps) auto
  qed simp
qed

text \<open>PostgreSQL's \<^verbatim>\<open>char_length(s) BETWEEN lo AND hi\<close>, which counts characters.\<close>

definition char_length_between :: "nat \<Rightarrow> nat \<Rightarrow> string \<Rightarrow> bool" where
  "char_length_between lo hi s \<longleftrightarrow> lo \<le> length (runes s) \<and> length (runes s) \<le> hi"

subsection \<open>Bounding stored error text\<close>

text \<open>\<^verbatim>\<open>boundedError\<close> of the collector: at most 2048 runes.\<close>

definition boundedError :: "string \<Rightarrow> string" where
  "boundedError value = (let rs = runes value in
     if 2048 < length rs then string_of_runes (take 2048 rs) else value)"

lemma boundedError_runes: "length (runes (boundedError v)) \<le> 2048"
proof (cases "2048 < length (runes v)")
  case True
  have "list_all valid_rune (take 2048 (runes v))"
    using runes_valid [of v] by (auto simp: list_all_iff dest: in_set_takeD)
  then show ?thesis using True by (simp add: boundedError_def Let_def runes_string_of_runes)
next
  case False
  then show ?thesis by (simp add: boundedError_def Let_def)
qed

end
