(* ===== verification/Collector_Task.thy ===== *)
theory Collector_Task
  imports Utf8
begin

text \<open>
  The collector's task authority, \<^verbatim>\<open>internal/collector/task.go\<close>: the lifecycle of one target
  task, fenced leases and the exactly-one accepted result.

  \<^verbatim>\<open>Store\<close> is a mutex-protected map from identifiers to tasks; every exported method holds the
  mutex from its first read to its return, so a method is one atomic function on the map.
  \<^verbatim>\<open>(T, error)\<close> results are paired with the new map.  Errors wrapped with \<^verbatim>\<open>%w\<close> are identified
  with the sentinel they wrap (what \<^verbatim>\<open>errors.Is\<close> observes); validation errors without a
  sentinel are \<open>ErrTaskArgument\<close>.  A nil \<^verbatim>\<open>*Store\<close> is not modelled.
\<close>

section \<open>Data\<close>

text \<open>
  \<^verbatim>\<open>TaskState\<close> is a string type; \<open>TaskStateOther s\<close> stands for a string \<open>s\<close> that is none of
  the declared constants, in particular the empty string of an unset field.
\<close>

datatype task_state =
    TaskQueued | TaskLeased | TaskExecuting | TaskCommitting | TaskSucceeded | TaskRetryWait
  | TaskFailed | TaskDenied | TaskCancelled | TaskExpired | TaskDeadLetter
  | TaskStateOther string

datatype task_error =
    ErrTaskNotFound | ErrLeaseHeld | ErrStaleFence | ErrLeaseExpired | ErrInvalidState
  | ErrDuplicateCommit | ErrEvidenceNotFound | ErrFanoutConflict
  | ErrTaskArgument | ErrTaskExists | ErrTaskDatabase

record task =
  tk_ID :: string
  tk_TenantID :: string
  tk_ResolutionID :: string
  tk_ClaimFingerprint :: string
  tk_TargetSnapshotID :: string
  tk_TargetSnapshotHash :: string
  tk_TargetID :: string
  tk_TargetEndpoint :: string
  tk_RecipeID :: string
  tk_RecipeVersion :: string
  tk_TriggerDecisionID :: string
  tk_PlanningDecisionID :: string
  tk_ExecutionDecisionID :: string
  tk_ExecutionGrantID :: string
  tk_ApprovalGrantID :: string
  tk_CompatibilityHash :: string
  tk_State :: task_state
  tk_AttemptCount :: int
  tk_LeaseOwner :: string
  tk_LeaseExpiry :: gotime
  tk_FencingToken :: int
  tk_AcceptedAttemptID :: string
  tk_AcceptedEvidenceID :: string
  tk_LastError :: string

record lease =
  ls_TaskID :: string
  ls_Owner :: string
  ls_FencingToken :: int
  ls_ExpiresAt :: gotime

type_synonym store = "string \<rightharpoonup> task"

definition NewStore :: store where
  "NewStore = Map.empty"

section \<open>Operations\<close>

definition requireLease :: "task \<Rightarrow> string \<Rightarrow> int \<Rightarrow> gotime \<Rightarrow> task_error option" where
  "requireLease task owner token now =
     (if tk_LeaseOwner task \<noteq> owner \<or> tk_FencingToken task \<noteq> token then Some ErrStaleFence
      else if IsZero now \<or> \<not> now < tk_LeaseExpiry task then Some ErrLeaseExpired
      else None)"

definition leaseFor :: "task \<Rightarrow> lease" where
  "leaseFor task = \<lparr>ls_TaskID = tk_ID task, ls_Owner = tk_LeaseOwner task,
     ls_FencingToken = tk_FencingToken task, ls_ExpiresAt = tk_LeaseExpiry task\<rparr>"

definition taskLocked :: "string \<Rightarrow> store \<Rightarrow> task_error + task" where
  "taskLocked taskID s = (case s taskID of None \<Rightarrow> Inl ErrTaskNotFound | Some t \<Rightarrow> Inr t)"

definition Store_Add :: "task \<Rightarrow> store \<Rightarrow> task_error option \<times> store" where
  "Store_Add task s =
     (if tk_ID task = '''' \<or> tk_TargetID task = '''' \<or> tk_RecipeID task = ''''
      then (Some ErrTaskArgument, s)
      else if s (tk_ID task) \<noteq> None then (Some ErrTaskExists, s)
      else
        let task = (if tk_State task = TaskStateOther '''' then task\<lparr>tk_State := TaskQueued\<rparr> else task)
        in if tk_State task \<noteq> TaskQueued then (Some ErrInvalidState, s)
           else (None, s(tk_ID task \<mapsto> task)))"

definition acquire_blocked :: "task \<Rightarrow> gotime \<Rightarrow> task_error option" where
  "acquire_blocked task now =
     (case tk_State task of
        TaskQueued \<Rightarrow> None
      | TaskRetryWait \<Rightarrow> None
      | TaskLeased \<Rightarrow> if now < tk_LeaseExpiry task then Some ErrLeaseHeld else None
      | TaskExecuting \<Rightarrow> if now < tk_LeaseExpiry task then Some ErrLeaseHeld else None
      | TaskCommitting \<Rightarrow> if now < tk_LeaseExpiry task then Some ErrLeaseHeld else None
      | _ \<Rightarrow> Some ErrInvalidState)"

definition leased_task :: "string \<Rightarrow> gotime \<Rightarrow> task \<Rightarrow> task" where
  "leased_task owner expiry task =
     task\<lparr>tk_State := TaskLeased, tk_LeaseOwner := owner, tk_LeaseExpiry := expiry,
       tk_FencingToken := int64_inc (tk_FencingToken task),
       tk_AttemptCount := int64_inc (tk_AttemptCount task),
       tk_ExecutionDecisionID := '''', tk_ExecutionGrantID := '''', tk_LastError := ''''\<rparr>"

definition Store_Acquire :: "string \<Rightarrow> string \<Rightarrow> gotime \<Rightarrow> duration \<Rightarrow> store \<Rightarrow> (task_error + lease) \<times> store" where
  "Store_Acquire taskID owner now dur s =
     (if owner = '''' then (Inl ErrTaskArgument, s)
      else if IsZero now \<or> dur \<le> 0 then (Inl ErrTaskArgument, s)
      else case taskLocked taskID s of
        Inl e \<Rightarrow> (Inl e, s)
      | Inr task \<Rightarrow>
          (case acquire_blocked task now of
             Some e \<Rightarrow> (Inl e, s)
           | None \<Rightarrow> let task' = leased_task owner (now + dur) task
                     in (Inr (leaseFor task'), s(taskID \<mapsto> task'))))"

definition Store_Renew :: "string \<Rightarrow> string \<Rightarrow> int \<Rightarrow> gotime \<Rightarrow> duration \<Rightarrow> store \<Rightarrow> (task_error + lease) \<times> store" where
  "Store_Renew taskID owner token now dur s =
     (if IsZero now \<or> dur \<le> 0 then (Inl ErrTaskArgument, s)
      else case taskLocked taskID s of
        Inl e \<Rightarrow> (Inl e, s)
      | Inr task \<Rightarrow>
          (case requireLease task owner token now of
             Some e \<Rightarrow> (Inl e, s)
           | None \<Rightarrow>
               if tk_State task \<noteq> TaskLeased \<and> tk_State task \<noteq> TaskExecuting then (Inl ErrInvalidState, s)
               else let task' = task\<lparr>tk_LeaseExpiry := now + dur\<rparr>
                    in (Inr (leaseFor task'), s(taskID \<mapsto> task'))))"

definition Store_transitionOwned ::
  "string \<Rightarrow> string \<Rightarrow> int \<Rightarrow> gotime \<Rightarrow> task_state \<Rightarrow> task_state \<Rightarrow> store \<Rightarrow> task_error option \<times> store" where
  "Store_transitionOwned taskID owner token now from to s =
     (case taskLocked taskID s of
        Inl e \<Rightarrow> (Some e, s)
      | Inr task \<Rightarrow>
          (case requireLease task owner token now of
             Some e \<Rightarrow> (Some e, s)
           | None \<Rightarrow> if tk_State task \<noteq> from then (Some ErrInvalidState, s)
                     else (None, s(taskID \<mapsto> task\<lparr>tk_State := to\<rparr>))))"

definition Store_StartExecution :: "string \<Rightarrow> string \<Rightarrow> int \<Rightarrow> gotime \<Rightarrow> store \<Rightarrow> task_error option \<times> store" where
  "Store_StartExecution taskID owner token now = Store_transitionOwned taskID owner token now TaskLeased TaskExecuting"

definition Store_RecordExecutionAuthority ::
  "string \<Rightarrow> string \<Rightarrow> int \<Rightarrow> string \<Rightarrow> string \<Rightarrow> gotime \<Rightarrow> store \<Rightarrow> task_error option \<times> store" where
  "Store_RecordExecutionAuthority taskID owner token decisionID grantID now s =
     (if decisionID = '''' \<or> grantID = '''' then (Some ErrTaskArgument, s)
      else case taskLocked taskID s of
        Inl e \<Rightarrow> (Some e, s)
      | Inr task \<Rightarrow>
          (case requireLease task owner token now of
             Some e \<Rightarrow> (Some e, s)
           | None \<Rightarrow> if tk_State task \<noteq> TaskExecuting then (Some ErrInvalidState, s)
                     else (None, s(taskID \<mapsto>
                       task\<lparr>tk_ExecutionDecisionID := decisionID, tk_ExecutionGrantID := grantID\<rparr>))))"

definition Store_BeginCommit :: "string \<Rightarrow> string \<Rightarrow> int \<Rightarrow> gotime \<Rightarrow> store \<Rightarrow> task_error option \<times> store" where
  "Store_BeginCommit taskID owner token now = Store_transitionOwned taskID owner token now TaskExecuting TaskCommitting"

definition Store_Commit ::
  "string \<Rightarrow> string \<Rightarrow> int \<Rightarrow> string \<Rightarrow> string \<Rightarrow> gotime \<Rightarrow> store \<Rightarrow> task_error option \<times> store" where
  "Store_Commit taskID owner token attemptID evidenceID now s =
     (if attemptID = '''' \<or> evidenceID = '''' then (Some ErrTaskArgument, s)
      else case taskLocked taskID s of
        Inl e \<Rightarrow> (Some e, s)
      | Inr task \<Rightarrow>
          if tk_AcceptedAttemptID task \<noteq> '''' then (Some ErrDuplicateCommit, s)
          else (case requireLease task owner token now of
             Some e \<Rightarrow> (Some e, s)
           | None \<Rightarrow> if tk_State task \<noteq> TaskCommitting then (Some ErrInvalidState, s)
                     else (None, s(taskID \<mapsto>
                       task\<lparr>tk_AcceptedAttemptID := attemptID, tk_AcceptedEvidenceID := evidenceID,
                         tk_State := TaskSucceeded\<rparr>))))"

definition Store_Retry ::
  "string \<Rightarrow> string \<Rightarrow> int \<Rightarrow> gotime \<Rightarrow> string option \<Rightarrow> store \<Rightarrow> task_error option \<times> store" where
  "Store_Retry taskID owner token now cause s =
     (case taskLocked taskID s of
        Inl e \<Rightarrow> (Some e, s)
      | Inr task \<Rightarrow>
          (case requireLease task owner token now of
             Some e \<Rightarrow> (Some e, s)
           | None \<Rightarrow>
               if tk_State task \<noteq> TaskLeased \<and> tk_State task \<noteq> TaskExecuting \<and> tk_State task \<noteq> TaskCommitting
               then (Some ErrInvalidState, s)
               else let task' = task\<lparr>tk_State := TaskRetryWait, tk_LeaseOwner := '''', tk_LeaseExpiry := 0\<rparr>
                    in (None, s(taskID \<mapsto> (case cause of
                          None \<Rightarrow> task' | Some msg \<Rightarrow> task'\<lparr>tk_LastError := boundedError msg\<rparr>)))))"

definition Store_Get :: "string \<Rightarrow> store \<Rightarrow> task_error + task" where
  "Store_Get taskID s = taskLocked taskID s"

definition Store_CurrentFence :: "string \<Rightarrow> store \<Rightarrow> task_error + int" where
  "Store_CurrentFence taskID s =
     (case taskLocked taskID s of Inl e \<Rightarrow> Inl e | Inr task \<Rightarrow> Inr (tk_FencingToken task))"

definition Store_VerifyCurrentAttempt :: "string \<Rightarrow> string \<Rightarrow> int \<Rightarrow> gotime \<Rightarrow> store \<Rightarrow> task_error option" where
  "Store_VerifyCurrentAttempt taskID collectorID fencingToken at s =
     (case taskLocked taskID s of
        Inl e \<Rightarrow> Some e
      | Inr task \<Rightarrow>
          (case requireLease task collectorID fencingToken at of
             Some e \<Rightarrow> Some e
           | None \<Rightarrow> if tk_State task \<noteq> TaskExecuting \<and> tk_State task \<noteq> TaskCommitting
                     then Some ErrInvalidState else None))"

lemmas store_op_defs [op_defs] =
  Store_Add_def Store_Acquire_def Store_Renew_def Store_transitionOwned_def Store_StartExecution_def Store_RecordExecutionAuthority_def
  Store_BeginCommit_def Store_Commit_def Store_Retry_def Store_Get_def Store_CurrentFence_def Store_VerifyCurrentAttempt_def
  taskLocked_def Let_def

section \<open>Outcome of each operation\<close>

text \<open>When an operation succeeds, and what it then writes; on an error nothing is written.\<close>

definition held :: "task \<Rightarrow> string \<Rightarrow> int \<Rightarrow> gotime \<Rightarrow> bool" where
  "held t owner token now \<longleftrightarrow>
     tk_LeaseOwner t = owner \<and> tk_FencingToken t = token \<and> now \<noteq> 0 \<and> now < tk_LeaseExpiry t"

definition active :: "task \<Rightarrow> bool" where
  "active t \<longleftrightarrow> tk_State t \<in> {TaskLeased, TaskExecuting, TaskCommitting}"

lemma requireLease_None [simp]: "requireLease t owner token now = None \<longleftrightarrow> held t owner token now"
  by (auto simp: requireLease_def held_def IsZero_def)

lemma requireLease_Some [dest]: "requireLease t owner token now = Some e \<Longrightarrow> \<not> held t owner token now"
  by (metis option.distinct(1) requireLease_None)

lemma acquire_blocked_None:
  "acquire_blocked t now = None \<longleftrightarrow>
     tk_State t \<in> {TaskQueued, TaskRetryWait} \<or> active t \<and> tk_LeaseExpiry t \<le> now"
  by (auto simp: acquire_blocked_def active_def split: task_state.splits)

lemma Store_Add_ok:
  "Store_Add t s = (None, s') \<longleftrightarrow>
     tk_ID t \<noteq> '''' \<and> tk_TargetID t \<noteq> '''' \<and> tk_RecipeID t \<noteq> '''' \<and> s (tk_ID t) = None \<and>
     tk_State t \<in> {TaskQueued, TaskStateOther ''''} \<and> s' = s(tk_ID t \<mapsto> t\<lparr>tk_State := TaskQueued\<rparr>)"
  by (auto simp: Store_Add_def Let_def split: if_splits)

lemma Store_Add_err: "Store_Add t s = (Some e, s') \<Longrightarrow> s' = s"
  by (auto simp: Store_Add_def Let_def split: if_splits)

lemma Store_Acquire_ok:
  "Store_Acquire i owner now d s = (Inr l, s') \<longleftrightarrow>
     owner \<noteq> '''' \<and> now \<noteq> 0 \<and> 0 < d \<and>
     (\<exists>t. s i = Some t \<and> acquire_blocked t now = None \<and>
        l = leaseFor (leased_task owner (now + d) t) \<and> s' = s(i \<mapsto> leased_task owner (now + d) t))"
  by (auto simp: Store_Acquire_def taskLocked_def Let_def IsZero_def split: option.splits)

lemma Store_Acquire_err: "Store_Acquire i owner now d s = (Inl e, s') \<Longrightarrow> s' = s"
  by (auto simp: Store_Acquire_def Let_def split: if_splits sum.splits option.splits)

lemma Store_Renew_ok:
  "Store_Renew i owner token now d s = (Inr l, s') \<longleftrightarrow>
     now \<noteq> 0 \<and> 0 < d \<and>
     (\<exists>t. s i = Some t \<and> held t owner token now \<and> tk_State t \<in> {TaskLeased, TaskExecuting} \<and>
        l = leaseFor (t\<lparr>tk_LeaseExpiry := now + d\<rparr>) \<and> s' = s(i \<mapsto> t\<lparr>tk_LeaseExpiry := now + d\<rparr>))"
  by (auto simp: Store_Renew_def taskLocked_def Let_def IsZero_def split: option.splits)

lemma Store_Renew_err: "Store_Renew i owner token now d s = (Inl e, s') \<Longrightarrow> s' = s"
  by (auto simp: Store_Renew_def Let_def split: if_splits sum.splits option.splits)

lemma Store_transitionOwned_ok:
  "Store_transitionOwned i owner token now from to s = (None, s') \<longleftrightarrow>
     (\<exists>t. s i = Some t \<and> held t owner token now \<and> tk_State t = from \<and> s' = s(i \<mapsto> t\<lparr>tk_State := to\<rparr>))"
  by (auto simp: Store_transitionOwned_def taskLocked_def split: option.splits)

lemma Store_transitionOwned_err:
  "Store_transitionOwned i owner token now from to s = (Some e, s') \<Longrightarrow> s' = s"
  by (auto simp: Store_transitionOwned_def split: if_splits sum.splits option.splits)

lemma Store_RecordExecutionAuthority_ok:
  "Store_RecordExecutionAuthority i owner token d g now s = (None, s') \<longleftrightarrow>
     d \<noteq> '''' \<and> g \<noteq> '''' \<and>
     (\<exists>t. s i = Some t \<and> held t owner token now \<and> tk_State t = TaskExecuting \<and>
        s' = s(i \<mapsto> t\<lparr>tk_ExecutionDecisionID := d, tk_ExecutionGrantID := g\<rparr>))"
  by (auto simp: Store_RecordExecutionAuthority_def taskLocked_def split: option.splits)

lemma Store_RecordExecutionAuthority_err:
  "Store_RecordExecutionAuthority i owner token d g now s = (Some e, s') \<Longrightarrow> s' = s"
  by (auto simp: Store_RecordExecutionAuthority_def split: if_splits sum.splits option.splits)

definition accepted_task :: "string \<Rightarrow> string \<Rightarrow> task \<Rightarrow> task" where
  "accepted_task attemptID evidenceID t =
     t\<lparr>tk_AcceptedAttemptID := attemptID, tk_AcceptedEvidenceID := evidenceID, tk_State := TaskSucceeded\<rparr>"

definition released_task :: "string option \<Rightarrow> task \<Rightarrow> task" where
  "released_task cause t =
     t\<lparr>tk_State := TaskRetryWait, tk_LeaseOwner := '''', tk_LeaseExpiry := 0,
       tk_LastError := (case cause of None \<Rightarrow> tk_LastError t | Some msg \<Rightarrow> boundedError msg)\<rparr>"

lemma Store_Commit_ok:
  "Store_Commit i owner token a e now s = (None, s') \<longleftrightarrow>
     a \<noteq> '''' \<and> e \<noteq> '''' \<and>
     (\<exists>t. s i = Some t \<and> tk_AcceptedAttemptID t = '''' \<and> held t owner token now \<and>
        tk_State t = TaskCommitting \<and> s' = s(i \<mapsto> accepted_task a e t))"
  by (auto simp: Store_Commit_def taskLocked_def accepted_task_def split: option.splits)

lemma Store_Commit_err: "Store_Commit i owner token a e now s = (Some x, s') \<Longrightarrow> s' = s"
  by (auto simp: Store_Commit_def split: if_splits sum.splits option.splits)

lemma Store_Retry_ok:
  "Store_Retry i owner token now cause s = (None, s') \<longleftrightarrow>
     (\<exists>t. s i = Some t \<and> held t owner token now \<and> active t \<and> s' = s(i \<mapsto> released_task cause t))"
  by (auto simp: Store_Retry_def taskLocked_def released_task_def active_def Let_def split: option.splits)

lemma Store_Retry_err: "Store_Retry i owner token now cause s = (Some x, s') \<Longrightarrow> s' = s"
  by (auto simp: Store_Retry_def Let_def split: if_splits sum.splits option.splits)

lemmas store_ok =
  Store_Add_ok Store_Acquire_ok Store_Renew_ok Store_transitionOwned_ok
  Store_RecordExecutionAuthority_ok Store_Commit_ok Store_Retry_ok
lemmas store_err =
  Store_Add_err Store_Acquire_err Store_Renew_err Store_transitionOwned_err
  Store_RecordExecutionAuthority_err Store_Commit_err Store_Retry_err

end
