(* ===== verification/Task_Authority.thy ===== *)
theory Task_Authority
  imports Collector_Task
begin

text \<open>
  What every task repository promises, independently of how it stores tasks.

  \<open>task_step\<close> is the lifecycle of one task as a relation; \<open>task_ok\<close> is the well-formedness of
  a stored task.  The locale \<open>task_steps\<close> states that each operation of a repository either
  leaves an existing task alone or makes one lifecycle step of it, and derives from this
  what holds after every interleaving of operations: an accepted result never changes, the
  fencing token never decreases, the planned identity is immutable.  \<open>fenced_tasks\<close> adds that new
  tasks are fresh and stored tasks well formed, and gives \<open>task_steps\<close>; \<open>exclusive_leases\<close> adds that operations by anyone but the lease holder skip a leased task while the lease is
  live.  All are interpreted here for the in-memory \<^verbatim>\<open>Store\<close> and, in the theory of the
  PostgreSQL repository, for that one.
\<close>

section \<open>Lifecycle of one task\<close>

definition task_ok :: "string \<Rightarrow> task \<Rightarrow> bool" where
  "task_ok i t \<longleftrightarrow>
     tk_ID t = i \<and> i \<noteq> '''' \<and>
     tk_State t \<in> {TaskQueued, TaskLeased, TaskExecuting, TaskCommitting, TaskSucceeded, TaskRetryWait} \<and>
     (tk_State t = TaskSucceeded \<longleftrightarrow> tk_AcceptedAttemptID t \<noteq> '''') \<and>
     (tk_AcceptedAttemptID t = '''' \<longleftrightarrow> tk_AcceptedEvidenceID t = '''') \<and>
     (tk_ExecutionDecisionID t = '''' \<longleftrightarrow> tk_ExecutionGrantID t = '''') \<and>
     (active t \<longrightarrow> tk_LeaseOwner t \<noteq> '''' \<and> tk_LastError t = '''') \<and>
     (tk_State t \<in> {TaskQueued, TaskRetryWait} \<longrightarrow> tk_LeaseOwner t = '''' \<and> tk_LeaseExpiry t = 0)"

text \<open>A task no repository operation has touched yet: nothing but the planned fields is set.\<close>

definition fresh_task :: "task \<Rightarrow> bool" where
  "fresh_task t \<longleftrightarrow>
     tk_ExecutionDecisionID t = '''' \<and> tk_ExecutionGrantID t = '''' \<and> tk_AttemptCount t = 0 \<and>
     tk_LeaseOwner t = '''' \<and> tk_LeaseExpiry t = 0 \<and> tk_FencingToken t = 0 \<and>
     tk_AcceptedAttemptID t = '''' \<and> tk_AcceptedEvidenceID t = '''' \<and> tk_LastError t = ''''"

text \<open>What planning fixed: none of it is ever rewritten.\<close>

definition task_identity :: "task \<Rightarrow> string list" where
  "task_identity t =
     [tk_ID t, tk_TenantID t, tk_ResolutionID t, tk_ClaimFingerprint t, tk_TargetSnapshotID t,
      tk_TargetSnapshotHash t, tk_TargetID t, tk_TargetEndpoint t, tk_RecipeID t, tk_RecipeVersion t,
      tk_TriggerDecisionID t, tk_PlanningDecisionID t, tk_ApprovalGrantID t, tk_CompatibilityHash t]"

inductive task_step :: "task \<Rightarrow> task \<Rightarrow> bool" where
  acquire: "acquire_blocked t now = None \<Longrightarrow> owner \<noteq> '''' \<Longrightarrow> task_step t (leased_task owner e t)"
| renew: "tk_State t \<in> {TaskLeased, TaskExecuting} \<Longrightarrow> task_step t (t\<lparr>tk_LeaseExpiry := e\<rparr>)"
| start: "tk_State t = TaskLeased \<Longrightarrow> task_step t (t\<lparr>tk_State := TaskExecuting\<rparr>)"
| authorise: "tk_State t = TaskExecuting \<Longrightarrow> d \<noteq> '''' \<Longrightarrow> g \<noteq> '''' \<Longrightarrow>
    task_step t (t\<lparr>tk_ExecutionDecisionID := d, tk_ExecutionGrantID := g\<rparr>)"
| begin_commit: "tk_State t = TaskExecuting \<Longrightarrow> task_step t (t\<lparr>tk_State := TaskCommitting\<rparr>)"
| accept: "tk_State t \<in> {TaskExecuting, TaskCommitting} \<Longrightarrow> tk_AcceptedAttemptID t = '''' \<Longrightarrow>
    a \<noteq> '''' \<Longrightarrow> v \<noteq> '''' \<Longrightarrow> task_step t (accepted_task a v t)"
| release: "active t \<Longrightarrow> task_step t (released_task c t)"

inductive_cases task_stepE: "task_step t t'"

lemma task_step_ok: "task_step t t' \<Longrightarrow> task_ok i t \<Longrightarrow> task_ok i t'"
proof (induction rule: task_step.induct)
  case (acquire t now owner e)
  then have "tk_State t \<noteq> TaskSucceeded" by (auto simp: acquire_blocked_None active_def)
  with acquire show ?case by (clarsimp simp: task_ok_def active_def leased_task_def)
next
  case (renew t e)
  then have "active t" by (auto simp: active_def)
  with renew show ?case by (auto simp: task_ok_def active_def)
next
  case (release t c)
  then have "tk_AcceptedAttemptID t = ''''" by (auto simp: task_ok_def active_def)
  with release show ?case by (clarsimp simp: task_ok_def active_def released_task_def)
qed (clarsimp simp: task_ok_def active_def accepted_task_def)+

lemma task_step_identity: "task_step t t' \<Longrightarrow> task_identity t' = task_identity t"
  by (induction rule: task_step.induct)
    (auto simp: task_identity_def leased_task_def accepted_task_def released_task_def)

lemma task_step_from_succeeded: "task_step t t' \<Longrightarrow> tk_State t \<noteq> TaskSucceeded"
  by (auto elim!: task_stepE simp: acquire_blocked_None active_def)

lemma task_step_fence:
  "task_step t t' \<Longrightarrow> tk_FencingToken t' = tk_FencingToken t \<or>
     tk_FencingToken t' = int64_inc (tk_FencingToken t) \<and> tk_State t' = TaskLeased"
  by (induction rule: task_step.induct)
    (auto simp: leased_task_def accepted_task_def released_task_def)

lemma task_step_fence_le:
  assumes "task_step t t'" and "tk_FencingToken t < int64_max"
  shows "tk_FencingToken t \<le> tk_FencingToken t' \<and> tk_FencingToken t' \<le> tk_FencingToken t + 1"
  using task_step_fence [OF assms(1)] assms(2) by auto

lemma fresh_task_ok:
  "fresh_task t \<Longrightarrow> tk_ID t \<noteq> '''' \<Longrightarrow> tk_State t = TaskQueued \<Longrightarrow> task_ok (tk_ID t) t"
  by (auto simp: fresh_task_def task_ok_def active_def)

definition task_evolves :: "string \<Rightarrow> task option \<Rightarrow> task option \<Rightarrow> bool" where
  "task_evolves i x y \<longleftrightarrow>
     y = x \<or>
     (x = None \<and> (\<exists>t. y = Some t \<and> fresh_task t \<and> tk_ID t = i \<and> i \<noteq> '''' \<and> tk_State t = TaskQueued)) \<or>
     (\<exists>t t'. x = Some t \<and> y = Some t' \<and> task_step t t')"

lemma task_evolves_refl [simp]: "task_evolves i x x"
  by (simp add: task_evolves_def)

lemma task_evolves_Some:
  "task_evolves i (Some t) y \<Longrightarrow> \<exists>t'. y = Some t' \<and> (t' = t \<or> task_step t t')"
  by (auto simp: task_evolves_def)

lemma task_evolves_ok:
  "task_evolves i x y \<Longrightarrow> pred_option (task_ok i) x \<Longrightarrow> pred_option (task_ok i) y"
  by (auto simp: task_evolves_def task_step_ok fresh_task_ok)

section \<open>Interleavings of operations\<close>

locale task_steps =
  fixes view :: "'w \<Rightarrow> string \<Rightarrow> task option"
    and exec :: "'op \<Rightarrow> 'w \<Rightarrow> 'w"
    and legal :: "'op \<Rightarrow> bool"
    and inv :: "'w \<Rightarrow> bool"
  assumes step_inv: "inv w \<Longrightarrow> legal op \<Longrightarrow> inv (exec op w)"
    and step_task: "inv w \<Longrightarrow> legal op \<Longrightarrow> view w i = Some t \<Longrightarrow>
      \<exists>t'. view (exec op w) i = Some t' \<and> (t' = t \<or> task_step t t')"
begin

lemma run_inv: "inv w \<Longrightarrow> list_all legal ops \<Longrightarrow> inv (fold exec ops w)"
  by (induction ops arbitrary: w) (auto simp: step_inv)

lemma run_keeps_task:
  "inv w \<Longrightarrow> list_all legal ops \<Longrightarrow> view w i = Some t \<Longrightarrow>
     \<exists>t'. view (fold exec ops w) i = Some t' \<and> task_identity t' = task_identity t"
proof (induction ops arbitrary: w t)
  case (Cons op ops)
  then obtain t1 where t1: "view (exec op w) i = Some t1" "t1 = t \<or> task_step t t1"
    using step_task by (metis list.pred_inject(2))
  then have "task_identity t1 = task_identity t" by (auto dest: task_step_identity)
  with t1 Cons.IH [of "exec op w" t1] Cons.prems show ?case by (simp add: step_inv)
qed simp

lemma run_keeps_result:
  "inv w \<Longrightarrow> list_all legal ops \<Longrightarrow> view w i = Some t \<Longrightarrow> tk_State t = TaskSucceeded \<Longrightarrow>
     view (fold exec ops w) i = Some t"
proof (induction ops arbitrary: w)
  case (Cons op ops)
  then have "view (exec op w) i = Some t"
    using step_task [of w op i t] task_step_from_succeeded by (metis list.pred_inject(2))
  with Cons show ?case by (simp add: step_inv)
qed simp

lemma run_fence:
  "inv w \<Longrightarrow> list_all legal ops \<Longrightarrow> view w i = Some t \<Longrightarrow>
     tk_FencingToken t + int (length ops) < int64_max \<Longrightarrow>
     \<exists>t'. view (fold exec ops w) i = Some t' \<and> tk_FencingToken t \<le> tk_FencingToken t' \<and>
       tk_FencingToken t' \<le> tk_FencingToken t + int (length ops)"
proof (induction ops arbitrary: w t)
  case (Cons op ops)
  then obtain t1 where t1: "view (exec op w) i = Some t1" "t1 = t \<or> task_step t t1"
    using step_task by (metis list.pred_inject(2))
  then have le: "tk_FencingToken t \<le> tk_FencingToken t1 \<and> tk_FencingToken t1 \<le> tk_FencingToken t + 1"
    using task_step_fence_le Cons.prems(4) by auto
  obtain t2 where "view (fold exec ops (exec op w)) i = Some t2"
      "tk_FencingToken t1 \<le> tk_FencingToken t2" "tk_FencingToken t2 \<le> tk_FencingToken t1 + int (length ops)"
    using Cons.IH [of "exec op w" t1] Cons.prems t1 le by (auto simp: step_inv)
  with le show ?case by auto
qed simp

end

locale fenced_tasks =
  fixes view :: "'w \<Rightarrow> string \<Rightarrow> task option"
    and exec :: "'op \<Rightarrow> 'w \<Rightarrow> 'w"
    and legal :: "'op \<Rightarrow> bool"
    and inv :: "'w \<Rightarrow> bool"
  assumes view_ok: "inv w \<Longrightarrow> view w i = Some t \<Longrightarrow> task_ok i t"
    and exec_inv: "inv w \<Longrightarrow> legal op \<Longrightarrow> inv (exec op w)"
    and exec_evolves: "inv w \<Longrightarrow> legal op \<Longrightarrow> task_evolves i (view w i) (view (exec op w) i)"

sublocale fenced_tasks \<subseteq> task_steps view exec legal inv
proof unfold_locales
  fix w op i t assume "inv w" "legal op" "view w i = Some t"
  then show "\<exists>t'. view (exec op w) i = Some t' \<and> (t' = t \<or> task_step t t')"
    using exec_evolves [of w op i] task_evolves_Some by simp
qed (rule exec_inv)

locale exclusive_leases = fenced_tasks view exec legal inv
  for view :: "'w \<Rightarrow> string \<Rightarrow> task option"
    and exec :: "'op \<Rightarrow> 'w \<Rightarrow> 'w"
    and legal :: "'op \<Rightarrow> bool"
    and inv :: "'w \<Rightarrow> bool" +
  fixes foreign :: "string \<Rightarrow> int \<Rightarrow> gotime \<Rightarrow> 'op \<Rightarrow> bool"
  assumes foreign_skips: "inv w \<Longrightarrow> legal op \<Longrightarrow> view w i = Some t \<Longrightarrow> active t \<Longrightarrow>
      foreign i (tk_FencingToken t) (tk_LeaseExpiry t) op \<Longrightarrow> view (exec op w) i = Some t"
begin

lemma run_foreign:
  "inv w \<Longrightarrow> list_all legal ops \<Longrightarrow> view w i = Some t \<Longrightarrow> active t \<Longrightarrow>
     list_all (foreign i (tk_FencingToken t) (tk_LeaseExpiry t)) ops \<Longrightarrow>
     view (fold exec ops w) i = Some t"
  by (induction ops arbitrary: w) (auto simp: foreign_skips exec_inv)

end

section \<open>The in-memory store\<close>

datatype store_op =
    OpAdd task
  | OpAcquire string string gotime duration
  | OpRenew string string int gotime duration
  | OpStartExecution string string int gotime
  | OpRecordExecutionAuthority string string int string string gotime
  | OpBeginCommit string string int gotime
  | OpCommit string string int string string gotime
  | OpRetry string string int gotime "string option"

fun store_exec :: "store_op \<Rightarrow> store \<Rightarrow> store" where
  "store_exec (OpAdd t) s = snd (Store_Add t s)"
| "store_exec (OpAcquire i owner now d) s = snd (Store_Acquire i owner now d s)"
| "store_exec (OpRenew i owner k now d) s = snd (Store_Renew i owner k now d s)"
| "store_exec (OpStartExecution i owner k now) s = snd (Store_StartExecution i owner k now s)"
| "store_exec (OpRecordExecutionAuthority i owner k d g now) s =
     snd (Store_RecordExecutionAuthority i owner k d g now s)"
| "store_exec (OpBeginCommit i owner k now) s = snd (Store_BeginCommit i owner k now s)"
| "store_exec (OpCommit i owner k a e now) s = snd (Store_Commit i owner k a e now s)"
| "store_exec (OpRetry i owner k now c) s = snd (Store_Retry i owner k now c s)"

text \<open>
  \<^verbatim>\<open>Store.Add\<close> stores the given value unchanged apart from its state, so a caller can
  insert a task that already carries a lease or a result.  Stored tasks are well formed when only
  fresh ones are added (\<open>store_legal\<close>); the properties of fencing and finality below do not need that.
\<close>

fun store_legal :: "store_op \<Rightarrow> bool" where
  "store_legal (OpAdd t) = fresh_task t"
| "store_legal _ = True"

definition store_ok_inv :: "store \<Rightarrow> bool" where
  "store_ok_inv s \<longleftrightarrow> (\<forall>i t. s i = Some t \<longrightarrow> task_ok i t)"

text \<open>An operation that is not the holder's: another task, another token, or too early to take over.\<close>

fun store_foreign :: "string \<Rightarrow> int \<Rightarrow> gotime \<Rightarrow> store_op \<Rightarrow> bool" where
  "store_foreign i k e (OpAdd t) = True"
| "store_foreign i k e (OpAcquire j owner now d) = (j \<noteq> i \<or> now < e)"
| "store_foreign i k e (OpRenew j owner k' now d) = (j \<noteq> i \<or> k' \<noteq> k)"
| "store_foreign i k e (OpStartExecution j owner k' now) = (j \<noteq> i \<or> k' \<noteq> k)"
| "store_foreign i k e (OpRecordExecutionAuthority j owner k' d g now) = (j \<noteq> i \<or> k' \<noteq> k)"
| "store_foreign i k e (OpBeginCommit j owner k' now) = (j \<noteq> i \<or> k' \<noteq> k)"
| "store_foreign i k e (OpCommit j owner k' a v now) = (j \<noteq> i \<or> k' \<noteq> k)"
| "store_foreign i k e (OpRetry j owner k' now c) = (j \<noteq> i \<or> k' \<noteq> k)"

text \<open>Every operation writes at most the entry it names, and there makes one lifecycle step.\<close>

definition store_effect :: "store_op \<Rightarrow> store \<Rightarrow> store \<Rightarrow> bool" where
  "store_effect op s s' \<longleftrightarrow>
     s' = s \<or>
     (\<exists>t. op = OpAdd t \<and> s (tk_ID t) = None \<and> tk_ID t \<noteq> '''' \<and> s' = s(tk_ID t \<mapsto> t\<lparr>tk_State := TaskQueued\<rparr>)) \<or>
     (\<exists>i t t'. s i = Some t \<and> task_step t t' \<and> s' = s(i \<mapsto> t') \<and>
        \<not> (active t \<and> store_foreign i (tk_FencingToken t) (tk_LeaseExpiry t) op))"

lemma store_effect_step:
  "s i = Some t \<Longrightarrow> task_step t t' \<Longrightarrow> active t \<Longrightarrow>
     \<not> store_foreign i (tk_FencingToken t) (tk_LeaseExpiry t) op \<Longrightarrow> store_effect op s (s(i \<mapsto> t'))"
  unfolding store_effect_def by blast

lemma store_effect_refl [simp]: "store_effect op s s"
  by (simp add: store_effect_def)

lemma Store_Add_effect: "Store_Add t s = (r, s') \<Longrightarrow> store_effect (OpAdd t) s s'"
  by (cases r) (auto simp only: Store_Add_ok store_effect_def dest: Store_Add_err)

lemma Store_Acquire_effect:
  assumes "Store_Acquire i owner now d s = (r, s')"
  shows "store_effect (OpAcquire i owner now d) s s'"
proof (cases r)
  case (Inr l)
  with assms obtain t where "owner \<noteq> ''''" "s i = Some t" "acquire_blocked t now = None"
      "s' = s(i \<mapsto> leased_task owner (now + d) t)"
    by (auto simp: Store_Acquire_ok)
  moreover from this have "\<not> (active t \<and> now < tk_LeaseExpiry t)"
    by (auto simp: acquire_blocked_None active_def)
  ultimately show ?thesis
    using task_step.acquire unfolding store_effect_def by fastforce
qed (use assms in \<open>auto dest: Store_Acquire_err\<close>)

lemma Store_Renew_effect:
  "Store_Renew i owner k now d s = (r, s') \<Longrightarrow> store_effect (OpRenew i owner k now d) s s'"
  by (cases r) (auto simp: Store_Renew_ok held_def active_def
    intro!: store_effect_step task_step.renew dest: Store_Renew_err)

lemma Store_StartExecution_effect:
  "Store_StartExecution i owner k now s = (r, s') \<Longrightarrow> store_effect (OpStartExecution i owner k now) s s'"
  by (cases r) (auto simp: Store_StartExecution_def Store_transitionOwned_ok held_def active_def
    intro!: store_effect_step task_step.start dest: Store_transitionOwned_err)

lemma Store_RecordExecutionAuthority_effect:
  "Store_RecordExecutionAuthority i owner k d g now s = (r, s') \<Longrightarrow>
     store_effect (OpRecordExecutionAuthority i owner k d g now) s s'"
  by (cases r) (auto simp: Store_RecordExecutionAuthority_ok held_def active_def
    intro!: store_effect_step task_step.authorise dest: Store_RecordExecutionAuthority_err)

lemma Store_BeginCommit_effect:
  "Store_BeginCommit i owner k now s = (r, s') \<Longrightarrow> store_effect (OpBeginCommit i owner k now) s s'"
  by (cases r) (auto simp: Store_BeginCommit_def Store_transitionOwned_ok held_def active_def
    intro!: store_effect_step task_step.begin_commit dest: Store_transitionOwned_err)

lemma Store_Commit_effect:
  "Store_Commit i owner k a e now s = (r, s') \<Longrightarrow> store_effect (OpCommit i owner k a e now) s s'"
  by (cases r) (auto simp: Store_Commit_ok held_def active_def
    intro!: store_effect_step task_step.accept dest: Store_Commit_err)

lemma Store_Retry_effect:
  "Store_Retry i owner k now c s = (r, s') \<Longrightarrow> store_effect (OpRetry i owner k now c) s s'"
  by (cases r) (auto simp: Store_Retry_ok held_def
    intro!: store_effect_step task_step.release dest: Store_Retry_err)

lemmas store_effects =
  Store_Add_effect Store_Acquire_effect Store_Renew_effect Store_StartExecution_effect
  Store_RecordExecutionAuthority_effect Store_BeginCommit_effect Store_Commit_effect Store_Retry_effect

lemma store_exec_effect: "store_effect op s (store_exec op s)"
  by (cases op) (simp_all add: store_effects [OF prod.collapse [symmetric]])

lemma fresh_task_queued [simp]: "fresh_task (t\<lparr>tk_State := q\<rparr>) = fresh_task t"
  by (simp add: fresh_task_def)

lemma store_exec_evolves:
  assumes "store_legal op"
  shows "task_evolves i (s i) (store_exec op s i)"
  using store_exec_effect [of op s] assms
  by (auto simp: store_effect_def task_evolves_def split: if_splits)

lemma store_exec_inv:
  assumes "store_ok_inv s" and "store_legal op"
  shows "store_ok_inv (store_exec op s)"
proof -
  have "pred_option (task_ok i) (store_exec op s i)" for i
    using assms store_exec_evolves [OF assms(2), of i s] task_evolves_ok
    by (fastforce simp: store_ok_inv_def option.pred_set)
  then show ?thesis unfolding store_ok_inv_def by (metis option.pred_inject(2))
qed

interpretation mem: fenced_tasks "\<lambda>s. s" store_exec store_legal store_ok_inv
  by unfold_locales (auto simp: store_exec_inv store_exec_evolves, simp add: store_ok_inv_def)

text \<open>The step contract needs no condition on added tasks: a task that exists is never added again.\<close>

lemma store_exec_step:
  assumes "s i = Some t"
  shows "\<exists>t'. store_exec op s i = Some t' \<and> (t' = t \<or> task_step t t')"
  using store_exec_effect [of op s] assms by (auto simp: store_effect_def)

lemma every_op [simp]: "list_all (\<lambda>_. True) ops"
  by (simp add: list_all_iff)

interpretation mem_steps: task_steps "\<lambda>s. s" store_exec "\<lambda>_. True" "\<lambda>_. True"
  by unfold_locales (simp_all add: store_exec_step)

interpretation mem_lease: exclusive_leases "\<lambda>s. s" store_exec store_legal store_ok_inv store_foreign
proof unfold_locales
  fix s :: store and op i t
  assume "s i = Some t" "active t" "store_foreign i (tk_FencingToken t) (tk_LeaseExpiry t) op"
  then show "store_exec op s i = Some t"
    using store_exec_effect [of op s] by (auto simp: store_effect_def)
qed

section \<open>Guarantees of the in-memory store\<close>

lemma NewStore_ok [simp]: "store_ok_inv NewStore"
  by (simp add: store_ok_inv_def NewStore_def)

lemma task_ok_accepted: "task_ok i t \<Longrightarrow> tk_AcceptedAttemptID t \<noteq> '''' \<Longrightarrow> tk_State t = TaskSucceeded"
  by (simp add: task_ok_def)

text \<open>The task used by the witnesses below.\<close>

definition example_task :: task where
  "example_task = \<lparr>tk_ID = ''t1'', tk_TenantID = ''acme'', tk_ResolutionID = ''r1'',
     tk_ClaimFingerprint = ''cf'', tk_TargetSnapshotID = ''sn'', tk_TargetSnapshotHash = ''sh'',
     tk_TargetID = ''sw1'', tk_TargetEndpoint = ''sw1:22'', tk_RecipeID = ''rec'', tk_RecipeVersion = ''1'',
     tk_TriggerDecisionID = ''d1'', tk_PlanningDecisionID = ''d2'', tk_ExecutionDecisionID = '''',
     tk_ExecutionGrantID = '''', tk_ApprovalGrantID = '''', tk_CompatibilityHash = ''ch'',
     tk_State = TaskQueued, tk_AttemptCount = 0, tk_LeaseOwner = '''', tk_LeaseExpiry = 0,
     tk_FencingToken = 0, tk_AcceptedAttemptID = '''', tk_AcceptedEvidenceID = '''', tk_LastError = ''''\<rparr>"

definition example_commit :: "store_op list" where
  "example_commit = [OpAdd example_task, OpAcquire ''t1'' ''c1'' 10000 50000,
     OpStartExecution ''t1'' ''c1'' 1 20000, OpBeginCommit ''t1'' ''c1'' 1 30000,
     OpCommit ''t1'' ''c1'' 1 ''att'' ''ev'' 40000]"

text \<open>
  C1.  Exactly one accepted result: once \<^verbatim>\<open>Commit\<close> has succeeded on a task of the in-memory store,
  whatever tasks the store was given, the task carries that attempt and evidence and no
  interleaving of further operations, by whomever and at whatever times, changes anything about
  it any more; every further \<^verbatim>\<open>Commit\<close> of the task is refused and writes nothing.
\<close>

theorem store_accepted_result_final:
  assumes "Store_Commit i owner k a e now s = (None, s1)"
  shows "\<exists>t. s1 i = Some t \<and> tk_State t = TaskSucceeded \<and> tk_AcceptedAttemptID t = a \<and> tk_AcceptedEvidenceID t = e \<and>
    fold store_exec later s1 i = Some t \<and>
    fst (Store_Commit i owner' k' a' e' now' (fold store_exec later s1)) \<in> {Some ErrDuplicateCommit, Some ErrTaskArgument} \<and>
    snd (Store_Commit i owner' k' a' e' now' (fold store_exec later s1)) = fold store_exec later s1"
proof -
  obtain t where t: "s1 i = Some t" "tk_State t = TaskSucceeded" "tk_AcceptedAttemptID t = a" "tk_AcceptedEvidenceID t = e" "a \<noteq> ''''"
    using assms by (auto simp: Store_Commit_ok accepted_task_def)
  then have "fold store_exec later s1 i = Some t" using mem_steps.run_keeps_result [where w = s1 and ops = later and i = i and t = t] by simp
  then show ?thesis using t by (auto simp: Store_Commit_def taskLocked_def)
qed

theorem store_accepted_result_final_witness:
  "\<exists>s s1 t. Store_Commit ''t1'' ''c1'' 1 ''att'' ''ev'' 40000 s = (None, s1) \<and>
     fold store_exec [OpAcquire ''t1'' ''c2'' 90000 50000, OpRetry ''t1'' ''c1'' 1 35000 None] s1 ''t1'' = Some t \<and>
     tk_AcceptedEvidenceID t = ''ev''"
proof -
  let ?s = "fold store_exec (butlast example_commit) NewStore"
  have "fst (Store_Commit ''t1'' ''c1'' 1 ''att'' ''ev'' 40000 ?s) = None" by code_simp
  then obtain s1 where c: "Store_Commit ''t1'' ''c1'' 1 ''att'' ''ev'' 40000 ?s = (None, s1)" by (metis prod.collapse)
  show ?thesis
    using store_accepted_result_final [OF c, of "[OpAcquire ''t1'' ''c2'' 90000 50000, OpRetry ''t1'' ''c1'' 1 35000 None]"] c by blast
qed

text \<open>
  What a holder of token \<open>k\<close> is answered once the task has moved to a higher token.
\<close>

lemma requireLease_superseded: "k \<noteq> tk_FencingToken t \<Longrightarrow> requireLease t owner k now = Some ErrStaleFence"
  by (simp add: requireLease_def)

lemma store_superseded:
  assumes "s i = Some t" and "k \<noteq> tk_FencingToken t"
  shows "\<exists>x. Store_Renew i owner k now d s = (Inl x, s) \<and> (now \<noteq> 0 \<and> 0 < d \<longrightarrow> x = ErrStaleFence)"
    and "Store_StartExecution i owner k now s = (Some ErrStaleFence, s)"
    and "\<exists>x. Store_RecordExecutionAuthority i owner k dec g now s = (Some x, s) \<and> (dec \<noteq> '''' \<and> g \<noteq> '''' \<longrightarrow> x = ErrStaleFence)"
    and "Store_BeginCommit i owner k now s = (Some ErrStaleFence, s)"
    and "\<exists>x. Store_Commit i owner k a e now s = (Some x, s) \<and> (a \<noteq> '''' \<and> e \<noteq> '''' \<longrightarrow> x \<in> {ErrStaleFence, ErrDuplicateCommit})"
    and "Store_Retry i owner k now c s = (Some ErrStaleFence, s)"
    and "Store_VerifyCurrentAttempt i owner k now s = Some ErrStaleFence"
  using assms(1) requireLease_superseded [OF assms(2)]
  by (simp_all add: op_defs IsZero_def)

lemma Store_Acquire_task:
  assumes "Store_Acquire i owner now d s = (Inr l, s')"
  shows "\<exists>t t'. s i = Some t \<and> s' i = Some t' \<and> active t' \<and> tk_LeaseOwner t' = owner \<and>
    l = leaseFor t' \<and> tk_LeaseExpiry t' = now + d \<and> tk_State t' = TaskLeased \<and>
    tk_FencingToken t' = int64_inc (tk_FencingToken t)"
  using assms by (auto simp: Store_Acquire_ok leased_task_def active_def)

lemma Store_Acquire_fence:
  assumes "Store_Acquire i owner now d s = (Inr l, s')" and "store_ok_inv s"
  shows "\<exists>t t'. s i = Some t \<and> s' i = Some t' \<and> active t' \<and> tk_LeaseOwner t' = owner \<and>
    l = leaseFor t' \<and> tk_LeaseExpiry t' = now + d \<and> tk_State t' = TaskLeased \<and>
    tk_FencingToken t' = int64_inc (tk_FencingToken t) \<and> store_ok_inv s'"
  using Store_Acquire_task [OF assms(1)] mem.exec_inv [OF assms(2), of "OpAcquire i owner now d"] assms(1) by simp

text \<open>
  C2.  A superseded lease is dead: if the task is acquired again after a lease was granted,
  every later fenced call with the old token (renewal, start, authority, begin of commit,
  commit, retry, verification of the attempt), by any caller at any time and after any
  interleaving, is refused and writes nothing.  The refusal is a stale fence unless the
  call's own arguments are invalid, or, for a commit, a duplicate when a result was accepted
  meanwhile.  Tokens are 64-bit counters, hence the bound on the number of operations.
\<close>

theorem store_superseded_lease_refused:
  assumes "Store_Acquire i owner now d s = (Inr l, s1)"
    and "Store_Acquire i owner2 now2 d2 (fold store_exec ops s1) = (Inr l2, s2)"
    and "ls_FencingToken l + int (length (ops @ later)) + 1 < int64_max"
    and "s3 = fold store_exec later s2"
  shows "(\<exists>x. Store_Renew i o' (ls_FencingToken l) n d' s3 = (Inl x, s3) \<and> (n \<noteq> 0 \<and> 0 < d' \<longrightarrow> x = ErrStaleFence)) \<and>
    Store_StartExecution i o' (ls_FencingToken l) n s3 = (Some ErrStaleFence, s3) \<and>
    (\<exists>x. Store_RecordExecutionAuthority i o' (ls_FencingToken l) dec g n s3 = (Some x, s3) \<and>
       (dec \<noteq> '''' \<and> g \<noteq> '''' \<longrightarrow> x = ErrStaleFence)) \<and>
    Store_BeginCommit i o' (ls_FencingToken l) n s3 = (Some ErrStaleFence, s3) \<and>
    (\<exists>x. Store_Commit i o' (ls_FencingToken l) a e n s3 = (Some x, s3) \<and>
       (a \<noteq> '''' \<and> e \<noteq> '''' \<longrightarrow> x \<in> {ErrStaleFence, ErrDuplicateCommit})) \<and>
    Store_Retry i o' (ls_FencingToken l) n c s3 = (Some ErrStaleFence, s3) \<and>
    Store_VerifyCurrentAttempt i o' (ls_FencingToken l) n s3 = Some ErrStaleFence"
proof -
  obtain t1 where t1: "s1 i = Some t1" "l = leaseFor t1" using Store_Acquire_task [OF assms(1)] by blast
  have k: "tk_FencingToken t1 = ls_FencingToken l" using t1(2) by (simp add: leaseFor_def)
  obtain t2 where t2: "fold store_exec ops s1 i = Some t2" "ls_FencingToken l \<le> tk_FencingToken t2"
      "tk_FencingToken t2 \<le> ls_FencingToken l + int (length ops)"
    using mem_steps.run_fence [where w = s1 and ops = ops and i = i and t = t1] t1(1) assms(3) k by auto
  obtain t3 where t3: "s2 i = Some t3" "tk_FencingToken t3 = tk_FencingToken t2 + 1"
    using Store_Acquire_task [OF assms(2)] t2 assms(3) by auto
  obtain t4 where t4: "s3 i = Some t4" "tk_FencingToken t3 \<le> tk_FencingToken t4"
    using mem_steps.run_fence [where w = s2 and ops = later and i = i and t = t3] t2 t3 assms(3,4) by auto
  have "ls_FencingToken l \<noteq> tk_FencingToken t4" using t2 t3 t4 by linarith
  note refused = store_superseded [of s3 i t4 "ls_FencingToken l", OF t4(1) this]
  show ?thesis by (intro conjI; rule refused)
qed

theorem store_superseded_lease_refused_witness:
  "\<exists>s1 s2 l l2. Store_Acquire ''t1'' ''c1'' 10000 5000 [''t1'' \<mapsto> example_task] = (Inr l, s1) \<and>
     Store_Acquire ''t1'' ''c2'' 20000 9000 s1 = (Inr l2, s2) \<and>
     Store_Renew ''t1'' ''c1'' (ls_FencingToken l) 20001 1000 (fold store_exec [OpStartExecution ''t1'' ''c2'' 2 20000] s2) =
       (Inl ErrStaleFence, fold store_exec [OpStartExecution ''t1'' ''c2'' 2 20000] s2)"
proof -
  let ?s = "[''t1'' \<mapsto> example_task]"
  let ?s1 = "?s(''t1'' \<mapsto> leased_task ''c1'' 15000 example_task)"
  let ?s2 = "?s1(''t1'' \<mapsto> leased_task ''c2'' 29000 (leased_task ''c1'' 15000 example_task))"
  let ?l = "leaseFor (leased_task ''c1'' 15000 example_task)"
  let ?l2 = "leaseFor (leased_task ''c2'' 29000 (leased_task ''c1'' 15000 example_task))"
  let ?later = "[OpStartExecution ''t1'' ''c2'' 2 20000]"
  have a1: "Store_Acquire ''t1'' ''c1'' 10000 5000 ?s = (Inr ?l, ?s1)"
    by (simp add: Store_Acquire_ok acquire_blocked_def example_task_def)
  have a2: "Store_Acquire ''t1'' ''c2'' 20000 9000 (fold store_exec [] ?s1) = (Inr ?l2, ?s2)"
    by (simp add: Store_Acquire_ok acquire_blocked_def example_task_def leased_task_def)
  have k: "ls_FencingToken ?l = 1"
    by (simp add: leaseFor_def leased_task_def example_task_def int64_inc_def int64_max_def)
  have "ls_FencingToken ?l + int (length ([] @ ?later)) + 1 < int64_max" using k by (simp add: int64_max_def)
  from store_superseded_lease_refused [OF a1 a2 this refl, where o' = "''c1''" and n = 20001 and d' = 1000]
  have "Store_Renew ''t1'' ''c1'' (ls_FencingToken ?l) 20001 1000 (fold store_exec ?later ?s2) =
      (Inl ErrStaleFence, fold store_exec ?later ?s2)" by auto
  then show ?thesis using a1 a2 by (metis fold_simps(1))
qed

text \<open>
  A live lease is exclusive: after a granted acquisition, calls by anyone else
  (any call on another task, a takeover attempted before the lease expires, any fenced call with
  another token), in any number and order, leave the leased task as granted, and the
  holder can still start executing it at any moment before the expiry.
\<close>

lemma store_live_lease_exclusive:
  assumes "store_ok_inv s" and "Store_Acquire i owner now d s = (Inr l, s1)"
    and "list_all store_legal ops"
    and "list_all (store_foreign i (ls_FencingToken l) (ls_ExpiresAt l)) ops"
    and "0 < n" and "n < ls_ExpiresAt l"
  shows "fold store_exec ops s1 i = s1 i \<and>
    fst (Store_StartExecution i owner (ls_FencingToken l) n (fold store_exec ops s1)) = None"
proof -
  obtain t where t: "s1 i = Some t" "l = leaseFor t" "active t" "tk_State t = TaskLeased"
      "tk_LeaseOwner t = owner" "store_ok_inv s1"
    using Store_Acquire_fence [OF assms(2,1)] by blast
  then have same: "fold store_exec ops s1 i = Some t"
    using mem_lease.run_foreign [OF t(6) assms(3) t(1,3)] assms(4) by (simp add: leaseFor_def)
  moreover have "held t owner (ls_FencingToken l) n"
    using t assms(5,6) by (simp add: held_def leaseFor_def)
  ultimately show ?thesis using t
    by (auto simp: Store_StartExecution_def Store_transitionOwned_def taskLocked_def split: option.splits)
qed

end
