(* ===== verification/Collector_Postgres.thy ===== *)
theory Collector_Postgres
  imports Task_Authority
begin

text \<open>
  The PostgreSQL task repository, \<^verbatim>\<open>internal/collector/postgres_repository.go\<close>, over the table
  \<^verbatim>\<open>broker_collector_tasks\<close> of \<^verbatim>\<open>migrations/000007_collector_tasks.up.sql\<close>.

  The table is a map from the primary key to rows; a nullable column is an option.  Every
  operation writes through one guarded \<^verbatim>\<open>UPDATE\<close> (or \<^verbatim>\<open>INSERT\<close>), which is atomic.  When it
  matched no row, a second, separate query reads the row again to choose the error; other
  sessions may have written in between, so that query gets a table \<open>seen\<close> of its own.  The
  driver's errors are the fault function \<open>f\<close>.
\<close>

section \<open>Rows\<close>

record task_row =
  tr_id :: string
  tr_tenant_id :: string
  tr_resolution_id :: string
  tr_claim_fingerprint :: string
  tr_target_snapshot_id :: string
  tr_target_snapshot_hash :: string
  tr_target_id :: string
  tr_target_endpoint :: "string option"
  tr_recipe_id :: string
  tr_recipe_version :: string
  tr_trigger_decision_id :: string
  tr_planning_decision_id :: string
  tr_execution_decision_id :: "string option"
  tr_execution_grant_id :: "string option"
  tr_approval_grant_id :: "string option"
  tr_compatibility_hash :: string
  tr_state :: task_state
  tr_attempt_count :: int
  tr_lease_owner :: "string option"
  tr_lease_expiry :: "gotime option"
  tr_fencing_token :: int
  tr_accepted_attempt_id :: "string option"
  tr_accepted_evidence_id :: "string option"
  tr_last_error :: "string option"
  tr_created_at :: gotime
  tr_updated_at :: gotime

type_synonym task_table = "string \<rightharpoonup> task_row"

definition scanTask :: "task_row \<Rightarrow> task" where
  "scanTask r =
     \<lparr>tk_ID = tr_id r, tk_TenantID = tr_tenant_id r, tk_ResolutionID = tr_resolution_id r,
      tk_ClaimFingerprint = tr_claim_fingerprint r, tk_TargetSnapshotID = tr_target_snapshot_id r,
      tk_TargetSnapshotHash = tr_target_snapshot_hash r, tk_TargetID = tr_target_id r,
      tk_TargetEndpoint = COALESCE_empty (tr_target_endpoint r), tk_RecipeID = tr_recipe_id r,
      tk_RecipeVersion = tr_recipe_version r, tk_TriggerDecisionID = tr_trigger_decision_id r,
      tk_PlanningDecisionID = tr_planning_decision_id r,
      tk_ExecutionDecisionID = COALESCE_empty (tr_execution_decision_id r),
      tk_ExecutionGrantID = COALESCE_empty (tr_execution_grant_id r),
      tk_ApprovalGrantID = COALESCE_empty (tr_approval_grant_id r),
      tk_CompatibilityHash = tr_compatibility_hash r, tk_State = tr_state r,
      tk_AttemptCount = tr_attempt_count r, tk_LeaseOwner = COALESCE_empty (tr_lease_owner r),
      tk_LeaseExpiry = (case tr_lease_expiry r of None \<Rightarrow> 0 | Some e \<Rightarrow> e),
      tk_FencingToken = tr_fencing_token r,
      tk_AcceptedAttemptID = COALESCE_empty (tr_accepted_attempt_id r),
      tk_AcceptedEvidenceID = COALESCE_empty (tr_accepted_evidence_id r),
      tk_LastError = COALESCE_empty (tr_last_error r)\<rparr>"

definition validateDurableTask :: "task \<Rightarrow> task_error option" where
  "validateDurableTask task =
     (if list_all (\<lambda>value. value \<noteq> '''' \<and> length value \<le> 512)
          [tk_ID task, tk_TenantID task, tk_ResolutionID task, tk_ClaimFingerprint task,
           tk_TargetSnapshotID task, tk_TargetSnapshotHash task, tk_TargetID task, tk_RecipeID task,
           tk_RecipeVersion task, tk_TriggerDecisionID task, tk_PlanningDecisionID task,
           tk_CompatibilityHash task]
      then None else Some ErrTaskArgument)"

definition validateLeaseInput :: "string \<Rightarrow> string \<Rightarrow> gotime \<Rightarrow> duration \<Rightarrow> task_error option" where
  "validateLeaseInput taskID owner now dur =
     (if taskID = '''' \<or> owner = '''' then Some ErrTaskArgument
      else if IsZero now \<or> Microseconds dur \<le> 0 then Some ErrTaskArgument
      else None)"

definition normaliseTime :: "gotime \<Rightarrow> gotime" where
  "normaliseTime value = Truncate_us value"

text \<open>The row an \<^verbatim>\<open>INSERT\<close> of a planned task creates; unnamed columns take their defaults.\<close>

definition new_task_row :: "gotime \<Rightarrow> task \<Rightarrow> task_row" where
  "new_task_row dbnow task =
     \<lparr>tr_id = tk_ID task, tr_tenant_id = tk_TenantID task, tr_resolution_id = tk_ResolutionID task,
      tr_claim_fingerprint = tk_ClaimFingerprint task, tr_target_snapshot_id = tk_TargetSnapshotID task,
      tr_target_snapshot_hash = tk_TargetSnapshotHash task, tr_target_id = tk_TargetID task,
      tr_target_endpoint = NULLIF_empty (tk_TargetEndpoint task), tr_recipe_id = tk_RecipeID task,
      tr_recipe_version = tk_RecipeVersion task, tr_trigger_decision_id = tk_TriggerDecisionID task,
      tr_planning_decision_id = tk_PlanningDecisionID task, tr_execution_decision_id = None,
      tr_execution_grant_id = None, tr_approval_grant_id = NULLIF_empty (tk_ApprovalGrantID task),
      tr_compatibility_hash = tk_CompatibilityHash task, tr_state = tk_State task,
      tr_attempt_count = 0, tr_lease_owner = None, tr_lease_expiry = None, tr_fencing_token = 0,
      tr_accepted_attempt_id = None, tr_accepted_evidence_id = None, tr_last_error = None,
      tr_created_at = dbnow, tr_updated_at = dbnow\<rparr>"

section \<open>Reads and classification of refused writes\<close>

definition PG_Get :: "db_call \<Rightarrow> string \<Rightarrow> task_table \<Rightarrow> task_error + task" where
  "PG_Get c taskID tb =
     (if taskID = '''' then Inl ErrTaskArgument
      else if c \<noteq> CallOK then Inl ErrTaskDatabase
      else case tb taskID of None \<Rightarrow> Inl ErrTaskNotFound | Some r \<Rightarrow> Inr (scanTask r))"

definition PG_CurrentFence :: "db_call \<Rightarrow> string \<Rightarrow> task_table \<Rightarrow> task_error + int" where
  "PG_CurrentFence c taskID tb =
     (if taskID = '''' then Inl ErrTaskArgument
      else if c \<noteq> CallOK then Inl ErrTaskDatabase
      else case tb taskID of None \<Rightarrow> Inl ErrTaskNotFound | Some r \<Rightarrow> Inr (tr_fencing_token r))"

definition PG_VerifyCurrentAttempt ::
  "db_call \<Rightarrow> string \<Rightarrow> string \<Rightarrow> int \<Rightarrow> gotime \<Rightarrow> task_table \<Rightarrow> task_error option" where
  "PG_VerifyCurrentAttempt c taskID collectorID fencingToken at tb =
     (case PG_Get c taskID tb of
        Inl e \<Rightarrow> Some e
      | Inr task \<Rightarrow>
          (case requireLease task collectorID fencingToken at of
             Some e \<Rightarrow> Some e
           | None \<Rightarrow> if tk_State task \<noteq> TaskExecuting \<and> tk_State task \<noteq> TaskCommitting
                     then Some ErrInvalidState else None))"

definition classifyAcquire :: "db_call \<Rightarrow> string \<Rightarrow> gotime \<Rightarrow> task_table \<Rightarrow> task_error" where
  "classifyAcquire c taskID now seen =
     (case PG_Get c taskID seen of
        Inl e \<Rightarrow> e
      | Inr task \<Rightarrow>
          if tk_State task \<in> {TaskLeased, TaskExecuting, TaskCommitting} \<and> now < tk_LeaseExpiry task
          then ErrLeaseHeld else ErrInvalidState)"

definition classifyOwned ::
  "db_call \<Rightarrow> string \<Rightarrow> string \<Rightarrow> int \<Rightarrow> gotime \<Rightarrow> task_state list \<Rightarrow> task_table \<Rightarrow> task_error" where
  "classifyOwned c taskID owner token now states seen =
     (case PG_Get c taskID seen of
        Inl e \<Rightarrow> e
      | Inr task \<Rightarrow>
          (case requireLease task owner token now of
             Some e \<Rightarrow> e
           | None \<Rightarrow> if tk_State task \<in> set states then ErrStaleFence else ErrInvalidState))"

text \<open>\<open>c1\<close> is the \<^verbatim>\<open>RowsAffected\<close> call, \<open>c2\<close> the classification query.\<close>

definition requireChanged ::
  "db_call \<Rightarrow> db_call \<Rightarrow> nat \<Rightarrow> string \<Rightarrow> string \<Rightarrow> int \<Rightarrow> gotime \<Rightarrow> task_state list \<Rightarrow> task_table
   \<Rightarrow> task_error option" where
  "requireChanged c1 c2 rows taskID owner token now states seen =
     (if c1 \<noteq> CallOK then Some ErrTaskDatabase
      else if rows = 1 then None
      else Some (classifyOwned c2 taskID owner token now states seen))"

section \<open>Operations\<close>

definition PG_Add :: "db_faults \<Rightarrow> gotime \<Rightarrow> task \<Rightarrow> task_table \<Rightarrow> task_error option \<times> task_table" where
  "PG_Add f dbnow task tb =
     (case validateDurableTask task of
        Some e \<Rightarrow> (Some e, tb)
      | None \<Rightarrow>
          let task = (if tk_State task = TaskStateOther '''' then task\<lparr>tk_State := TaskQueued\<rparr> else task)
          in if tk_State task \<noteq> TaskQueued then (Some ErrInvalidState, tb)
             else case sql_write (f 0) tb
                 (if tb (tk_ID task) = None
                  then Some ((), tb(tk_ID task \<mapsto> new_task_row dbnow task)) else None) of
               (None, tb') \<Rightarrow> (Some ErrTaskDatabase, tb')
             | (Some _, tb') \<Rightarrow> (None, tb'))"

definition acquirable :: "gotime \<Rightarrow> task_row \<Rightarrow> bool" where
  "acquirable now r \<longleftrightarrow>
     tr_state r \<in> {TaskQueued, TaskRetryWait} \<or>
     tr_state r \<in> {TaskLeased, TaskExecuting, TaskCommitting} \<and>
       (case tr_lease_expiry r of None \<Rightarrow> False | Some e \<Rightarrow> e \<le> now)"

definition acquire_stmt ::
  "string \<Rightarrow> string \<Rightarrow> gotime \<Rightarrow> int \<Rightarrow> task_table \<Rightarrow> (task_row option \<times> task_table) option" where
  "acquire_stmt taskID owner now us tb =
     (case tb taskID of
        None \<Rightarrow> Some (None, tb)
      | Some r \<Rightarrow>
          if \<not> acquirable now r then Some (None, tb)
          else (case (bigint_inc (tr_fencing_token r), integer_inc (tr_attempt_count r)) of
              (Some token, Some attempts) \<Rightarrow>
                let r' = r\<lparr>tr_state := TaskLeased, tr_lease_owner := Some owner,
                  tr_lease_expiry := Some (now + 1000 * us), tr_fencing_token := token,
                  tr_attempt_count := attempts, tr_execution_decision_id := None,
                  tr_execution_grant_id := None, tr_last_error := None, tr_updated_at := now\<rparr>
                in Some (Some r', tb(taskID \<mapsto> r'))
            | _ \<Rightarrow> None))"

definition PG_Acquire ::
  "db_faults \<Rightarrow> string \<Rightarrow> string \<Rightarrow> gotime \<Rightarrow> duration \<Rightarrow> task_table \<Rightarrow> task_table
   \<Rightarrow> (task_error + lease) \<times> task_table" where
  "PG_Acquire f taskID owner now dur seen tb =
     (case validateLeaseInput taskID owner now dur of
        Some e \<Rightarrow> (Inl e, tb)
      | None \<Rightarrow>
          (case sql_write (f 0) tb (acquire_stmt taskID owner (normaliseTime now) (Microseconds dur) tb) of
             (None, tb') \<Rightarrow> (Inl ErrTaskDatabase, tb')
           | (Some None, tb') \<Rightarrow> (Inl (classifyAcquire (f 1) taskID now seen), tb')
           | (Some (Some r), tb') \<Rightarrow> (Inr (leaseFor (scanTask r)), tb')))"

text \<open>
  The guard shared by every owned update: \<^verbatim>\<open>lease_owner = $2 AND fencing_token = $3 AND state IN
  (...) AND lease_expiry > now\<close>.  A comparison with NULL is not true.
\<close>

definition owned :: "string \<Rightarrow> int \<Rightarrow> gotime \<Rightarrow> task_state list \<Rightarrow> task_row \<Rightarrow> bool" where
  "owned owner token now states r \<longleftrightarrow>
     tr_lease_owner r = Some owner \<and> tr_fencing_token r = token \<and> tr_state r \<in> set states \<and>
     (case tr_lease_expiry r of None \<Rightarrow> False | Some e \<Rightarrow> now < e)"

definition update_stmt ::
  "string \<Rightarrow> (task_row \<Rightarrow> bool) \<Rightarrow> (task_row \<Rightarrow> task_row) \<Rightarrow> task_table \<Rightarrow> task_row option \<times> task_table" where
  "update_stmt taskID guard upd tb =
     (case tb taskID of
        None \<Rightarrow> (None, tb)
      | Some r \<Rightarrow> if guard r then (Some (upd r), tb(taskID \<mapsto> upd r)) else (None, tb))"

definition affected :: "task_row option \<Rightarrow> nat" where
  "affected r = (case r of None \<Rightarrow> 0 | Some _ \<Rightarrow> 1)"

definition PG_Renew ::
  "db_faults \<Rightarrow> string \<Rightarrow> string \<Rightarrow> int \<Rightarrow> gotime \<Rightarrow> duration \<Rightarrow> task_table \<Rightarrow> task_table
   \<Rightarrow> (task_error + lease) \<times> task_table" where
  "PG_Renew f taskID owner token now dur seen tb =
     (case validateLeaseInput taskID owner now dur of
        Some e \<Rightarrow> (Inl e, tb)
      | None \<Rightarrow>
          if token \<le> 0 then (Inl ErrTaskArgument, tb)
          else (case sql_write (f 0) tb (Some (update_stmt taskID
                 (owned owner token (normaliseTime now) [TaskLeased, TaskExecuting])
                 (\<lambda>r. r\<lparr>tr_lease_expiry := Some (normaliseTime now + 1000 * Microseconds dur),
                        tr_updated_at := normaliseTime now\<rparr>) tb)) of
             (None, tb') \<Rightarrow> (Inl ErrTaskDatabase, tb')
           | (Some None, tb') \<Rightarrow>
               (Inl (classifyOwned (f 1) taskID owner token now [TaskLeased, TaskExecuting] seen), tb')
           | (Some (Some r), tb') \<Rightarrow> (Inr (leaseFor (scanTask r)), tb')))"

definition PG_transitionOwned ::
  "db_faults \<Rightarrow> string \<Rightarrow> string \<Rightarrow> int \<Rightarrow> gotime \<Rightarrow> task_state \<Rightarrow> task_state \<Rightarrow> task_table \<Rightarrow> task_table
   \<Rightarrow> task_error option \<times> task_table" where
  "PG_transitionOwned f taskID owner token now from to seen tb =
     (case sql_write (f 0) tb (Some (update_stmt taskID (owned owner token (normaliseTime now) [from])
             (\<lambda>r. r\<lparr>tr_state := to, tr_updated_at := normaliseTime now\<rparr>) tb)) of
        (None, tb') \<Rightarrow> (Some ErrTaskDatabase, tb')
      | (Some r, tb') \<Rightarrow>
          (requireChanged (f 1) (f 2) (affected r) taskID owner token now [from] seen, tb'))"

definition PG_StartExecution ::
  "db_faults \<Rightarrow> string \<Rightarrow> string \<Rightarrow> int \<Rightarrow> gotime \<Rightarrow> task_table \<Rightarrow> task_table \<Rightarrow> task_error option \<times> task_table" where
  "PG_StartExecution f taskID owner token now =
     PG_transitionOwned f taskID owner token now TaskLeased TaskExecuting"

definition PG_RecordExecutionAuthority ::
  "db_faults \<Rightarrow> string \<Rightarrow> string \<Rightarrow> int \<Rightarrow> string \<Rightarrow> string \<Rightarrow> gotime \<Rightarrow> task_table \<Rightarrow> task_table
   \<Rightarrow> task_error option \<times> task_table" where
  "PG_RecordExecutionAuthority f taskID owner token decisionID grantID now seen tb =
     (if decisionID = '''' \<or> grantID = '''' then (Some ErrTaskArgument, tb)
      else case sql_write (f 0) tb (Some (update_stmt taskID
             (owned owner token (normaliseTime now) [TaskExecuting])
             (\<lambda>r. r\<lparr>tr_execution_decision_id := Some decisionID, tr_execution_grant_id := Some grantID,
                    tr_updated_at := normaliseTime now\<rparr>) tb)) of
        (None, tb') \<Rightarrow> (Some ErrTaskDatabase, tb')
      | (Some r, tb') \<Rightarrow>
          (requireChanged (f 1) (f 2) (affected r) taskID owner token now [TaskExecuting] seen, tb'))"

definition PG_BeginCommit ::
  "db_faults \<Rightarrow> string \<Rightarrow> string \<Rightarrow> int \<Rightarrow> gotime \<Rightarrow> task_table \<Rightarrow> task_table \<Rightarrow> task_error option \<times> task_table" where
  "PG_BeginCommit f taskID owner token now =
     PG_transitionOwned f taskID owner token now TaskExecuting TaskCommitting"

text \<open>The part of \<^verbatim>\<open>CommitContext\<close> after its \<^verbatim>\<open>UPDATE\<close>.\<close>

definition commit_outcome ::
  "db_call \<Rightarrow> db_call \<Rightarrow> nat \<Rightarrow> string \<Rightarrow> string \<Rightarrow> int \<Rightarrow> gotime \<Rightarrow> task_table \<Rightarrow> task_error option" where
  "commit_outcome c1 c2 rows taskID owner token now seen =
     (if c1 \<noteq> CallOK then Some ErrTaskDatabase
      else if rows = 1 then None
      else case PG_Get c2 taskID seen of
        Inl e \<Rightarrow> Some e
      | Inr task \<Rightarrow>
          if tk_AcceptedAttemptID task \<noteq> '''' then Some ErrDuplicateCommit
          else (case requireLease task owner token now of
              Some e \<Rightarrow> Some e | None \<Rightarrow> Some ErrInvalidState))"

definition PG_Commit ::
  "db_faults \<Rightarrow> string \<Rightarrow> string \<Rightarrow> int \<Rightarrow> string \<Rightarrow> string \<Rightarrow> gotime \<Rightarrow> task_table \<Rightarrow> task_table
   \<Rightarrow> task_error option \<times> task_table" where
  "PG_Commit f taskID owner token attemptID evidenceID now seen tb =
     (if attemptID = '''' \<or> evidenceID = '''' then (Some ErrTaskArgument, tb)
      else case sql_write (f 0) tb (Some (update_stmt taskID
             (\<lambda>r. owned owner token (normaliseTime now) [TaskCommitting] r \<and>
                  tr_accepted_attempt_id r = None \<and> tr_accepted_evidence_id r = None)
             (\<lambda>r. r\<lparr>tr_accepted_attempt_id := Some attemptID, tr_accepted_evidence_id := Some evidenceID,
                    tr_state := TaskSucceeded, tr_updated_at := normaliseTime now\<rparr>) tb)) of
        (None, tb') \<Rightarrow> (Some ErrTaskDatabase, tb')
      | (Some r, tb') \<Rightarrow> (commit_outcome (f 1) (f 2) (affected r) taskID owner token now seen, tb'))"

definition PG_Retry ::
  "db_faults \<Rightarrow> string \<Rightarrow> string \<Rightarrow> int \<Rightarrow> gotime \<Rightarrow> string option \<Rightarrow> task_table \<Rightarrow> task_table
   \<Rightarrow> task_error option \<times> task_table" where
  "PG_Retry f taskID owner token now cause seen tb =
     (let lastError = (case cause of None \<Rightarrow> '''' | Some msg \<Rightarrow> boundedError msg);
          states = [TaskLeased, TaskExecuting, TaskCommitting]
      in case sql_write (f 0) tb (Some (update_stmt taskID
             (owned owner token (normaliseTime now) states)
             (\<lambda>r. r\<lparr>tr_state := TaskRetryWait, tr_lease_owner := None, tr_lease_expiry := None,
                    tr_last_error := NULLIF_empty lastError, tr_updated_at := normaliseTime now\<rparr>) tb)) of
        (None, tb') \<Rightarrow> (Some ErrTaskDatabase, tb')
      | (Some r, tb') \<Rightarrow>
          (requireChanged (f 1) (f 2) (affected r) taskID owner token now states seen, tb'))"

section \<open>The schema's constraints as an invariant\<close>

text \<open>
  The \<^verbatim>\<open>CHECK\<close> constraints of the table that concern states, counters, leases and results,
  read with the tighter facts the repository maintains: only six of the eleven admitted
  states occur, counters stay in range, expiries are whole microseconds, and a task that is
  being worked on has no last error.  Length limits of caller-supplied identifiers and
  \<^verbatim>\<open>updated_at >= created_at\<close> are left to the database.
\<close>

definition row_active :: "task_row \<Rightarrow> bool" where
  "row_active r \<longleftrightarrow> tr_state r \<in> {TaskLeased, TaskExecuting, TaskCommitting}"

definition row_identity_ok :: "task_row \<Rightarrow> bool" where
  "row_identity_ok r \<longleftrightarrow>
     list_all (char_length_between 1 512)
       [tr_id r, tr_tenant_id r, tr_resolution_id r, tr_claim_fingerprint r, tr_target_snapshot_id r,
        tr_target_snapshot_hash r, tr_target_id r, tr_recipe_id r, tr_recipe_version r,
        tr_trigger_decision_id r, tr_planning_decision_id r, tr_compatibility_hash r]"

definition row_counters_ok :: "task_row \<Rightarrow> bool" where
  "row_counters_ok r \<longleftrightarrow>
     0 \<le> tr_attempt_count r \<and> tr_attempt_count r \<le> int32_max \<and>
     0 \<le> tr_fencing_token r \<and> tr_fencing_token r \<le> int64_max"

definition row_authority_ok :: "task_row \<Rightarrow> bool" where
  "row_authority_ok r \<longleftrightarrow>
     tr_execution_decision_id r \<noteq> Some '''' \<and> tr_execution_grant_id r \<noteq> Some '''' \<and>
     (tr_execution_decision_id r = None) = (tr_execution_grant_id r = None)"

definition row_result_ok :: "task_row \<Rightarrow> bool" where
  "row_result_ok r \<longleftrightarrow>
     tr_accepted_attempt_id r \<noteq> Some '''' \<and> tr_accepted_evidence_id r \<noteq> Some '''' \<and>
     (tr_accepted_attempt_id r = None) = (tr_accepted_evidence_id r = None) \<and>
     (tr_state r = TaskSucceeded) = (tr_accepted_attempt_id r \<noteq> None)"

definition row_lease_ok :: "task_row \<Rightarrow> bool" where
  "row_lease_ok r \<longleftrightarrow>
     tr_state r \<in> {TaskQueued, TaskLeased, TaskExecuting, TaskCommitting, TaskSucceeded, TaskRetryWait} \<and>
     tr_lease_owner r \<noteq> Some '''' \<and> pred_option us_aligned (tr_lease_expiry r) \<and>
     (row_active r \<longrightarrow> tr_lease_owner r \<noteq> None \<and> tr_lease_expiry r \<noteq> None \<and> 0 < tr_fencing_token r \<and>
        tr_last_error r = None) \<and>
     (tr_state r \<in> {TaskQueued, TaskRetryWait} \<longrightarrow> tr_lease_owner r = None \<and> tr_lease_expiry r = None) \<and>
     pred_option (char_length_between 1 2048) (tr_last_error r)"

definition row_ok :: "string \<Rightarrow> task_row \<Rightarrow> bool" where
  "row_ok i r \<longleftrightarrow>
     tr_id r = i \<and> row_identity_ok r \<and> row_counters_ok r \<and> row_authority_ok r \<and> row_result_ok r \<and>
     row_lease_ok r"

text \<open>What one \<^verbatim>\<open>UPDATE\<close> of the repository does to the row it matched.\<close>

inductive row_step :: "task_row \<Rightarrow> task_row \<Rightarrow> bool" where
  acquire: "acquirable now r \<Longrightarrow> owner \<noteq> '''' \<Longrightarrow> us_aligned e \<Longrightarrow>
    tr_fencing_token r \<noteq> int64_max \<Longrightarrow> tr_attempt_count r \<noteq> int32_max \<Longrightarrow>
    row_step r (r\<lparr>tr_state := TaskLeased, tr_lease_owner := Some owner,
      tr_lease_expiry := Some e, tr_fencing_token := tr_fencing_token r + 1,
      tr_attempt_count := tr_attempt_count r + 1, tr_execution_decision_id := None,
      tr_execution_grant_id := None, tr_last_error := None, tr_updated_at := u\<rparr>)"
| renew: "tr_state r \<in> {TaskLeased, TaskExecuting} \<Longrightarrow> us_aligned e \<Longrightarrow>
    row_step r (r\<lparr>tr_lease_expiry := Some e, tr_updated_at := u\<rparr>)"
| start: "tr_state r = TaskLeased \<Longrightarrow> row_step r (r\<lparr>tr_state := TaskExecuting, tr_updated_at := u\<rparr>)"
| authorise: "tr_state r = TaskExecuting \<Longrightarrow> d \<noteq> '''' \<Longrightarrow> g \<noteq> '''' \<Longrightarrow>
    row_step r (r\<lparr>tr_execution_decision_id := Some d, tr_execution_grant_id := Some g, tr_updated_at := u\<rparr>)"
| begin_commit: "tr_state r = TaskExecuting \<Longrightarrow>
    row_step r (r\<lparr>tr_state := TaskCommitting, tr_updated_at := u\<rparr>)"
| accept: "tr_state r \<in> {TaskExecuting, TaskCommitting} \<Longrightarrow> tr_accepted_attempt_id r = None \<Longrightarrow>
    a \<noteq> '''' \<Longrightarrow> v \<noteq> '''' \<Longrightarrow>
    row_step r (r\<lparr>tr_accepted_attempt_id := Some a, tr_accepted_evidence_id := Some v,
      tr_state := TaskSucceeded, tr_updated_at := u\<rparr>)"
| release: "row_active r \<Longrightarrow>
    row_step r (r\<lparr>tr_state := TaskRetryWait, tr_lease_owner := None, tr_lease_expiry := None,
      tr_last_error := NULLIF_empty (case c of None \<Rightarrow> '''' | Some msg \<Rightarrow> boundedError msg), tr_updated_at := u\<rparr>)"


lemma bounded_last_error:
  "pred_option (char_length_between 1 2048)
     (NULLIF_empty (case c of None \<Rightarrow> '''' | Some msg \<Rightarrow> boundedError msg))"
  by (auto simp: NULLIF_empty_def char_length_between_def runes_nonempty boundedError_runes split: option.splits)

lemma row_identity_update [simp]:
  "row_identity_ok (r\<lparr>tr_state := a1\<rparr>) = row_identity_ok r"
  "row_identity_ok (r\<lparr>tr_lease_owner := a2\<rparr>) = row_identity_ok r"
  "row_identity_ok (r\<lparr>tr_lease_expiry := a3\<rparr>) = row_identity_ok r"
  "row_identity_ok (r\<lparr>tr_fencing_token := a4\<rparr>) = row_identity_ok r"
  "row_identity_ok (r\<lparr>tr_attempt_count := a5\<rparr>) = row_identity_ok r"
  "row_identity_ok (r\<lparr>tr_execution_decision_id := a6\<rparr>) = row_identity_ok r"
  "row_identity_ok (r\<lparr>tr_execution_grant_id := a7\<rparr>) = row_identity_ok r"
  "row_identity_ok (r\<lparr>tr_accepted_attempt_id := a8\<rparr>) = row_identity_ok r"
  "row_identity_ok (r\<lparr>tr_accepted_evidence_id := a9\<rparr>) = row_identity_ok r"
  "row_identity_ok (r\<lparr>tr_last_error := a10\<rparr>) = row_identity_ok r"
  "row_identity_ok (r\<lparr>tr_updated_at := a11\<rparr>) = row_identity_ok r"
  by (simp_all add: row_identity_ok_def)

lemma acquirable_not_succeeded: "acquirable now r \<Longrightarrow> tr_state r \<noteq> TaskSucceeded"
  by (auto simp: acquirable_def)

lemma row_step_counters: "row_step r r' \<Longrightarrow> row_counters_ok r \<Longrightarrow> row_counters_ok r'"
  by (induction rule: row_step.induct) (simp_all add: row_counters_ok_def)

lemma row_step_authority: "row_step r r' \<Longrightarrow> row_authority_ok r \<Longrightarrow> row_authority_ok r'"
  by (induction rule: row_step.induct) (simp_all add: row_authority_ok_def)

lemma row_step_result: "row_step r r' \<Longrightarrow> row_result_ok r \<Longrightarrow> row_result_ok r'"
  by (induction rule: row_step.induct)
    (auto simp: row_result_ok_def row_active_def dest: acquirable_not_succeeded)

lemma row_step_lease: "row_step r r' \<Longrightarrow> row_counters_ok r \<Longrightarrow> row_lease_ok r \<Longrightarrow> row_lease_ok r'"
proof (induction rule: row_step.induct)
  case (acquire now r owner e u)
  then show ?case by (simp add: row_lease_ok_def row_counters_ok_def)
next
  case (renew r e u)
  then have a: "row_active r" by (auto simp: row_active_def)
  then have "tr_state r \<notin> {TaskQueued, TaskRetryWait}" by (auto simp: row_active_def)
  moreover have "row_active (r\<lparr>tr_lease_expiry := Some e, tr_updated_at := u\<rparr>)"
    using a by (simp add: row_active_def)
  ultimately show ?case using renew(2,4) a unfolding row_lease_ok_def by simp
next
  case (accept r a v u)
  then show ?case unfolding row_lease_ok_def by (simp add: row_active_def)
next
  case (release r u c)
  then show ?case using bounded_last_error [of c] by (simp add: row_lease_ok_def row_active_def)
qed (simp_all add: row_lease_ok_def row_active_def)

lemma row_step_ok: "row_step r r' \<Longrightarrow> row_ok i r \<Longrightarrow> row_ok i r'"
proof -
  assume s: "row_step r r'" and ok: "row_ok i r"
  from s have "tr_id r' = tr_id r \<and> row_identity_ok r' = row_identity_ok r"
    by (induction rule: row_step.induct) simp_all
  with s ok show ?thesis
    using row_step_counters row_step_authority row_step_result row_step_lease by (simp add: row_ok_def)
qed

section \<open>Simulation of the task lifecycle\<close>

definition task_view :: "task_table \<Rightarrow> string \<Rightarrow> task option" where
  "task_view tb i = map_option scanTask (tb i)"

definition table_ok :: "task_table \<Rightarrow> bool" where
  "table_ok tb \<longleftrightarrow> (\<forall>i r. tb i = Some r \<longrightarrow> row_ok i r)"

lemma task_view_upd: "task_view (tb(i \<mapsto> r)) = (task_view tb)(i \<mapsto> scanTask r)"
  by (auto simp: task_view_def)

lemma task_view_None [simp]: "tb i = None \<Longrightarrow> task_view tb i = None"
  and task_view_Some: "tb i = Some r \<Longrightarrow> task_view tb i = Some (scanTask r)"
  by (simp_all add: task_view_def)
lemma table_ok_row: "table_ok tb \<Longrightarrow> tb i = Some r \<Longrightarrow> row_ok i r"
  by (simp add: table_ok_def)

lemma scan_sel [row_simps]:
  "tk_ID (scanTask r) = tr_id r" "tk_TenantID (scanTask r) = tr_tenant_id r"
  "tk_State (scanTask r) = tr_state r" "tk_FencingToken (scanTask r) = tr_fencing_token r"
  "tk_AttemptCount (scanTask r) = tr_attempt_count r"
  "tk_LeaseOwner (scanTask r) = COALESCE_empty (tr_lease_owner r)"
  "tk_LeaseExpiry (scanTask r) = (case tr_lease_expiry r of None \<Rightarrow> 0 | Some e \<Rightarrow> e)"
  "tk_ExecutionDecisionID (scanTask r) = COALESCE_empty (tr_execution_decision_id r)"
  "tk_ExecutionGrantID (scanTask r) = COALESCE_empty (tr_execution_grant_id r)"
  "tk_AcceptedAttemptID (scanTask r) = COALESCE_empty (tr_accepted_attempt_id r)"
  "tk_AcceptedEvidenceID (scanTask r) = COALESCE_empty (tr_accepted_evidence_id r)"
  "tk_LastError (scanTask r) = COALESCE_empty (tr_last_error r)"
  by (simp_all add: scanTask_def)

lemma active_scan [row_simps]: "active (scanTask r) = row_active r"
  by (simp add: active_def row_active_def row_simps)

lemma COALESCE_eq_empty: "c \<noteq> Some '''' \<Longrightarrow> COALESCE_empty c = '''' \<longleftrightarrow> c = None"
  by (cases c) auto

lemma runes_Nil_iff: "char_length_between 1 n s \<Longrightarrow> s \<noteq> ''''"
  by (auto simp: char_length_between_def)

lemma row_ok_task_ok:
  assumes "row_ok i r" shows "task_ok i (scanTask r)"
proof -
  have "i \<noteq> ''''" using assms using runes_Nil_iff by (auto simp: row_ok_def row_identity_ok_def)
  moreover have "COALESCE_empty (tr_accepted_attempt_id r) = '''' \<longleftrightarrow> tr_accepted_attempt_id r = None"
    "COALESCE_empty (tr_accepted_evidence_id r) = '''' \<longleftrightarrow> tr_accepted_evidence_id r = None"
    "COALESCE_empty (tr_execution_decision_id r) = '''' \<longleftrightarrow> tr_execution_decision_id r = None"
    "COALESCE_empty (tr_execution_grant_id r) = '''' \<longleftrightarrow> tr_execution_grant_id r = None"
    "COALESCE_empty (tr_lease_owner r) = '''' \<longleftrightarrow> tr_lease_owner r = None"
    using assms by (simp_all add: COALESCE_eq_empty row_ok_def row_lease_ok_def row_result_ok_def row_authority_ok_def)
  moreover have "tr_id r = i" "row_lease_ok r" "row_result_ok r" "row_authority_ok r"
    using assms by (simp_all add: row_ok_def)
  ultimately show ?thesis
    unfolding task_ok_def row_simps row_lease_ok_def row_result_ok_def row_authority_ok_def
    by (simp del: not_None_eq)
qed

lemma row_ok_active:
  assumes "row_ok i r" and "row_active r"
  shows "\<exists>owner e. tr_lease_owner r = Some owner \<and> owner \<noteq> '''' \<and> tr_lease_expiry r = Some e \<and>
    us_aligned e \<and> 0 < tr_fencing_token r \<and> tr_last_error r = None \<and> tr_accepted_attempt_id r = None \<and>
    tr_accepted_evidence_id r = None"
proof -
  have "tr_accepted_attempt_id r = None" using assms by (auto simp: row_ok_def row_result_ok_def row_active_def)
  moreover have "tr_accepted_evidence_id r = None" "tr_lease_owner r \<noteq> None" "tr_lease_owner r \<noteq> Some ''''"
      "tr_lease_expiry r \<noteq> None" "pred_option us_aligned (tr_lease_expiry r)" "0 < tr_fencing_token r"
      "tr_last_error r = None"
    using assms calculation by (simp_all add: row_ok_def row_lease_ok_def row_result_ok_def)
  ultimately show ?thesis by auto
qed

lemma row_ok_available:
  "row_ok i r \<Longrightarrow> \<not> row_active r \<Longrightarrow> tr_state r \<noteq> TaskSucceeded \<Longrightarrow>
     tr_state r \<in> {TaskQueued, TaskRetryWait} \<and> tr_lease_owner r = None \<and> tr_lease_expiry r = None"
  unfolding row_ok_def row_lease_ok_def row_active_def by clarsimp

lemma acquirable_blocked:
  "row_ok i r \<Longrightarrow> acquire_blocked (scanTask r) now = None \<longleftrightarrow> acquirable now r"
  unfolding acquire_blocked_None acquirable_def row_simps row_active_def [symmetric]
  by (cases "row_active r") (auto dest: row_ok_active)

lemma row_step_scan:
  assumes "row_step r r'" and "row_ok i r"
  shows "task_step (scanTask r) (scanTask r')"
  using assms
proof (induction rule: row_step.induct)
  case (acquire now r owner e u)
  have "tr_fencing_token r < int64_max" "tr_attempt_count r < int64_max"
    using acquire by (auto simp: row_ok_def row_counters_ok_def int64_max_def int32_max_def)
  then have "scanTask (r\<lparr>tr_state := TaskLeased, tr_lease_owner := Some owner,
      tr_lease_expiry := Some e, tr_fencing_token := tr_fencing_token r + 1,
      tr_attempt_count := tr_attempt_count r + 1, tr_execution_decision_id := None,
      tr_execution_grant_id := None, tr_last_error := None, tr_updated_at := u\<rparr>) =
      leased_task owner e (scanTask r)"
    by (simp add: scanTask_def leased_task_def)
  then show ?case using acquire acquirable_blocked task_step.acquire by metis
next
  case (renew r e u)
  then show ?case using task_step.renew [of "scanTask r" e] by (simp add: scanTask_def)
next
  case (start r u)
  then show ?case using task_step.start [of "scanTask r"] by (simp add: scanTask_def)
next
  case (authorise r d g u)
  then show ?case using task_step.authorise [of "scanTask r" d g] by (simp add: scanTask_def)
next
  case (begin_commit r u)
  then show ?case using task_step.begin_commit [of "scanTask r"] by (simp add: scanTask_def)
next
  case (accept r a v u)
  then show ?case using task_step.accept [of "scanTask r" a v]
    by (simp add: scanTask_def accepted_task_def)
next
  case (release r u c)
  then have "tr_last_error r = None" by (simp add: row_ok_def row_lease_ok_def)
  then have "scanTask (r\<lparr>tr_state := TaskRetryWait, tr_lease_owner := None, tr_lease_expiry := None,
      tr_last_error := NULLIF_empty (case c of None \<Rightarrow> '''' | Some msg \<Rightarrow> boundedError msg), tr_updated_at := u\<rparr>) =
      released_task c (scanTask r)"
    by (simp add: scanTask_def released_task_def split: option.splits)
  with release show ?case using task_step.release [of "scanTask r" c] by (simp add: row_simps)
qed

lemma new_task_row_ok:
  assumes "validateDurableTask t = None" and "tk_State t = TaskQueued"
  shows "row_ok (tk_ID t) (new_task_row dbnow t)"
proof -
  have "char_length_between 1 512 s" if "s \<noteq> ''''" "length s \<le> 512" for s
    using runes_nonempty [OF that(1)] runes_length_le [of s] that(2) by (simp add: char_length_between_def)
  then have "row_identity_ok (new_task_row dbnow t)"
    using assms(1) by (simp add: validateDurableTask_def row_identity_ok_def new_task_row_def split: if_splits)
  then show ?thesis using assms(2)
    by (simp add: row_ok_def row_counters_ok_def row_authority_ok_def row_result_ok_def row_lease_ok_def
      row_active_def new_task_row_def int64_max_def int32_max_def)
qed

lemma new_task_row_fresh:
  "fresh_task (scanTask (new_task_row dbnow t)) \<and> tk_ID (scanTask (new_task_row dbnow t)) = tk_ID t \<and>
   tk_State (scanTask (new_task_row dbnow t)) = tk_State t"
  unfolding fresh_task_def row_simps by (simp add: new_task_row_def)

text \<open>
  What one operation may do to the table.  \<open>F i k e\<close> says that the operation is none of the
  holder's of token \<open>k\<close> on task \<open>i\<close> whose lease ends at \<open>e\<close>.
\<close>

definition table_step :: "(string \<Rightarrow> int \<Rightarrow> gotime \<Rightarrow> bool) \<Rightarrow> task_table \<Rightarrow> task_table \<Rightarrow> bool" where
  "table_step F tb tb' \<longleftrightarrow>
     tb' = tb \<or>
     (\<exists>t dbnow. tb (tk_ID t) = None \<and> validateDurableTask t = None \<and> tk_State t = TaskQueued \<and>
        tb' = tb(tk_ID t \<mapsto> new_task_row dbnow t)) \<or>
     (\<exists>i r r'. tb i = Some r \<and> row_step r r' \<and> tb' = tb(i \<mapsto> r') \<and>
        \<not> (row_active r \<and> F i (tr_fencing_token r) (case tr_lease_expiry r of None \<Rightarrow> 0 | Some e \<Rightarrow> e)))"

lemma table_step_refl [simp]: "table_step F tb tb"
  by (simp add: table_step_def)

lemma table_step_row:
  "tb i = Some r \<Longrightarrow> row_step r r' \<Longrightarrow>
     \<not> F i (tr_fencing_token r) (case tr_lease_expiry r of None \<Rightarrow> 0 | Some e \<Rightarrow> e) \<Longrightarrow>
     table_step F tb (tb(i \<mapsto> r'))"
  unfolding table_step_def by blast

lemma table_step_ok: "table_step F tb tb' \<Longrightarrow> table_ok tb \<Longrightarrow> table_ok tb'"
  unfolding table_step_def table_ok_def
  using row_step_ok by (fastforce simp: new_task_row_ok split: if_splits)

lemma table_step_evolves:
  assumes "table_step F tb tb'" and "table_ok tb"
  shows "task_evolves i (task_view tb i) (task_view tb' i)"
  using assms(1) unfolding table_step_def
proof (elim disjE exE conjE)
  fix t dbnow
  assume t: "tb (tk_ID t) = None" "validateDurableTask t = None" "tk_State t = TaskQueued"
    "tb' = tb(tk_ID t \<mapsto> new_task_row dbnow t)"
  have "tk_ID t \<noteq> ''''" using t(2) by (simp add: validateDurableTask_def split: if_splits)
  then show ?thesis
    using t new_task_row_fresh [of dbnow t] by (auto simp: task_view_def task_evolves_def)
next
  fix j r r'
  assume r: "tb j = Some r" "row_step r r'" "tb' = tb(j \<mapsto> r')"
  then have "task_step (scanTask r) (scanTask r')"
    using row_step_scan assms(2) unfolding table_ok_def by blast
  then show ?thesis using r by (auto simp: task_view_def task_evolves_def)
qed simp

lemma table_step_foreign:
  assumes "table_step F tb tb'" and "task_view tb i = Some t" and "active t"
    and "F i (tk_FencingToken t) (tk_LeaseExpiry t)"
  shows "task_view tb' i = Some t"
  using assms by (auto simp: table_step_def task_view_def row_simps)

lemma owned_write_step:
  assumes "\<And>r. tb i = Some r \<Longrightarrow> guard r \<Longrightarrow> row_step r (upd r) \<and>
      \<not> F i (tr_fencing_token r) (case tr_lease_expiry r of None \<Rightarrow> 0 | Some e \<Rightarrow> e)"
  shows "table_step F tb (snd (sql_write c tb (Some (update_stmt i guard upd tb))))"
  using assms table_step_row [of tb i _ _ F]
  by (auto simp: sql_write_def update_stmt_def split: option.splits db_call.splits if_splits)

lemma snd_owned_case:
  "snd (case p of (None, tb') \<Rightarrow> (a, tb') | (Some r, tb') \<Rightarrow> (b r, tb')) = snd p"
  by (auto split: prod.splits option.splits)

lemma snd_lease_case:
  "snd (case p of (None, tb') \<Rightarrow> (a, tb') | (Some None, tb') \<Rightarrow> (b, tb') | (Some (Some r), tb') \<Rightarrow> (g r, tb')) = snd p"
  by (auto split: prod.splits option.splits)

lemma owned_states: "owned owner k now states r \<Longrightarrow> tr_state r \<in> set states \<and> tr_fencing_token r = k"
  by (simp add: owned_def)

lemma normaliseTime_aligned [simp]: "us_aligned (normaliseTime t)"
  by (simp add: normaliseTime_def)

lemma table_step_add:
  "tb i = None \<Longrightarrow> tk_ID t = i \<Longrightarrow> validateDurableTask t = None \<Longrightarrow> tk_State t = TaskQueued \<Longrightarrow>
     table_step F tb (tb(i \<mapsto> new_task_row dbnow t))"
  unfolding table_step_def by blast

lemma validateDurableTask_state [simp]: "validateDurableTask (t\<lparr>tk_State := q\<rparr>) = validateDurableTask t"
  by (simp add: validateDurableTask_def)

lemma PG_Add_step: "table_step F tb (snd (PG_Add f dbnow t tb))"
  by (auto simp: PG_Add_def Let_def sql_write_def intro!: table_step_add
      split: option.splits db_call.splits)

lemma acquire_stmt_step:
  assumes "acquire_stmt i owner now us tb = Some (x, tb')" and "us_aligned now" and "owner \<noteq> ''''"
    and "\<And>k e. e \<le> now \<Longrightarrow> \<not> F i k e"
  shows "table_step F tb tb'"
proof (cases "tb i")
  case (Some r)
  show ?thesis
  proof (cases "acquirable now r")
    case True
    have "tr_fencing_token r \<noteq> int64_max" "tr_attempt_count r \<noteq> int32_max"
      using assms(1) Some True by (auto simp: acquire_stmt_def split: option.splits)
    then have "row_step r (the (tb' i))" "tb' = tb(i \<mapsto> the (tb' i))"
      using assms(1,2,3) Some True row_step.acquire [OF True assms(3), of "now + 1000 * us" now]
      by (auto simp: acquire_stmt_def bigint_inc_def integer_inc_def Let_def)
    moreover have "\<not> (row_active r \<and> F i (tr_fencing_token r) (case tr_lease_expiry r of None \<Rightarrow> 0 | Some e \<Rightarrow> e))"
      using True assms(4) by (auto simp: acquirable_def row_active_def split: option.splits)
    ultimately show ?thesis using Some unfolding table_step_def by blast
  qed (use assms(1) Some in \<open>simp add: acquire_stmt_def\<close>)
qed (use assms(1) in \<open>simp add: acquire_stmt_def\<close>)

lemma PG_Acquire_step:
  "table_step (\<lambda>j k e. store_foreign j k e (OpAcquire i owner now d)) tb
     (snd (PG_Acquire f i owner now d seen tb))"
proof -
  let ?tb' = "snd (PG_Acquire f i owner now d seen tb)"
  have F: "e \<le> normaliseTime now \<Longrightarrow> \<not> store_foreign i k e (OpAcquire i owner now d)" for k e
    using order_trans [OF _ Truncate_us_le, of e now] by (simp add: normaliseTime_def not_less)
  show ?thesis
  proof (cases "validateLeaseInput i owner now d")
    case None
    then have "owner \<noteq> ''''" by (auto simp: validateLeaseInput_def split: if_splits)
    moreover have "?tb' = snd (sql_write (f 0) tb (acquire_stmt i owner (normaliseTime now) (Microseconds d) tb))"
      using None by (simp add: PG_Acquire_def snd_lease_case)
    ultimately show ?thesis
      using snd_sql_write [of "f 0" tb "acquire_stmt i owner (normaliseTime now) (Microseconds d) tb"]
        acquire_stmt_step [OF _ normaliseTime_aligned, of i owner now "Microseconds d" tb] F
      by (metis table_step_refl)
  qed (simp add: PG_Acquire_def)
qed


lemma PG_Renew_step:
  "table_step (\<lambda>j k' e. store_foreign j k' e (OpRenew i owner k now d)) tb
     (snd (PG_Renew f i owner k now d seen tb))"
  by (auto simp: PG_Renew_def snd_lease_case split: option.splits
      intro!: owned_write_step row_step.renew dest!: owned_states)

lemma PG_transitionOwned_step:
  assumes "(from, to) \<in> {(TaskLeased, TaskExecuting), (TaskExecuting, TaskCommitting)}"
    and "\<And>e. \<not> F i k e"
  shows "table_step F tb (snd (PG_transitionOwned f i owner k now from to seen tb))"
  unfolding PG_transitionOwned_def snd_owned_case
  by (rule owned_write_step)
    (use assms in \<open>auto dest!: owned_states intro: row_step.start row_step.begin_commit\<close>)

lemma PG_RecordExecutionAuthority_step:
  "table_step (\<lambda>j k' e. store_foreign j k' e (OpRecordExecutionAuthority i owner k d g now)) tb
     (snd (PG_RecordExecutionAuthority f i owner k d g now seen tb))"
  by (auto simp: PG_RecordExecutionAuthority_def snd_owned_case
      intro!: owned_write_step row_step.authorise dest!: owned_states)

lemma PG_Commit_step:
  "table_step (\<lambda>j k' e. store_foreign j k' e (OpCommit i owner k a v now)) tb
     (snd (PG_Commit f i owner k a v now seen tb))"
  by (auto simp: PG_Commit_def snd_owned_case intro!: owned_write_step row_step.accept dest!: owned_states)

lemma PG_Retry_step:
  "table_step (\<lambda>j k' e. store_foreign j k' e (OpRetry i owner k now c)) tb
     (snd (PG_Retry f i owner k now c seen tb))"
  by (auto simp: PG_Retry_def Let_def snd_owned_case row_active_def
      intro!: owned_write_step row_step.release dest!: owned_states)

end
