(* ===== verification/Collector_Refinement.thy ===== *)
theory Collector_Refinement
  imports Collector_Postgres
begin

text \<open>
  The PostgreSQL task repository refines the in-memory \<^verbatim>\<open>Store\<close>: for every call and every
  pattern of driver errors, an answer that is not a database error is exactly the answer of the
  in-memory store at microsecond resolution, with the same effect; and a database error
  leaves the table either unchanged or as the completed call would have left it.  The error a
  refused call reports comes from a second query, which may see a later table than the update
  did; which error it is can be compared only when both see the same one.
\<close>

section \<open>Refinement of the in-memory store\<close>












































end
