(* ===== verification/Hex.thy ===== *)
theory Hex
  imports Utf8
begin

text \<open>
  Package \<^verbatim>\<open>encoding/hex\<close>: the lower-case encoding that digests and generated identifiers use, and
  its decoding.
\<close>

definition hex_digit :: "nat \<Rightarrow> char" where
  "hex_digit n = ''0123456789abcdef'' ! n"

definition hex_EncodeToString :: "string \<Rightarrow> string" where
  "hex_EncodeToString bs = concat (map (\<lambda>b. [hex_digit (of_char b div 16), hex_digit (of_char b mod 16)]) bs)"

lemma hex_digit_inj: "m < 16 \<Longrightarrow> n < 16 \<Longrightarrow> hex_digit m = hex_digit n \<Longrightarrow> m = n"
proof -
  have d: "distinct ''0123456789abcdef''" by simp
  assume "m < 16" "n < 16" "hex_digit m = hex_digit n"
  then show "m = n" using nth_eq_iff_index_eq [OF d, of m n] by (simp add: hex_digit_def)
qed

lemma hex_byte_inj:
  assumes "hex_digit (of_char b div 16) = hex_digit (of_char c div 16)"
    and "hex_digit (of_char b mod 16) = hex_digit (of_char c mod 16)"
  shows "b = (c :: char)"
proof -
  have "of_char b div 16 < (16 :: nat)" "of_char c div 16 < (16 :: nat)"
    by (simp_all add: div_less_iff_less_mult)
  then have "of_char b div 16 = (of_char c div 16 :: nat)" "of_char b mod 16 = (of_char c mod 16 :: nat)"
    using hex_digit_inj assms by auto
  then have "(of_char b :: nat) = of_char c" by (metis div_mod_decomp)
  then show ?thesis by simp
qed

lemma hex_length [simp]: "length (hex_EncodeToString bs) = 2 * length bs"
  by (induction bs) (auto simp: hex_EncodeToString_def)

text \<open>Distinct byte strings have distinct encodings.\<close>

lemma hex_EncodeToString_inj: "hex_EncodeToString a = hex_EncodeToString b \<Longrightarrow> a = b"
proof (induction a arbitrary: b)
  case Nil
  then show ?case by (cases b) (auto simp: hex_EncodeToString_def)
next
  case (Cons x a)
  then obtain y b' where b: "b = y # b'" by (cases b) (auto simp: hex_EncodeToString_def)
  with Cons.prems have "x = y" "hex_EncodeToString a = hex_EncodeToString b'"
    by (auto simp: hex_EncodeToString_def intro: hex_byte_inj)
  with Cons.IH b show ?case by simp
qed

definition hex_value :: "char \<Rightarrow> nat option" where
  "hex_value c =
     (let n = (of_char c :: nat)
      in if 48 \<le> n \<and> n \<le> 57 then Some (n - 48)
         else if 97 \<le> n \<and> n \<le> 102 then Some (n - 87)
         else if 65 \<le> n \<and> n \<le> 70 then Some (n - 55) else None)"

fun hex_DecodeString :: "string \<Rightarrow> string option" where
  "hex_DecodeString [] = Some []"
| "hex_DecodeString [c] = None"
| "hex_DecodeString (a # b # rest) =
     (case (hex_value a, hex_value b) of
        (Some x, Some y) \<Rightarrow> map_option ((#) (char_of (16 * x + y))) (hex_DecodeString rest)
      | _ \<Rightarrow> None)"

text \<open>Hexadecimal decoding inverts the encoding.\<close>

lemma hex_value_digit: "n < 16 \<Longrightarrow> hex_value (hex_digit n) = Some n"
proof -
  have "\<forall>n \<in> set [0..<16]. hex_value (hex_digit n) = Some n" by code_simp
  then show "n < 16 \<Longrightarrow> hex_value (hex_digit n) = Some n" by simp
qed

lemma hex_Decode_Encode: "hex_DecodeString (hex_EncodeToString s) = Some s"
proof (induction s)
  case (Cons c s)
  have "of_char c div 16 < (16 :: nat)" by (simp add: div_less_iff_less_mult)
  then show ?case using Cons by (simp add: hex_EncodeToString_def hex_value_digit)
qed (simp add: hex_EncodeToString_def)

end
