(* ===== verification/Outbox_Event.thy ===== *)
theory Outbox_Event
  imports Hex
begin

text \<open>
  Workflow events, \<^verbatim>\<open>internal/outbox/event.go\<close>.  \<^verbatim>\<open>Clone\<close> only detaches the payload slice and is
  the identity on values.
\<close>

record outbox_event =
  oe_ID :: string
  oe_TenantID :: string
  oe_AggregateType :: string
  oe_AggregateID :: string
  oe_Type :: string
  oe_Payload :: string
  oe_OccurredAt :: gotime

definition Event_Validate :: "outbox_event \<Rightarrow> bool" where
  "Event_Validate e \<longleftrightarrow>
     \<not> (oe_ID e = '''' \<or> oe_TenantID e = '''' \<or> oe_AggregateType e = '''' \<or> oe_AggregateID e = '''' \<or> oe_Type e = '''') \<and>
     \<not> (oe_Payload e = '''' \<or> IsZero (oe_OccurredAt e))"

end
