(* ===== verification/Resolution.thy ===== *)
theory Resolution
  imports Outbox_Event
begin

text \<open>
  The evidence-resolution workflow: \<^verbatim>\<open>internal/resolution/resolution_state.go\<close> (states and
  transition graph), \<^verbatim>\<open>service.go\<close> (the service over a repository), \<^verbatim>\<open>memory_repository.go\<close>
  and \<^verbatim>\<open>events.go\<close> (the watch projection).

  The repository interface is a record of functions over a state \<open>'w\<close>.  A service call gets
  its clock reading and the identifiers \<^verbatim>\<open>newID\<close> produces as arguments (\<open>None\<close>: the generator
  failed).  What the code takes from \<^verbatim>\<open>crypto/sha256\<close> and \<^verbatim>\<open>encoding/json\<close> is a \<open>codec\<close>
  argument; the theorems hold for every codec unless they say otherwise.
\<close>

section \<open>States and transitions\<close>

datatype resolution_state =
    ResolutionReceived | ResolutionResolvingTargets | ResolutionPlanning | ResolutionQueued
  | ResolutionComplete | ResolutionPartial | ResolutionDenied | ResolutionFailed
  | ResolutionCancelled | ResolutionExpired
  | ResolutionStateOther string

datatype resolution_error =
    ErrNotFound | ErrVersionConflict | ErrIdempotencyConflict | ErrInvalidTransition
  | ErrResolutionArgument | ErrResolutionTime | ErrResolutionID | ErrResolutionEncoding
  | ErrResolutionDatabase

fun allowedTransitions :: "resolution_state \<Rightarrow> resolution_state list option" where
  "allowedTransitions ResolutionReceived = Some [ResolutionResolvingTargets, ResolutionDenied,
     ResolutionFailed, ResolutionCancelled, ResolutionExpired]"
| "allowedTransitions ResolutionResolvingTargets = Some [ResolutionPlanning, ResolutionDenied,
     ResolutionFailed, ResolutionCancelled, ResolutionExpired]"
| "allowedTransitions ResolutionPlanning = Some [ResolutionQueued, ResolutionDenied,
     ResolutionFailed, ResolutionCancelled, ResolutionExpired]"
| "allowedTransitions ResolutionQueued = Some [ResolutionComplete, ResolutionPartial,
     ResolutionFailed, ResolutionCancelled, ResolutionExpired]"
| "allowedTransitions _ = None"

fun Terminal :: "resolution_state \<Rightarrow> bool" where
  "Terminal ResolutionComplete = True"
| "Terminal ResolutionPartial = True"
| "Terminal ResolutionDenied = True"
| "Terminal ResolutionFailed = True"
| "Terminal ResolutionCancelled = True"
| "Terminal ResolutionExpired = True"
| "Terminal _ = False"

definition ValidateTransition :: "resolution_state \<Rightarrow> resolution_state \<Rightarrow> resolution_error option" where
  "ValidateTransition current next' =
     (if next' = ResolutionStateOther '''' then Some ErrInvalidTransition
      else if Terminal current then Some ErrInvalidTransition
      else case allowedTransitions current of
        None \<Rightarrow> Some ErrInvalidTransition
      | Some nextStates \<Rightarrow> if next' \<in> set nextStates then None else Some ErrInvalidTransition)"

record resolution =
  rs_ID :: string
  rs_ActorID :: string
  rs_TenantID :: string
  rs_IdempotencyKey :: string
  rs_RequestDigest :: string
  rs_RequestDocument :: string
  rs_State :: resolution_state
  rs_TargetCount :: int
  rs_Completed :: bool
  rs_Version :: int
  rs_CreatedAt :: gotime
  rs_UpdatedAt :: gotime

section \<open>The service\<close>

record create_request =
  cr_ActorID :: string
  cr_TenantID :: string
  cr_IdempotencyKey :: string
  cr_RequestDigest :: string
  cr_RequestDocument :: string

record transition_request =
  tq_TenantID :: string
  tq_ResolutionID :: string
  tq_ExpectedVersion :: int
  tq_NextState :: resolution_state

record event_payload =
  ep_SchemaVersion :: string
  ep_ResolutionID :: string
  ep_State :: resolution_state
  ep_Version :: int
  ep_RequestDigest :: string
  ep_RequestDocument :: string

record codec =
  sha256_Sum256 :: "string \<Rightarrow> string"
  json_Valid :: "string \<Rightarrow> bool"
  json_Marshal :: "event_payload \<Rightarrow> string option"
  json_Unmarshal :: "string \<Rightarrow> (string \<times> resolution_state \<times> int) option"

type_synonym 'w repo_create = "resolution \<Rightarrow> outbox_event \<Rightarrow> 'w \<Rightarrow> (resolution_error + resolution \<times> bool) \<times> 'w"
type_synonym 'w repo_get = "string \<Rightarrow> string \<Rightarrow> 'w \<Rightarrow> (resolution_error + resolution) \<times> 'w"
type_synonym 'w repo_transition =
  "string \<Rightarrow> string \<Rightarrow> int \<Rightarrow> resolution_state \<Rightarrow> resolution_state \<Rightarrow> gotime \<Rightarrow> outbox_event \<Rightarrow> 'w
   \<Rightarrow> (resolution_error + resolution) \<times> 'w"

record 'w resolution_repository =
  repo_Create :: "'w repo_create"
  repo_Get :: "'w repo_get"
  repo_Transition :: "'w repo_transition"

definition maximumRequestDocumentSize :: nat where
  "maximumRequestDocumentSize = 64 * 1024"

definition validateCreateRequest :: "codec \<Rightarrow> create_request \<Rightarrow> bool" where
  "validateCreateRequest cd request \<longleftrightarrow>
     \<not> (cr_ActorID request = '''' \<or> cr_TenantID request = '''' \<or> cr_IdempotencyKey request = '''' \<or>
        cr_RequestDigest request = '''' \<or> length (cr_RequestDocument request) = 0) \<and>
     \<not> (128 < length (cr_IdempotencyKey request) \<or> 128 < length (cr_RequestDigest request)) \<and>
     \<not> (maximumRequestDocumentSize < length (cr_RequestDocument request) \<or>
        \<not> json_Valid cd (cr_RequestDocument request)) \<and>
     cr_RequestDigest request = ''sha256:'' @ hex_EncodeToString (sha256_Sum256 cd (cr_RequestDocument request))"

definition validateEventBinding :: "outbox_event \<Rightarrow> string \<Rightarrow> string \<Rightarrow> bool" where
  "validateEventBinding event tenantID resolutionID \<longleftrightarrow>
     Event_Validate event \<and>
     \<not> (oe_TenantID event \<noteq> tenantID \<or> oe_AggregateType event \<noteq> ''resolution'' \<or> oe_AggregateID event \<noteq> resolutionID)"

definition validateNewResolution :: "codec \<Rightarrow> resolution \<Rightarrow> outbox_event \<Rightarrow> bool" where
  "validateNewResolution cd r event \<longleftrightarrow>
     rs_ID r \<noteq> '''' \<and>
     validateCreateRequest cd \<lparr>cr_ActorID = rs_ActorID r, cr_TenantID = rs_TenantID r,
       cr_IdempotencyKey = rs_IdempotencyKey r, cr_RequestDigest = rs_RequestDigest r,
       cr_RequestDocument = rs_RequestDocument r\<rparr> \<and>
     \<not> (rs_State r \<noteq> ResolutionReceived \<or> rs_Version r \<noteq> 1 \<or> rs_Completed r) \<and>
     \<not> (IsZero (rs_CreatedAt r) \<or> rs_UpdatedAt r < rs_CreatedAt r) \<and>
     validateEventBinding event (rs_TenantID r) (rs_ID r)"

definition resolutionEvent ::
  "codec \<Rightarrow> string \<Rightarrow> string \<Rightarrow> resolution \<Rightarrow> gotime \<Rightarrow> outbox_event option" where
  "resolutionEvent cd eventID eventType r occurredAt =
     (let payload = \<lparr>ep_SchemaVersion = ''v1'', ep_ResolutionID = rs_ID r, ep_State = rs_State r,
            ep_Version = rs_Version r,
            ep_RequestDigest = (if eventType = ''resolution.received'' then rs_RequestDigest r else ''''),
            ep_RequestDocument = (if eventType = ''resolution.received'' then rs_RequestDocument r else '''')\<rparr>
      in case json_Marshal cd payload of
           None \<Rightarrow> None
         | Some bytes \<Rightarrow> Some \<lparr>oe_ID = eventID, oe_TenantID = rs_TenantID r, oe_AggregateType = ''resolution'',
             oe_AggregateID = rs_ID r, oe_Type = eventType, oe_Payload = bytes, oe_OccurredAt = occurredAt\<rparr>)"

text \<open>The new resolution of \<^verbatim>\<open>Service.Create\<close> and the updated one of \<^verbatim>\<open>Service.Transition\<close>.\<close>

definition new_resolution :: "string \<Rightarrow> gotime \<Rightarrow> create_request \<Rightarrow> resolution" where
  "new_resolution resolutionID now request =
     \<lparr>rs_ID = resolutionID, rs_ActorID = cr_ActorID request, rs_TenantID = cr_TenantID request,
      rs_IdempotencyKey = cr_IdempotencyKey request, rs_RequestDigest = cr_RequestDigest request,
      rs_RequestDocument = cr_RequestDocument request, rs_State = ResolutionReceived, rs_TargetCount = 0,
      rs_Completed = False, rs_Version = 1, rs_CreatedAt = now, rs_UpdatedAt = now\<rparr>"

definition advanced :: "resolution_state \<Rightarrow> gotime \<Rightarrow> resolution \<Rightarrow> resolution" where
  "advanced next' now r =
     r\<lparr>rs_State := next', rs_Completed := Terminal next', rs_Version := int64_inc (rs_Version r),
       rs_UpdatedAt := now\<rparr>"

definition Service_Create ::
  "codec \<Rightarrow> 'w resolution_repository \<Rightarrow> gotime \<Rightarrow> string option \<Rightarrow> string option \<Rightarrow> create_request \<Rightarrow> 'w
   \<Rightarrow> (resolution_error + resolution \<times> bool) \<times> 'w" where
  "Service_Create cd repo now resID evtID request w =
     (if \<not> validateCreateRequest cd request then (Inl ErrResolutionArgument, w)
      else case (resID, evtID) of
        (Some resolutionID, Some eventID) \<Rightarrow>
          let created = new_resolution resolutionID now request
          in (case resolutionEvent cd eventID ''resolution.received'' created now of
                None \<Rightarrow> (Inl ErrResolutionEncoding, w)
              | Some event \<Rightarrow> repo_Create repo created event w)
      | _ \<Rightarrow> (Inl ErrResolutionID, w))"

definition Service_Get ::
  "'w resolution_repository \<Rightarrow> string \<Rightarrow> string \<Rightarrow> 'w \<Rightarrow> (resolution_error + resolution) \<times> 'w" where
  "Service_Get repo tenantID resolutionID w =
     (if tenantID = '''' \<or> resolutionID = '''' then (Inl ErrResolutionArgument, w)
      else repo_Get repo tenantID resolutionID w)"

definition Service_Transition ::
  "codec \<Rightarrow> 'w resolution_repository \<Rightarrow> gotime \<Rightarrow> string option \<Rightarrow> transition_request \<Rightarrow> 'w
   \<Rightarrow> (resolution_error + resolution) \<times> 'w" where
  "Service_Transition cd repo now evtID request w =
     (if tq_TenantID request = '''' \<or> tq_ResolutionID request = '''' \<or> tq_ExpectedVersion request \<le> 0
      then (Inl ErrResolutionArgument, w)
      else case repo_Get repo (tq_TenantID request) (tq_ResolutionID request) w of
        (Inl e, w1) \<Rightarrow> (Inl e, w1)
      | (Inr current, w1) \<Rightarrow>
          if rs_Version current \<noteq> tq_ExpectedVersion request then (Inl ErrVersionConflict, w1)
          else (case ValidateTransition (rs_State current) (tq_NextState request) of
            Some e \<Rightarrow> (Inl e, w1)
          | None \<Rightarrow>
              (case evtID of
                 None \<Rightarrow> (Inl ErrResolutionID, w1)
               | Some eventID \<Rightarrow>
                   let next' = advanced (tq_NextState request) now current
                   in (case resolutionEvent cd eventID ''resolution.state_changed'' next' now of
                         None \<Rightarrow> (Inl ErrResolutionEncoding, w1)
                       | Some event \<Rightarrow>
                           repo_Transition repo (tq_TenantID request) (tq_ResolutionID request)
                             (tq_ExpectedVersion request) (rs_State current) (tq_NextState request) now event w1))))"

definition randomID :: "string \<Rightarrow> string \<Rightarrow> string" where
  "randomID prefix value = prefix @ ''-'' @ hex_EncodeToString value"

section \<open>The in-memory repository\<close>

record memory_repository =
  mr_resolutions :: "string \<rightharpoonup> resolution"
  mr_idempotency :: "string \<rightharpoonup> string \<times> string"
  mr_events :: "outbox_event list"

definition NewMemoryRepository :: memory_repository where
  "NewMemoryRepository = \<lparr>mr_resolutions = Map.empty, mr_idempotency = Map.empty, mr_events = []\<rparr>"

definition idempotencyMapKey :: "string \<Rightarrow> string \<Rightarrow> string \<Rightarrow> string" where
  "idempotencyMapKey tenantID actorID key = tenantID @ [NUL] @ actorID @ [NUL] @ key"

text \<open>
  A missing entry of a Go map reads as the zero value; \<open>zero_resolution\<close> is what \<^verbatim>\<open>Create\<close> would
  return for an idempotency record whose resolution is missing.
\<close>

definition zero_resolution :: resolution where
  "zero_resolution = \<lparr>rs_ID = '''', rs_ActorID = '''', rs_TenantID = '''', rs_IdempotencyKey = '''',
     rs_RequestDigest = '''', rs_RequestDocument = '''', rs_State = ResolutionStateOther '''',
     rs_TargetCount = 0, rs_Completed = False, rs_Version = 0, rs_CreatedAt = 0, rs_UpdatedAt = 0\<rparr>"

definition Mem_Create :: "codec \<Rightarrow> memory_repository repo_create" where
  "Mem_Create cd r event m =
     (if \<not> validateNewResolution cd r event then (Inl ErrResolutionArgument, m)
      else let key = idempotencyMapKey (rs_TenantID r) (rs_ActorID r) (rs_IdempotencyKey r)
      in case mr_idempotency m key of
        Some (requestDigest, resolutionID) \<Rightarrow>
          if requestDigest \<noteq> rs_RequestDigest r then (Inl ErrIdempotencyConflict, m)
          else (Inr (case mr_resolutions m resolutionID of None \<Rightarrow> zero_resolution | Some x \<Rightarrow> x, False), m)
      | None \<Rightarrow>
          if mr_resolutions m (rs_ID r) \<noteq> None then (Inl ErrVersionConflict, m)
          else (Inr (r, True),
            m\<lparr>mr_resolutions := (mr_resolutions m)(rs_ID r \<mapsto> r),
              mr_idempotency := (mr_idempotency m)(key \<mapsto> (rs_RequestDigest r, rs_ID r)),
              mr_events := mr_events m @ [event]\<rparr>))"

definition Mem_Get :: "memory_repository repo_get" where
  "Mem_Get tenantID resolutionID m =
     (case mr_resolutions m resolutionID of
        None \<Rightarrow> (Inl ErrNotFound, m)
      | Some r \<Rightarrow> if rs_TenantID r \<noteq> tenantID then (Inl ErrNotFound, m) else (Inr r, m))"

definition Mem_Transition :: "memory_repository repo_transition" where
  "Mem_Transition tenantID resolutionID expectedVersion expectedState next' updatedAt event m =
     (case mr_resolutions m resolutionID of
        None \<Rightarrow> (Inl ErrNotFound, m)
      | Some r \<Rightarrow>
          if rs_TenantID r \<noteq> tenantID then (Inl ErrNotFound, m)
          else if rs_Version r \<noteq> expectedVersion \<or> rs_State r \<noteq> expectedState then (Inl ErrVersionConflict, m)
          else (case ValidateTransition expectedState next' of
            Some e \<Rightarrow> (Inl e, m)
          | None \<Rightarrow>
              if IsZero updatedAt \<or> updatedAt < rs_UpdatedAt r then (Inl ErrResolutionTime, m)
              else if \<not> validateEventBinding event tenantID resolutionID then (Inl ErrResolutionArgument, m)
              else let r' = advanced next' updatedAt r
                   in (Inr r', m\<lparr>mr_resolutions := (mr_resolutions m)(resolutionID \<mapsto> r'),
                         mr_events := mr_events m @ [event]\<rparr>)))"

definition Mem_PendingEvents :: "int \<Rightarrow> memory_repository \<Rightarrow> outbox_event list" where
  "Mem_PendingEvents limit m = (if limit \<le> 0 then [] else take (nat limit) (mr_events m))"

definition mem_repo :: "codec \<Rightarrow> memory_repository resolution_repository" where
  "mem_repo cd = \<lparr>repo_Create = Mem_Create cd, repo_Get = Mem_Get, repo_Transition = Mem_Transition\<rparr>"

section \<open>Watch projection\<close>

record watch_event =
  we_Cursor :: int
  we_Type :: string
  we_State :: resolution_state
  we_OccurredAt :: gotime

definition knownResolutionState :: "resolution_state \<Rightarrow> bool" where
  "knownResolutionState state = (case state of ResolutionStateOther _ \<Rightarrow> False | _ \<Rightarrow> True)"

definition safeWatchEvent :: "codec \<Rightarrow> outbox_event \<Rightarrow> watch_event option" where
  "safeWatchEvent cd event =
     (if oe_Type event \<noteq> ''resolution.received'' \<and> oe_Type event \<noteq> ''resolution.state_changed'' \<and>
         oe_Type event \<noteq> ''resolution.tasks_queued'' then None
      else case json_Unmarshal cd (oe_Payload event) of
        None \<Rightarrow> None
      | Some (schema, state, version) \<Rightarrow>
          if schema \<noteq> ''v1'' \<or> version \<le> 0 \<or> IsZero (oe_OccurredAt event) then None
          else let state' = (if state = ResolutionStateOther '''' \<and> oe_Type event = ''resolution.tasks_queued''
                             then ResolutionQueued else state)
               in if \<not> knownResolutionState state' then None
                  else Some \<lparr>we_Cursor = version, we_Type = oe_Type event, we_State = state',
                              we_OccurredAt = oe_OccurredAt event\<rparr>)"

definition validateWatchRequest :: "string \<Rightarrow> string \<Rightarrow> int \<Rightarrow> int \<Rightarrow> bool" where
  "validateWatchRequest tenantID resolutionID after limit \<longleftrightarrow>
     \<not> (tenantID = '''' \<or> resolutionID = '''' \<or> after < 0 \<or> limit \<le> 0 \<or> 100 < limit)"

text \<open>The scan of \<^verbatim>\<open>ListEvents\<close>: \<open>n\<close> more events may be returned; an event that cannot be projected aborts it.\<close>

fun watch_scan :: "codec \<Rightarrow> string \<Rightarrow> string \<Rightarrow> int \<Rightarrow> nat \<Rightarrow> outbox_event list \<Rightarrow> watch_event list option" where
  "watch_scan cd tenantID resolutionID after n [] = Some []"
| "watch_scan cd tenantID resolutionID after n (event # rest) =
     (if oe_TenantID event \<noteq> tenantID \<or> oe_AggregateType event \<noteq> ''resolution'' \<or> oe_AggregateID event \<noteq> resolutionID
      then watch_scan cd tenantID resolutionID after n rest
      else case safeWatchEvent cd event of
        None \<Rightarrow> None
      | Some projected \<Rightarrow>
          if we_Cursor projected \<le> after then watch_scan cd tenantID resolutionID after n rest
          else if n = 1 then Some [projected]
          else map_option (\<lambda>es. projected # es) (watch_scan cd tenantID resolutionID after (n - 1) rest))"

definition Mem_ListEvents ::
  "codec \<Rightarrow> string \<Rightarrow> string \<Rightarrow> int \<Rightarrow> int \<Rightarrow> memory_repository \<Rightarrow> resolution_error + watch_event list" where
  "Mem_ListEvents cd tenantID resolutionID after limit m =
     (if \<not> validateWatchRequest tenantID resolutionID after limit then Inl ErrResolutionArgument
      else case mr_resolutions m resolutionID of
        None \<Rightarrow> Inl ErrNotFound
      | Some r \<Rightarrow>
          if rs_TenantID r \<noteq> tenantID then Inl ErrNotFound
          else (case watch_scan cd tenantID resolutionID after (nat limit) (mr_events m) of
              None \<Rightarrow> Inl ErrResolutionEncoding | Some events \<Rightarrow> Inr events))"

end
