(* ===== verification/Resolution_Contract.thy ===== *)
theory Resolution_Contract
  imports Resolution
begin

text \<open>
  What a resolution repository promises, as an abstract workflow: resolutions by identifier,
  idempotency keys, and the outbox events in commit order.  \<open>workflow_step\<close> is the specification
  of one committed change.  The locale \<open>resolution_store\<close> states that a repository's calls
  are such steps (or change nothing) and derives what holds after every interleaving of calls;
  it is interpreted for the in-memory and for the PostgreSQL repository.
\<close>

section \<open>Abstract workflow\<close>

record workflow =
  wf_resolutions :: "string \<rightharpoonup> resolution"
  wf_keys :: "string \<times> string \<times> string \<rightharpoonup> string \<times> string"
  wf_events :: "outbox_event list"

definition key_of :: "resolution \<Rightarrow> string \<times> string \<times> string" where
  "key_of r = (rs_TenantID r, rs_ActorID r, rs_IdempotencyKey r)"

definition bound_to :: "outbox_event \<Rightarrow> resolution \<Rightarrow> bool" where
  "bound_to e r \<longleftrightarrow> oe_TenantID e = rs_TenantID r \<and> oe_AggregateType e = ''resolution'' \<and> oe_AggregateID e = rs_ID r"

text \<open>Where a workflow stands: the version counts the states passed through.\<close>

fun stage :: "resolution_state \<Rightarrow> int" where
  "stage ResolutionReceived = 1"
| "stage ResolutionResolvingTargets = 2"
| "stage ResolutionPlanning = 3"
| "stage ResolutionQueued = 4"
| "stage _ = 5"

definition resolution_ok :: "string \<Rightarrow> resolution \<Rightarrow> bool" where
  "resolution_ok i r \<longleftrightarrow>
     rs_ID r = i \<and> i \<noteq> '''' \<and> knownResolutionState (rs_State r) \<and>
     rs_Completed r = Terminal (rs_State r) \<and> 1 \<le> rs_Version r \<and>
     (if Terminal (rs_State r) then rs_Version r \<le> 5 else rs_Version r = stage (rs_State r)) \<and>
     rs_CreatedAt r \<le> rs_UpdatedAt r"

definition fresh_resolution :: "resolution \<Rightarrow> bool" where
  "fresh_resolution r \<longleftrightarrow> rs_ID r \<noteq> '''' \<and> rs_State r = ResolutionReceived \<and> rs_Version r = 1 \<and>
     \<not> rs_Completed r \<and> rs_CreatedAt r \<le> rs_UpdatedAt r"

inductive resolution_step :: "resolution \<Rightarrow> resolution \<Rightarrow> bool" where
  advance: "ValidateTransition (rs_State r) next' = None \<Longrightarrow> rs_UpdatedAt r \<le> now \<Longrightarrow>
    resolution_step r (advanced next' now r)"
| queue: "rs_State r = ResolutionPlanning \<Longrightarrow> rs_UpdatedAt r \<le> now \<Longrightarrow>
    resolution_step r ((advanced ResolutionQueued now r)\<lparr>rs_TargetCount := n\<rparr>)"

inductive workflow_step :: "workflow \<Rightarrow> workflow \<Rightarrow> bool" where
  create: "fresh_resolution r \<Longrightarrow> wf_keys w (key_of r) = None \<Longrightarrow> wf_resolutions w (rs_ID r) = None \<Longrightarrow>
    bound_to e r \<Longrightarrow>
    workflow_step w (w\<lparr>wf_resolutions := (wf_resolutions w)(rs_ID r \<mapsto> r),
      wf_keys := (wf_keys w)(key_of r \<mapsto> (rs_RequestDigest r, rs_ID r)), wf_events := wf_events w @ [e]\<rparr>)"
| change: "wf_resolutions w i = Some r \<Longrightarrow> resolution_step r r' \<Longrightarrow> bound_to e r \<Longrightarrow>
    workflow_step w (w\<lparr>wf_resolutions := (wf_resolutions w)(i \<mapsto> r'), wf_events := wf_events w @ [e]\<rparr>)"

inductive_cases workflow_stepE: "workflow_step w w'"

definition workflow_ok :: "workflow \<Rightarrow> bool" where
  "workflow_ok w \<longleftrightarrow>
     (\<forall>i r. wf_resolutions w i = Some r \<longrightarrow>
        resolution_ok i r \<and> wf_keys w (key_of r) = Some (rs_RequestDigest r, i)) \<and>
     (\<forall>k d i. wf_keys w k = Some (d, i) \<longrightarrow>
        (\<exists>r. wf_resolutions w i = Some r \<and> key_of r = k \<and> rs_RequestDigest r = d))"

section \<open>Properties of single steps\<close>

lemma ValidateTransition_None:
  "ValidateTransition s n = None \<longleftrightarrow> (\<exists>ns. allowedTransitions s = Some ns \<and> n \<in> set ns)"
  by (cases s) (auto simp: ValidateTransition_def)

lemma Terminal_absorbing: "Terminal s \<Longrightarrow> ValidateTransition s n \<noteq> None"
  by (simp add: ValidateTransition_def)

lemma transition_stage:
  "ValidateTransition s n = None \<Longrightarrow> knownResolutionState n \<and> stage s \<le> 4 \<and>
     (Terminal n \<or> stage n = stage s + 1)"
  by (cases s) (auto simp: ValidateTransition_None knownResolutionState_def)

lemma int64_inc_small [simp]: "n \<le> 5 \<Longrightarrow> int64_inc n = n + 1"
  by (simp add: int64_inc_def int64_max_def)

lemma resolution_step_cases:
  assumes "resolution_step r r'"
  obtains n now where "ValidateTransition (rs_State r) n = None" "rs_UpdatedAt r \<le> now"
    "\<exists>c. r' = (advanced n now r)\<lparr>rs_TargetCount := c\<rparr>"
  using assms
proof cases
  case (advance n now)
  have "r' = (advanced n now r)\<lparr>rs_TargetCount := rs_TargetCount r\<rparr>"
    unfolding advance(1) by (simp add: advanced_def)
  then show ?thesis using that advance(2,3) by blast
next
  case (queue now c)
  then show ?thesis using that [of ResolutionQueued now] by (auto simp: ValidateTransition_None)
qed

lemma resolution_step_ok:
  assumes "resolution_step r r'" and "resolution_ok i r"
  shows "resolution_ok i r' \<and> rs_Version r' = rs_Version r + 1 \<and> \<not> Terminal (rs_State r)"
proof -
  obtain n now c where r': "ValidateTransition (rs_State r) n = None" "rs_UpdatedAt r \<le> now"
      "r' = (advanced n now r)\<lparr>rs_TargetCount := c\<rparr>"
    using assms(1) by (elim resolution_step_cases) blast
  have nt: "\<not> Terminal (rs_State r)" using r'(1) Terminal_absorbing by blast
  then have v: "rs_Version r = stage (rs_State r)" "rs_Version r \<le> 4"
    using assms(2) transition_stage [OF r'(1)] by (auto simp: resolution_ok_def)
  show ?thesis using assms(2) r' nt v transition_stage [OF r'(1)]
    by (auto simp: resolution_ok_def advanced_def)
qed

lemma resolution_step_identity:
  "resolution_step r r' \<Longrightarrow> rs_ID r' = rs_ID r \<and> key_of r' = key_of r \<and>
     rs_RequestDigest r' = rs_RequestDigest r \<and> rs_RequestDocument r' = rs_RequestDocument r \<and>
     rs_CreatedAt r' = rs_CreatedAt r"
  by (elim resolution_step_cases) (auto simp: advanced_def key_of_def)

text \<open>Only queueing sets the target count; from then on it is fixed.\<close>

lemma Terminal_stage: "Terminal n \<Longrightarrow> stage n = 5"
  by (cases n) auto

lemma resolution_step_count:
  assumes "resolution_step r r'" and "4 \<le> stage (rs_State r)"
  shows "rs_TargetCount r' = rs_TargetCount r \<and> 4 \<le> stage (rs_State r')"
  using assms
proof cases
  case (advance n now)
  then show ?thesis using assms(2) transition_stage [OF advance(2)] Terminal_stage [of n] by (auto simp: advanced_def)
qed (use assms(2) in simp)

lemma fresh_resolution_ok: "fresh_resolution r \<Longrightarrow> resolution_ok (rs_ID r) r"
  by (simp add: fresh_resolution_def resolution_ok_def knownResolutionState_def)

lemma validateNewResolution_fresh:
  "validateNewResolution cd r e \<Longrightarrow> fresh_resolution r \<and> bound_to e r \<and> Event_Validate e"
  by (auto simp: validateNewResolution_def fresh_resolution_def validateEventBinding_def bound_to_def)

lemma workflow_step_ok:
  assumes "workflow_step w w'" and "workflow_ok w"
  shows "workflow_ok w'"
  using assms(1)
proof (cases rule: workflow_step.cases)
  case (create r e)
  show ?thesis unfolding create(1) using create(2-) assms(2) fresh_resolution_ok [OF create(2)]
    unfolding workflow_ok_def by (fastforce split: if_splits)
next
  case (change i r r' e)
  have "resolution_ok i r" using change(2) assms(2) by (simp add: workflow_ok_def)
  then show ?thesis unfolding change(1)
    using change(2-) assms(2) resolution_step_ok resolution_step_identity
    unfolding workflow_ok_def by (fastforce split: if_splits)
qed

lemma workflow_step_keys:
  assumes "workflow_step w w'" and "wf_keys w k = Some x"
  shows "wf_keys w' k = Some x"
  using assms by (auto elim!: workflow_stepE)

lemma workflow_step_resolution:
  assumes "workflow_step w w'" and "wf_resolutions w i = Some r"
  shows "\<exists>r'. wf_resolutions w' i = Some r' \<and> (r' = r \<or> resolution_step r r')"
  using assms by (auto elim!: workflow_stepE)

text \<open>Every version of a resolution has its event, and no event is without its resolution.\<close>

definition workflow_logged :: "workflow \<Rightarrow> bool" where
  "workflow_logged w \<longleftrightarrow>
     (\<forall>e \<in> set (wf_events w). wf_resolutions w (oe_AggregateID e) \<noteq> None) \<and>
     (\<forall>i r. wf_resolutions w i = Some r \<longrightarrow> int (length (filter (\<lambda>e. bound_to e r) (wf_events w))) = rs_Version r)"

lemma bound_to_step [simp]: "resolution_step r r' \<Longrightarrow> bound_to e r' = bound_to e r"
  using resolution_step_identity [of r r'] by (auto simp: bound_to_def key_of_def)

lemma workflow_step_logged:
  assumes "workflow_step w w'" and "workflow_ok w" and "workflow_logged w"
  shows "workflow_logged w'"
proof -
  have id: "rs_ID r = i" if "wf_resolutions w i = Some r" for i r
    using assms(2) that by (simp add: workflow_ok_def resolution_ok_def)
  from assms(1) show ?thesis
  proof (cases rule: workflow_step.cases)
    case (create r e)
    have "filter (\<lambda>e. bound_to e r) (wf_events w) = []"
      using create(4) assms(3) by (auto simp: workflow_logged_def bound_to_def filter_empty_conv)
    moreover have "\<not> bound_to e s" if "wf_resolutions w i = Some s" for i s
      using id [OF that] that create(4,5) by (auto simp: bound_to_def)
    ultimately show ?thesis unfolding create(1) using create(2,5) assms(3)
      by (simp add: workflow_logged_def fresh_resolution_def bound_to_def [of e r])
  next
    case (change i r r' e)
    have "resolution_ok i r" using change(2) assms(2) by (simp add: workflow_ok_def)
    then have v: "rs_Version r' = rs_Version r + 1" using resolution_step_ok [OF change(3)] by simp
    have "\<not> bound_to e s" if "wf_resolutions w j = Some s" "j \<noteq> i" for j s
      using id [OF that(1)] id [OF change(2)] that change(4) by (auto simp: bound_to_def)
    moreover have "oe_AggregateID e = i" using change(4) id [OF change(2)] by (simp add: bound_to_def)
    ultimately show ?thesis unfolding change(1) using change(2-4) assms(3) v
      by (simp add: workflow_logged_def)
  qed
qed

section \<open>Interleavings of repository calls\<close>

text \<open>
  \<open>exec\<close> is any call that may change the repository, \<open>create c r e\<close> one of them: \<^verbatim>\<open>Create\<close> under
  the circumstances \<open>c\<close> (driver behaviour).  \<open>fits r\<close> says that the key of \<open>r\<close> is one the
  repository can tell apart from all others.
\<close>

locale resolution_store =
  fixes abs :: "'w \<Rightarrow> workflow"
    and exec :: "'op \<Rightarrow> 'w \<Rightarrow> 'w"
    and legal :: "'op \<Rightarrow> bool"
    and inv :: "'w \<Rightarrow> bool"
    and create :: "'c \<Rightarrow> resolution \<Rightarrow> outbox_event \<Rightarrow> 'w \<Rightarrow> (resolution_error + resolution \<times> bool) \<times> 'w"
    and create_op :: "'c \<Rightarrow> resolution \<Rightarrow> outbox_event \<Rightarrow> 'op"
    and fits :: "resolution \<Rightarrow> bool"
  assumes inv_ok: "inv w \<Longrightarrow> workflow_ok (abs w)"
    and exec_inv: "inv w \<Longrightarrow> legal op \<Longrightarrow> inv (exec op w)"
    and exec_step: "inv w \<Longrightarrow> legal op \<Longrightarrow>
      abs (exec op w) = abs w \<or> workflow_step (abs w) (abs (exec op w))"
    and create_exec: "exec (create_op c r e) w = snd (create c r e w)"
    and create_legal: "fits r \<Longrightarrow> legal (create_op c r e)"
    and create_new: "inv w \<Longrightarrow> fits r \<Longrightarrow> create c r e w = (Inr (x, True), w') \<Longrightarrow>
      wf_keys (abs w) (key_of r) = None \<and> wf_keys (abs w') (key_of r) = Some (rs_RequestDigest r, rs_ID x)"
    and create_replay: "inv w \<Longrightarrow> fits r \<Longrightarrow> create c r e w = (Inr (x, False), w') \<Longrightarrow>
      abs w' = abs w \<and> wf_keys (abs w) (key_of r) = Some (rs_RequestDigest r, rs_ID x) \<and>
      wf_resolutions (abs w) (rs_ID x) = Some x"
begin

lemma run_inv: "inv w \<Longrightarrow> list_all legal ops \<Longrightarrow> inv (fold exec ops w)"
  by (induction ops arbitrary: w) (auto simp: exec_inv)

lemma run_keys:
  "inv w \<Longrightarrow> list_all legal ops \<Longrightarrow> wf_keys (abs w) k = Some x \<Longrightarrow> wf_keys (abs (fold exec ops w)) k = Some x"
proof (induction ops arbitrary: w)
  case (Cons op ops)
  then have "wf_keys (abs (exec op w)) k = Some x"
    using exec_step [of w op] workflow_step_keys by (metis list.pred_inject(2))
  with Cons show ?case by (simp add: exec_inv)
qed simp

lemma run_logged:
  "inv w \<Longrightarrow> list_all legal ops \<Longrightarrow> workflow_logged (abs w) \<Longrightarrow> workflow_logged (abs (fold exec ops w))"
proof (induction ops arbitrary: w)
  case (Cons op ops)
  then have "workflow_logged (abs (exec op w))"
    using exec_step [of w op] workflow_step_logged [OF _ inv_ok] by auto
  with Cons show ?case by (simp add: exec_inv)
qed simp

lemma exec_SomeE:
  assumes "inv w" and "legal op" and "wf_resolutions (abs w) i = Some r"
  obtains r' where "wf_resolutions (abs (exec op w)) i = Some r'" and "r' = r \<or> resolution_step r r'"
  using exec_step [OF assms(1,2)] workflow_step_resolution assms(3) by metis

lemma run_resolution:
  "inv w \<Longrightarrow> list_all legal ops \<Longrightarrow> wf_resolutions (abs w) i = Some r \<Longrightarrow>
     \<exists>r'. wf_resolutions (abs (fold exec ops w)) i = Some r' \<and> key_of r' = key_of r \<and>
       rs_RequestDigest r' = rs_RequestDigest r \<and> rs_RequestDocument r' = rs_RequestDocument r \<and>
       rs_Version r \<le> rs_Version r'"
proof (induction ops arbitrary: w r)
  case (Cons op ops)
  obtain r1 where r1: "wf_resolutions (abs (exec op w)) i = Some r1" "r1 = r \<or> resolution_step r r1"
    using exec_SomeE [of w op i r] Cons.prems by auto
  have "resolution_ok i r" using inv_ok [OF Cons.prems(1)] Cons.prems(3) by (simp add: workflow_ok_def)
  then have "key_of r1 = key_of r" "rs_RequestDigest r1 = rs_RequestDigest r"
      "rs_RequestDocument r1 = rs_RequestDocument r" "rs_Version r \<le> rs_Version r1"
    using r1(2) resolution_step_identity [of r r1] resolution_step_ok [of r r1 i] by auto
  with r1(1) Cons.IH [of "exec op w" r1] Cons.prems show ?case by (auto simp: exec_inv)
qed auto

lemma run_count:
  "inv w \<Longrightarrow> list_all legal ops \<Longrightarrow> wf_resolutions (abs w) i = Some r \<Longrightarrow> 4 \<le> stage (rs_State r) \<Longrightarrow>
     \<exists>r'. wf_resolutions (abs (fold exec ops w)) i = Some r' \<and> rs_TargetCount r' = rs_TargetCount r \<and> 4 \<le> stage (rs_State r')"
proof (induction ops arbitrary: w r)
  case (Cons op ops)
  obtain r1 where r1: "wf_resolutions (abs (exec op w)) i = Some r1" "r1 = r \<or> resolution_step r r1"
    using exec_SomeE [of w op i r] Cons.prems by auto
  then have "rs_TargetCount r1 = rs_TargetCount r \<and> 4 \<le> stage (rs_State r1)"
    using resolution_step_count [of r r1] Cons.prems(4) by auto
  with r1(1) Cons.IH [of "exec op w" r1] Cons.prems show ?case by (auto simp: exec_inv)
qed auto

lemma run_terminal:
  "inv w \<Longrightarrow> list_all legal ops \<Longrightarrow> wf_resolutions (abs w) i = Some r \<Longrightarrow> Terminal (rs_State r) \<Longrightarrow>
     wf_resolutions (abs (fold exec ops w)) i = Some r"
proof (induction ops arbitrary: w)
  case (Cons op ops)
  have "resolution_ok i r" using inv_ok [OF Cons.prems(1)] Cons.prems(3) by (simp add: workflow_ok_def)
  then have "wf_resolutions (abs (exec op w)) i = Some r"
    using exec_SomeE [of w op i r] Cons.prems resolution_step_ok by (metis list.pred_inject(2))
  with Cons show ?case by (simp add: exec_inv)
qed simp

lemma create_maps:
  assumes "inv w" and "fits r" and "create c r e w = (Inr (x, b), w')"
  shows "inv w' \<and> wf_keys (abs w') (key_of r) = Some (rs_RequestDigest r, rs_ID x)"
  using assms create_new [of w r c e x w'] create_replay [of w r c e x w'] exec_inv [OF assms(1) create_legal, of r c e]
    create_exec [of c r e w]
  by (cases b) auto

lemma create_retry:
  assumes "inv w" and "fits r" and "list_all legal ops"
    and "create c r e w = (Inr (x, b), w1)"
    and "create c' r' e' (fold exec ops w1) = (Inr (x', b'), w2)" and "key_of r' = key_of r" and "fits r'"
  shows "\<not> b' \<and> rs_ID x' = rs_ID x \<and> rs_RequestDigest r' = rs_RequestDigest r \<and>
    abs w2 = abs (fold exec ops w1)"
proof -
  have w1: "inv w1" "wf_keys (abs w1) (key_of r) = Some (rs_RequestDigest r, rs_ID x)"
    using create_maps [OF assms(1,2,4)] by auto
  have k: "wf_keys (abs (fold exec ops w1)) (key_of r) = Some (rs_RequestDigest r, rs_ID x)"
    using run_keys [OF w1(1) assms(3) w1(2)] .
  have i: "inv (fold exec ops w1)" using run_inv [OF w1(1) assms(3)] .
  have "\<not> b'" using create_new [OF i assms(7)] assms(5,6) k by (cases b') auto
  then show ?thesis using create_replay [OF i assms(7)] assms(5,6) k by (cases b') auto
qed

end

end
