(* ===== verification/Resolution_Memory.thy ===== *)
theory Resolution_Memory
  imports Resolution_Contract
begin

text \<open>
  The in-memory resolution repository implements the contract, and what follows for the
  service over it: idempotent creation, absorbing terminal states, the bound on versions and the
  completeness of the watch projection.
\<close>

section \<open>The repository implements the contract\<close>

text \<open>
  Keys are joined with NUL bytes (\<^verbatim>\<open>idempotencyMapKey\<close>), so tenants and actors are only told
  apart when they contain none.
\<close>

definition mem_fits :: "resolution \<Rightarrow> bool" where
  "mem_fits r \<longleftrightarrow> nul_free (rs_TenantID r) \<and> nul_free (rs_ActorID r)"

fun mem_keys :: "(string \<rightharpoonup> string \<times> string) \<Rightarrow> string \<times> string \<times> string \<rightharpoonup> string \<times> string" where
  "mem_keys f (t, a, k) = (if nul_free t \<and> nul_free a then f (idempotencyMapKey t a k) else None)"

definition mem_abs :: "memory_repository \<Rightarrow> workflow" where
  "mem_abs m = \<lparr>wf_resolutions = mr_resolutions m, wf_keys = mem_keys (mr_idempotency m), wf_events = mr_events m\<rparr>"

datatype mem_op =
    MemCreate codec resolution outbox_event
  | MemTransition string string int resolution_state resolution_state gotime outbox_event

fun mem_exec :: "mem_op \<Rightarrow> memory_repository \<Rightarrow> memory_repository" where
  "mem_exec (MemCreate cd r e) m = snd (Mem_Create cd r e m)"
| "mem_exec (MemTransition t i v s n now e) m = snd (Mem_Transition t i v s n now e m)"

fun mem_legal :: "mem_op \<Rightarrow> bool" where
  "mem_legal (MemCreate cd r e) = mem_fits r"
| "mem_legal (MemTransition t i v s n now e) = True"

definition mem_inv :: "memory_repository \<Rightarrow> bool" where
  "mem_inv m \<longleftrightarrow> workflow_ok (mem_abs m)"

lemma mem_abs_sel [simp]:
  "wf_resolutions (mem_abs m) = mr_resolutions m" "wf_events (mem_abs m) = mr_events m"
  by (simp_all add: mem_abs_def)

lemma mem_abs_key:
  "mem_fits r \<Longrightarrow> wf_keys (mem_abs m) (key_of r) =
     mr_idempotency m (idempotencyMapKey (rs_TenantID r) (rs_ActorID r) (rs_IdempotencyKey r))"
  by (simp add: mem_abs_def mem_fits_def key_of_def)

lemma idempotencyMapKey_eq:
  assumes "nul_free t" and "nul_free t'" and "nul_free a" and "nul_free a'"
  shows "idempotencyMapKey t a k = idempotencyMapKey t' a' k' \<longleftrightarrow> t = t' \<and> a = a' \<and> k = k'"
  using nul_key_inject [OF assms, of k k'] by (auto simp: idempotencyMapKey_def)

lemma mem_abs_insert:
  assumes "mem_fits r"
  shows "mem_abs (m\<lparr>mr_resolutions := rs,
      mr_idempotency := (mr_idempotency m)(idempotencyMapKey (rs_TenantID r) (rs_ActorID r) (rs_IdempotencyKey r) \<mapsto> x),
      mr_events := es\<rparr>) =
    (mem_abs m)\<lparr>wf_resolutions := rs, wf_keys := (wf_keys (mem_abs m))(key_of r \<mapsto> x), wf_events := es\<rparr>"
proof -
  have "mem_keys ((mr_idempotency m)(idempotencyMapKey (rs_TenantID r) (rs_ActorID r) (rs_IdempotencyKey r) \<mapsto> x)) (t, a, k) =
      ((mem_keys (mr_idempotency m))(key_of r \<mapsto> x)) (t, a, k)" for t a k
    using assms idempotencyMapKey_eq [of t "rs_TenantID r" a "rs_ActorID r" k "rs_IdempotencyKey r"]
    by (cases "nul_free t \<and> nul_free a") (auto simp: key_of_def mem_fits_def)
  then have "mem_keys ((mr_idempotency m)(idempotencyMapKey (rs_TenantID r) (rs_ActorID r) (rs_IdempotencyKey r) \<mapsto> x)) =
      (mem_keys (mr_idempotency m))(key_of r \<mapsto> x)"
    by (intro ext) (simp only: split_paired_all)
  then show ?thesis by (simp add: mem_abs_def)
qed

lemma mem_abs_events: "mem_abs (m\<lparr>mr_resolutions := rs, mr_events := es\<rparr>) =
    (mem_abs m)\<lparr>wf_resolutions := rs, wf_events := es\<rparr>"
  by (simp add: mem_abs_def)

lemma Mem_Create_step:
  assumes "mem_fits r"
  shows "mem_abs (snd (Mem_Create cd r e m)) = mem_abs m \<or>
    workflow_step (mem_abs m) (mem_abs (snd (Mem_Create cd r e m)))"
proof (cases "validateNewResolution cd r e \<and> wf_keys (mem_abs m) (key_of r) = None \<and> mr_resolutions m (rs_ID r) = None")
  case True
  then have "snd (Mem_Create cd r e m) = m\<lparr>mr_resolutions := (mr_resolutions m)(rs_ID r \<mapsto> r),
      mr_idempotency := (mr_idempotency m)(idempotencyMapKey (rs_TenantID r) (rs_ActorID r) (rs_IdempotencyKey r) \<mapsto> (rs_RequestDigest r, rs_ID r)),
      mr_events := mr_events m @ [e]\<rparr>"
    by (simp add: Mem_Create_def Let_def mem_abs_key [OF assms])
  then show ?thesis
    using True workflow_step.create [of r "mem_abs m" e] validateNewResolution_fresh [of cd r e]
    by (simp add: mem_abs_insert [OF assms])
next
  case False
  then have "snd (Mem_Create cd r e m) = m"
    by (auto simp: Mem_Create_def Let_def mem_abs_key [OF assms] split: option.splits)
  then show ?thesis by simp
qed

lemma Mem_Transition_ok:
  "Mem_Transition t i v s n now e m = (Inr r', m') \<longleftrightarrow>
     (\<exists>r. mr_resolutions m i = Some r \<and> rs_TenantID r = t \<and> rs_Version r = v \<and> rs_State r = s \<and>
        ValidateTransition s n = None \<and> now \<noteq> 0 \<and> rs_UpdatedAt r \<le> now \<and> validateEventBinding e t i \<and>
        r' = advanced n now r \<and>
        m' = m\<lparr>mr_resolutions := (mr_resolutions m)(i \<mapsto> r'), mr_events := mr_events m @ [e]\<rparr>)"
  by (auto simp: Mem_Transition_def Let_def IsZero_def split: option.splits)

lemma Mem_Transition_err: "Mem_Transition t i v s n now e m = (Inl x, m') \<Longrightarrow> m' = m"
  by (auto simp: Mem_Transition_def Let_def split: option.splits if_splits)

lemma Mem_Transition_step:
  assumes "mem_inv m" and "Mem_Transition t i v s n now e m = (a, m')"
  shows "mem_abs m' = mem_abs m \<or> workflow_step (mem_abs m) (mem_abs m')"
proof (cases a)
  case (Inl x)
  then show ?thesis using assms(2) Mem_Transition_err by blast
next
  case (Inr r')
  with assms(2) obtain r where r: "mr_resolutions m i = Some r" "rs_TenantID r = t" "rs_State r = s"
      "ValidateTransition s n = None" "rs_UpdatedAt r \<le> now" "validateEventBinding e t i"
      and m': "m' = m\<lparr>mr_resolutions := (mr_resolutions m)(i \<mapsto> advanced n now r), mr_events := mr_events m @ [e]\<rparr>"
    by (auto simp: Mem_Transition_ok)
  have "rs_ID r = i" using assms(1) r(1) by (simp add: mem_inv_def workflow_ok_def resolution_ok_def)
  then have "bound_to e r" using r(2,6) by (simp add: bound_to_def validateEventBinding_def)
  then show ?thesis
    using workflow_step.change [of "mem_abs m" i r "advanced n now r" e] r resolution_step.advance [of r n now]
    by (simp add: m' mem_abs_events)
qed

lemma mem_exec_step:
  assumes "mem_inv m" and "mem_legal op"
  shows "mem_abs (mem_exec op m) = mem_abs m \<or> workflow_step (mem_abs m) (mem_abs (mem_exec op m))"
proof (cases op)
  case (MemCreate cd r e)
  then show ?thesis using assms(2) Mem_Create_step by simp
next
  case (MemTransition t i v s n now e)
  then show ?thesis using Mem_Transition_step [OF assms(1) prod.collapse [symmetric]] by simp
qed

lemma Mem_Create_ok:
  assumes "mem_fits r" and "Mem_Create cd r e m = (Inr (x, b), m')"
  shows "if b then validateNewResolution cd r e \<and> x = r \<and> wf_keys (mem_abs m) (key_of r) = None \<and>
      m' = m\<lparr>mr_resolutions := (mr_resolutions m)(rs_ID r \<mapsto> r),
        mr_idempotency := (mr_idempotency m)(idempotencyMapKey (rs_TenantID r) (rs_ActorID r) (rs_IdempotencyKey r) \<mapsto> (rs_RequestDigest r, rs_ID r)),
        mr_events := mr_events m @ [e]\<rparr>
    else m' = m \<and> (\<exists>i. wf_keys (mem_abs m) (key_of r) = Some (rs_RequestDigest r, i) \<and>
      x = (case mr_resolutions m i of None \<Rightarrow> zero_resolution | Some y \<Rightarrow> y))"
  using assms(2) by (auto simp: Mem_Create_def Let_def mem_abs_key [OF assms(1)] split: if_splits option.splits)

interpretation memory: resolution_store mem_abs mem_exec mem_legal mem_inv Mem_Create MemCreate mem_fits
proof unfold_locales
  fix m op assume "mem_inv m" "mem_legal op"
  then show "mem_inv (mem_exec op m)"
    using mem_exec_step [of m op] workflow_step_ok by (auto simp: mem_inv_def)
next
  fix m r cd e x m'
  assume "mem_fits r" "Mem_Create cd r e m = (Inr (x, True), m')"
  from Mem_Create_ok [OF this]
  show "wf_keys (mem_abs m) (key_of r) = None \<and> wf_keys (mem_abs m') (key_of r) = Some (rs_RequestDigest r, rs_ID x)"
    by (simp add: mem_abs_insert [OF \<open>mem_fits r\<close>])
next
  fix m r cd e x m'
  assume inv: "mem_inv m" and fits: "mem_fits r" and c: "Mem_Create cd r e m = (Inr (x, False), m')"
  from Mem_Create_ok [OF fits c] obtain i where i: "m' = m"
      "wf_keys (mem_abs m) (key_of r) = Some (rs_RequestDigest r, i)"
      "x = (case mr_resolutions m i of None \<Rightarrow> zero_resolution | Some y \<Rightarrow> y)" by auto
  from inv have ok: "workflow_ok (mem_abs m)" by (simp add: mem_inv_def)
  then obtain y where "mr_resolutions m i = Some y"
    using i(2) unfolding workflow_ok_def mem_abs_sel by blast
  moreover from this ok have "rs_ID y = i" by (simp add: workflow_ok_def resolution_ok_def)
  ultimately show "mem_abs m' = mem_abs m \<and> wf_keys (mem_abs m) (key_of r) = Some (rs_RequestDigest r, rs_ID x) \<and>
      wf_resolutions (mem_abs m) (rs_ID x) = Some x" using i by simp
next
  fix m op assume "mem_inv m" "mem_legal op"
  then show "mem_abs (mem_exec op m) = mem_abs m \<or> workflow_step (mem_abs m) (mem_abs (mem_exec op m))"
    by (rule mem_exec_step)
qed (simp_all add: mem_inv_def)

section \<open>The service over the in-memory repository\<close>

datatype svc_op =
    SvcCreate gotime "string option" "string option" create_request
  | SvcTransition gotime "string option" transition_request

fun svc_exec :: "codec \<Rightarrow> svc_op \<Rightarrow> memory_repository \<Rightarrow> memory_repository" where
  "svc_exec cd (SvcCreate now resID evtID request) m = snd (Service_Create cd (mem_repo cd) now resID evtID request m)"
| "svc_exec cd (SvcTransition now evtID request) m = snd (Service_Transition cd (mem_repo cd) now evtID request m)"

fun svc_legal :: "svc_op \<Rightarrow> bool" where
  "svc_legal (SvcCreate now resID evtID request) = (nul_free (cr_TenantID request) \<and> nul_free (cr_ActorID request))"
| "svc_legal (SvcTransition now evtID request) = True"

text \<open>
  The one fact about \<^verbatim>\<open>encoding/json\<close> the watch relies on: decoding an encoded event payload
  with a known state gives back its schema version, state and version.
\<close>

definition codec_ok :: "codec \<Rightarrow> bool" where
  "codec_ok cd \<longleftrightarrow> (\<forall>p b. json_Marshal cd p = Some b \<longrightarrow> knownResolutionState (ep_State p) \<longrightarrow>
     json_Unmarshal cd b = Some (ep_SchemaVersion p, ep_State p, ep_Version p))"

text \<open>The events of one resolution project to its versions 1, 2, \<dots> in order, the last one with its state.\<close>

definition history_of :: "codec \<Rightarrow> outbox_event list \<Rightarrow> resolution \<Rightarrow> bool" where
  "history_of cd es r \<longleftrightarrow>
     (\<exists>ws. map (safeWatchEvent cd) (filter (\<lambda>e. bound_to e r) es) = map Some ws \<and>
        map we_Cursor ws = [1..rs_Version r] \<and> we_State (last ws) = rs_State r)"

definition event_history :: "codec \<Rightarrow> memory_repository \<Rightarrow> bool" where
  "event_history cd m \<longleftrightarrow>
     (\<forall>e \<in> set (mr_events m). mr_resolutions m (oe_AggregateID e) \<noteq> None) \<and>
     (\<forall>i r. mr_resolutions m i = Some r \<longrightarrow> history_of cd (mr_events m) r)"

lemma history_of_skip: "\<not> bound_to e r \<Longrightarrow> history_of cd (es @ [e]) r = history_of cd es r"
  by (simp add: history_of_def)

lemma history_of_first:
  assumes "filter (\<lambda>e. bound_to e r) es = []" and "bound_to e r" and "safeWatchEvent cd e = Some w"
    and "we_Cursor w = 1" and "rs_Version r = 1" and "we_State w = rs_State r"
  shows "history_of cd (es @ [e]) r"
  unfolding history_of_def using assms by (intro exI [of _ "[w]"]) simp

lemma history_of_next:
  assumes "history_of cd es r" and "bound_to e r" and "\<And>x. bound_to x r' = bound_to x r"
    and "safeWatchEvent cd e = Some w" and "we_Cursor w = rs_Version r'" and "we_State w = rs_State r'"
    and "rs_Version r' = rs_Version r + 1" and "1 \<le> rs_Version r"
  shows "history_of cd (es @ [e]) r'"
proof -
  obtain ws where ws: "map (safeWatchEvent cd) (filter (\<lambda>e. bound_to e r) es) = map Some ws"
      "map we_Cursor ws = [1..rs_Version r]"
    using assms(1) unfolding history_of_def by blast
  have "[1..rs_Version r'] = [1..rs_Version r] @ [rs_Version r']"
    using assms(7,8) upto_rec2 [of 1 "rs_Version r + 1"] by simp
  then show ?thesis unfolding history_of_def assms(3)
    using ws assms(2,4,5,6) by (intro exI [of _ "ws @ [w]"]) simp
qed

lemma resolutionEvent_describes:
  assumes "resolutionEvent cd eid ty r now = Some e" and "codec_ok cd" and "knownResolutionState (rs_State r)"
    and "0 < rs_Version r" and "now \<noteq> 0" and "ty \<in> {''resolution.received'', ''resolution.state_changed''}"
  shows "bound_to e r \<and> oe_AggregateID e = rs_ID r \<and>
    safeWatchEvent cd e = Some \<lparr>we_Cursor = rs_Version r, we_Type = ty, we_State = rs_State r, we_OccurredAt = now\<rparr>"
proof -
  define p where "p = \<lparr>ep_SchemaVersion = ''v1'', ep_ResolutionID = rs_ID r, ep_State = rs_State r,
    ep_Version = rs_Version r, ep_RequestDigest = (if ty = ''resolution.received'' then rs_RequestDigest r else ''''),
    ep_RequestDocument = (if ty = ''resolution.received'' then rs_RequestDocument r else '''')\<rparr>"
  obtain b where b: "json_Marshal cd p = Some b" and e: "e = \<lparr>oe_ID = eid, oe_TenantID = rs_TenantID r,
      oe_AggregateType = ''resolution'', oe_AggregateID = rs_ID r, oe_Type = ty, oe_Payload = b, oe_OccurredAt = now\<rparr>"
    using assms(1) unfolding resolutionEvent_def Let_def p_def by (auto split: option.splits)
  have "knownResolutionState (ep_State p)" using assms(3) by (simp add: p_def)
  then have u: "json_Unmarshal cd b = Some (''v1'', rs_State r, rs_Version r)"
    using assms(2) b unfolding codec_ok_def by (auto simp: p_def)
  have s: "rs_State r \<noteq> ResolutionStateOther ''''" using assms(3) by (auto simp: knownResolutionState_def)
  have t: "\<not> (ty \<noteq> ''resolution.received'' \<and> ty \<noteq> ''resolution.state_changed'' \<and> ty \<noteq> ''resolution.tasks_queued'')"
    using assms(6) by blast
  show ?thesis using u s t assms(3-5)
    by (simp add: e bound_to_def safeWatchEvent_def IsZero_def Let_def)
qed

lemma bound_to_advanced [simp]: "bound_to e (advanced n now r) = bound_to e r"
  by (simp add: bound_to_def advanced_def)

lemma history_create:
  assumes h: "event_history cd m" and inv: "mem_inv m" and new: "mr_resolutions m (rs_ID r) = None"
    and e: "bound_to e r" "safeWatchEvent cd e = Some w" "we_Cursor w = 1" "we_State w = rs_State r"
    and "rs_Version r = 1"
  shows "event_history cd (m\<lparr>mr_resolutions := (mr_resolutions m)(rs_ID r \<mapsto> r), mr_idempotency := k,
    mr_events := mr_events m @ [e]\<rparr>)"
proof -
  have none: "filter (\<lambda>e. bound_to e r) (mr_events m) = []"
    using h new by (auto simp: event_history_def bound_to_def filter_empty_conv)
  have other: "\<not> bound_to e r2" if "mr_resolutions m i = Some r2" for i r2
  proof
    assume "bound_to e r2"
    then have "rs_ID r2 = rs_ID r" using e(1) by (simp add: bound_to_def)
    moreover have "rs_ID r2 = i" using inv that by (simp add: mem_inv_def workflow_ok_def resolution_ok_def)
    ultimately show False using that new by simp
  qed
  have "history_of cd (mr_events m @ [e]) r" by (rule history_of_first [OF none e(1-3) assms(8) e(4)])
  moreover have "history_of cd (mr_events m @ [e]) r2" if "mr_resolutions m i = Some r2" for i r2
    using h other [OF that] that by (simp add: event_history_def history_of_skip)
  moreover have "oe_AggregateID e = rs_ID r" using e(1) by (simp add: bound_to_def)
  ultimately show ?thesis using h by (simp add: event_history_def)
qed

lemma history_change:
  assumes h: "event_history cd m" and inv: "mem_inv m" and r: "mr_resolutions m i = Some r"
    and e: "bound_to e r" "safeWatchEvent cd e = Some w" "we_Cursor w = rs_Version r + 1" "we_State w = n"
    and v: "rs_Version (advanced n now r) = rs_Version r + 1" "1 \<le> rs_Version r"
  shows "event_history cd (m\<lparr>mr_resolutions := (mr_resolutions m)(i \<mapsto> advanced n now r), mr_events := mr_events m @ [e]\<rparr>)"
proof -
  have id: "rs_ID r2 = j" if "mr_resolutions m j = Some r2" for j r2
    using inv that by (simp add: mem_inv_def workflow_ok_def resolution_ok_def)
  have other: "\<not> bound_to e r2" if "mr_resolutions m j = Some r2" "j \<noteq> i" for j r2
    using id [OF that(1)] id [OF r] e(1) that(2) by (auto simp: bound_to_def)
  have "history_of cd (mr_events m @ [e]) (advanced n now r)"
    by (rule history_of_next [OF _ e(1) _ e(2)])
      (use h r e v in \<open>simp_all add: event_history_def advanced_def [of n now r] bound_to_def\<close>)
  moreover have "history_of cd (mr_events m @ [e]) r2" if "mr_resolutions m j = Some r2" "j \<noteq> i" for j r2
    using h other [OF that] that by (simp add: event_history_def history_of_skip)
  moreover have "oe_AggregateID e = i" using e(1) id [OF r] by (simp add: bound_to_def)
  ultimately show ?thesis using h by (simp add: event_history_def)
qed

lemma Mem_Create_cases:
  assumes "mem_fits r"
  shows "snd (Mem_Create cd r e m) = m \<or>
    (validateNewResolution cd r e \<and> mr_resolutions m (rs_ID r) = None \<and>
     snd (Mem_Create cd r e m) = m\<lparr>mr_resolutions := (mr_resolutions m)(rs_ID r \<mapsto> r),
      mr_idempotency := (mr_idempotency m)(idempotencyMapKey (rs_TenantID r) (rs_ActorID r) (rs_IdempotencyKey r) \<mapsto> (rs_RequestDigest r, rs_ID r)),
      mr_events := mr_events m @ [e]\<rparr>)"
  by (auto simp: Mem_Create_def Let_def split: option.splits)

lemma Service_Create_mem:
  "snd (Service_Create cd (mem_repo cd) now resID evtID req m) = m \<or>
   (\<exists>i eid e. resolutionEvent cd eid ''resolution.received'' (new_resolution i now req) now = Some e \<and>
      snd (Service_Create cd (mem_repo cd) now resID evtID req m) = snd (Mem_Create cd (new_resolution i now req) e m))"
  by (auto simp: Service_Create_def Let_def mem_repo_def split: option.splits)

lemma Service_Transition_mem:
  "snd (Service_Transition cd (mem_repo cd) now evtID req m) = m \<or>
   (\<exists>r e eid. mr_resolutions m (tq_ResolutionID req) = Some r \<and>
      resolutionEvent cd eid ''resolution.state_changed'' (advanced (tq_NextState req) now r) now = Some e \<and>
      snd (Service_Transition cd (mem_repo cd) now evtID req m) =
        snd (Mem_Transition (tq_TenantID req) (tq_ResolutionID req) (tq_ExpectedVersion req) (rs_State r)
          (tq_NextState req) now e m))"
  by (auto simp: Service_Transition_def Let_def mem_repo_def Mem_Get_def split: option.splits)

lemma svc_create_history:
  assumes "codec_ok cd" and "mem_inv m" and "event_history cd m"
    and "nul_free (cr_TenantID req)" and "nul_free (cr_ActorID req)"
  shows "mem_inv (svc_exec cd (SvcCreate now resID evtID req) m) \<and>
    event_history cd (svc_exec cd (SvcCreate now resID evtID req) m)"
  using Service_Create_mem [of cd now resID evtID req m]
proof (elim disjE exE conjE)
  fix i eid e
  let ?r = "new_resolution i now req"
  assume ev: "resolutionEvent cd eid ''resolution.received'' ?r now = Some e"
    and m': "snd (Service_Create cd (mem_repo cd) now resID evtID req m) = snd (Mem_Create cd ?r e m)"
  have fits: "mem_fits ?r" using assms(4,5) by (simp add: mem_fits_def new_resolution_def)
  then have inv: "mem_inv (snd (Mem_Create cd ?r e m))"
    using memory.exec_inv [OF assms(2), of "MemCreate cd ?r e"] by simp
  moreover have "event_history cd (snd (Mem_Create cd ?r e m))"
    using Mem_Create_cases [OF fits, of cd e m]
  proof (elim disjE conjE)
    assume v: "validateNewResolution cd ?r e" and n: "mr_resolutions m (rs_ID ?r) = None"
      and eq: "snd (Mem_Create cd ?r e m) = m\<lparr>mr_resolutions := (mr_resolutions m)(rs_ID ?r \<mapsto> ?r),
        mr_idempotency := (mr_idempotency m)(idempotencyMapKey (rs_TenantID ?r) (rs_ActorID ?r) (rs_IdempotencyKey ?r) \<mapsto>
          (rs_RequestDigest ?r, rs_ID ?r)), mr_events := mr_events m @ [e]\<rparr>"
    have "now \<noteq> 0" using v by (simp add: validateNewResolution_def new_resolution_def IsZero_def)
    then have d: "bound_to e ?r" "safeWatchEvent cd e = Some \<lparr>we_Cursor = 1, we_Type = ''resolution.received'',
        we_State = ResolutionReceived, we_OccurredAt = now\<rparr>"
      using resolutionEvent_describes [OF ev assms(1)] by (simp_all add: new_resolution_def knownResolutionState_def)
    show ?thesis unfolding eq
      by (rule history_create [OF assms(3,2) n d]) (simp_all add: new_resolution_def)
  qed (simp add: assms(3))
  ultimately show ?thesis using m' by simp
qed (simp add: assms)

lemma svc_transition_history:
  assumes "codec_ok cd" and "mem_inv m" and "event_history cd m"
  shows "mem_inv (svc_exec cd (SvcTransition now evtID req) m) \<and>
    event_history cd (svc_exec cd (SvcTransition now evtID req) m)"
  using Service_Transition_mem [of cd now evtID req m]
proof (elim disjE exE conjE)
  fix r :: resolution and e eid
  let ?n = "tq_NextState req" and ?i = "tq_ResolutionID req"
  let ?call = "Mem_Transition (tq_TenantID req) ?i (tq_ExpectedVersion req) (rs_State r) ?n now e m"
  assume r: "mr_resolutions m ?i = Some r"
    and ev: "resolutionEvent cd eid ''resolution.state_changed'' (advanced ?n now r) now = Some e"
    and m': "snd (Service_Transition cd (mem_repo cd) now evtID req m) = snd ?call"
  have inv: "mem_inv (snd ?call)"
    using memory.exec_inv [OF assms(2), of "MemTransition (tq_TenantID req) ?i (tq_ExpectedVersion req) (rs_State r) ?n now e"]
    by simp
  have "event_history cd (snd ?call)"
  proof (cases "fst ?call")
    case (Inl x)
    then have "snd ?call = m" using Mem_Transition_err by (metis prod.collapse)
    then show ?thesis by (simp add: assms(3))
  next
    case (Inr r')
    then have "?call = (Inr r', snd ?call)" by (metis prod.collapse)
    then have t: "ValidateTransition (rs_State r) ?n = None" "now \<noteq> 0"
        "snd ?call = m\<lparr>mr_resolutions := (mr_resolutions m)(?i \<mapsto> advanced ?n now r), mr_events := mr_events m @ [e]\<rparr>"
      using r by (auto simp: Mem_Transition_ok)
    have ok: "resolution_ok ?i r" using assms(2) r by (simp add: mem_inv_def workflow_ok_def)
    have "\<not> Terminal (rs_State r)" using t(1) Terminal_absorbing by blast
    then have "rs_Version r \<le> 4" "1 \<le> rs_Version r"
      using ok transition_stage [OF t(1)] by (auto simp: resolution_ok_def)
    then have v: "rs_Version (advanced ?n now r) = rs_Version r + 1" "1 \<le> rs_Version r"
      by (simp_all add: advanced_def)
    have s: "rs_State (advanced ?n now r) = ?n" by (simp add: advanced_def)
    have d: "bound_to e (advanced ?n now r)" "safeWatchEvent cd e = Some \<lparr>we_Cursor = rs_Version (advanced ?n now r),
        we_Type = ''resolution.state_changed'', we_State = ?n, we_OccurredAt = now\<rparr>"
      using resolutionEvent_describes [OF ev assms(1)] t(2) transition_stage [OF t(1)] v s by simp_all
    show ?thesis unfolding t(3)
      by (rule history_change [OF assms(3,2) r _ d(2)]) (use d(1) v in simp_all)
  qed
  with inv m' show ?thesis by simp
qed (simp add: assms)

lemma svc_run_history:
  "codec_ok cd \<Longrightarrow> mem_inv m \<Longrightarrow> event_history cd m \<Longrightarrow> list_all svc_legal ops \<Longrightarrow>
     mem_inv (fold (svc_exec cd) ops m) \<and> event_history cd (fold (svc_exec cd) ops m)"
proof (induction ops arbitrary: m)
  case (Cons op ops)
  then have "mem_inv (svc_exec cd op m) \<and> event_history cd (svc_exec cd op m)"
    using svc_create_history svc_transition_history by (cases op) auto
  with Cons show ?case by simp
qed simp

section \<open>Guarantees\<close>

lemma watch_scan_take:
  assumes "map (safeWatchEvent cd) (filter (\<lambda>e. oe_TenantID e = t \<and> oe_AggregateType e = ''resolution'' \<and> oe_AggregateID e = i) es) = map Some ws"
    and "0 < n"
  shows "watch_scan cd t i after n es = Some (take n (filter (\<lambda>w. after < we_Cursor w) ws))"
  using assms
proof (induction es arbitrary: ws n)
  case (Cons e es)
  show ?case
  proof (cases "oe_TenantID e = t \<and> oe_AggregateType e = ''resolution'' \<and> oe_AggregateID e = i")
    case False
    then have "map (safeWatchEvent cd) (filter (\<lambda>e. oe_TenantID e = t \<and> oe_AggregateType e = ''resolution'' \<and> oe_AggregateID e = i) es) = map Some ws"
      using Cons.prems(1) by (simp only: filter.simps if_False)
    then have "watch_scan cd t i after n es = Some (take n (filter (\<lambda>w. after < we_Cursor w) ws))"
      by (rule Cons.IH) (rule Cons.prems(2))
    with False show ?thesis by auto
  next
    case True
    then obtain w ws' where w: "ws = w # ws'" "safeWatchEvent cd e = Some w"
        "map (safeWatchEvent cd) (filter (\<lambda>e. oe_TenantID e = t \<and> oe_AggregateType e = ''resolution'' \<and> oe_AggregateID e = i) es) = map Some ws'"
      using Cons.prems(1) by (cases ws) auto
    have later: "0 < k \<Longrightarrow> watch_scan cd t i after k es = Some (take k (filter (\<lambda>w. after < we_Cursor w) ws'))" for k
      by (rule Cons.IH [OF w(3)])
    show ?thesis using True w(1,2) later [of n] later [of "n - 1"] Cons.prems(2)
      by (cases n) (auto simp: Let_def)
  qed
qed simp

lemma filter_upto: "0 \<le> a \<Longrightarrow> filter (\<lambda>c. a < c) [1..v] = [a + 1..v :: int]"
proof (induction "nat v" arbitrary: v)
  case 0
  then show ?case by simp
next
  case (Suc n)
  then have v: "1 \<le> v" by simp
  then have "[1..v] = [1..v - 1] @ [v]" using upto_rec2 by blast
  moreover have "filter (\<lambda>c. a < c) [1..v - 1] = [a + 1..v - 1]" using Suc by (intro Suc.hyps(1)) auto
  ultimately show ?case using upto_rec2 [of "a + 1" v] by auto
qed

lemma event_history_scan:
  assumes "event_history cd m" and "mem_inv m" and "mr_resolutions m i = Some r"
  shows "\<exists>ws. map (safeWatchEvent cd) (filter (\<lambda>e. oe_TenantID e = rs_TenantID r \<and> oe_AggregateType e = ''resolution'' \<and>
      oe_AggregateID e = i) (mr_events m)) = map Some ws \<and> map we_Cursor ws = [1..rs_Version r]"
proof -
  have "rs_ID r = i" using assms(2,3) by (simp add: mem_inv_def workflow_ok_def resolution_ok_def)
  moreover obtain ws where "map (safeWatchEvent cd) (filter (\<lambda>e. bound_to e r) (mr_events m)) = map Some ws"
      "map we_Cursor ws = [1..rs_Version r]"
    using assms(1,3) unfolding event_history_def history_of_def by blast
  ultimately show ?thesis by (auto simp: bound_to_def)
qed

lemma NewMemoryRepository_ok [simp]: "mem_inv NewMemoryRepository" "event_history cd NewMemoryRepository"
proof -
  have "mem_keys (\<lambda>x. None) k = None" for k by (cases k) simp
  then show "mem_inv NewMemoryRepository"
    by (simp add: mem_inv_def workflow_ok_def mem_abs_def NewMemoryRepository_def)
qed (simp add: event_history_def NewMemoryRepository_def)

text \<open>
  C7.  The watch is complete and gapless: after any sequence of service calls, listing the events
  of a stored resolution after cursor \<open>a\<close> returns, in order and without a gap, the
  versions \<open>a + 1, a + 2, \<dots>\<close> up to the current version, cut off at the requested limit; whatever else
  happened in other resolutions or tenants does not show.
\<close>

theorem watch_is_gapless:
  assumes "codec_ok cd" and "list_all svc_legal ops"
    and "m = fold (svc_exec cd) ops NewMemoryRepository"
    and "mr_resolutions m i = Some r" and "validateWatchRequest (rs_TenantID r) i after limit"
  shows "\<exists>ws. Mem_ListEvents cd (rs_TenantID r) i after limit m = Inr ws \<and>
    map we_Cursor ws = take (nat limit) [after + 1..rs_Version r]"
proof -
  have m: "mem_inv m" "event_history cd m"
    using svc_run_history [OF assms(1) _ _ assms(2), of NewMemoryRepository] assms(3) by simp_all
  obtain ws where ws: "map (safeWatchEvent cd) (filter (\<lambda>e. oe_TenantID e = rs_TenantID r \<and> oe_AggregateType e = ''resolution'' \<and>
      oe_AggregateID e = i) (mr_events m)) = map Some ws" "map we_Cursor ws = [1..rs_Version r]"
    using event_history_scan [OF m(2,1) assms(4)] by blast
  have l: "0 < nat limit" "0 \<le> after" using assms(5) by (auto simp: validateWatchRequest_def)
  have "map we_Cursor (filter (\<lambda>w. after < we_Cursor w) ws) = [after + 1..rs_Version r]"
    using filter_upto [OF l(2), of "rs_Version r"] ws(2) filter_map [of "\<lambda>c. after < c" we_Cursor ws] by (simp add: comp_def)
  then show ?thesis
    using watch_scan_take [OF ws(1) l(1), of after] assms(4,5)
    by (simp add: Mem_ListEvents_def take_map [symmetric])
qed

text \<open>A small concrete codec for the witnesses: one letter for the state, the version in unary.\<close>

fun state_char :: "resolution_state \<Rightarrow> char" where
  "state_char ResolutionReceived = CHR ''r''"
| "state_char ResolutionResolvingTargets = CHR ''t''"
| "state_char ResolutionPlanning = CHR ''p''"
| "state_char ResolutionQueued = CHR ''q''"
| "state_char ResolutionComplete = CHR ''c''"
| "state_char ResolutionPartial = CHR ''h''"
| "state_char ResolutionDenied = CHR ''d''"
| "state_char ResolutionFailed = CHR ''f''"
| "state_char ResolutionCancelled = CHR ''x''"
| "state_char ResolutionExpired = CHR ''e''"
| "state_char (ResolutionStateOther _) = CHR ''?''"

definition char_state :: "char \<Rightarrow> resolution_state option" where
  "char_state c = find (\<lambda>s. state_char s = c) [ResolutionReceived, ResolutionResolvingTargets, ResolutionPlanning,
     ResolutionQueued, ResolutionComplete, ResolutionPartial, ResolutionDenied, ResolutionFailed,
     ResolutionCancelled, ResolutionExpired]"

definition example_codec :: codec where
  "example_codec = \<lparr>sha256_Sum256 = (\<lambda>_. ''H''), json_Valid = (\<lambda>_. True),
     json_Marshal = (\<lambda>p. if ep_SchemaVersion p = ''v1'' \<and> 0 \<le> ep_Version p
       then Some (state_char (ep_State p) # replicate (nat (ep_Version p)) CHR ''1'') else None),
     json_Unmarshal = (\<lambda>b. case b of [] \<Rightarrow> None | c # n \<Rightarrow>
       (case char_state c of None \<Rightarrow> None | Some s \<Rightarrow> Some (''v1'', s, int (length n))))\<rparr>"

lemma example_codec_ok: "codec_ok example_codec"
proof -
  have "knownResolutionState s \<Longrightarrow> char_state (state_char s) = Some s" for s
    by (cases s) (simp_all add: char_state_def knownResolutionState_def)
  then show ?thesis by (auto simp: codec_ok_def example_codec_def split: if_splits)
qed

definition example_request :: create_request where
  "example_request = \<lparr>cr_ActorID = ''alice'', cr_TenantID = ''acme'', cr_IdempotencyKey = ''k1'',
     cr_RequestDigest = ''sha256:48'', cr_RequestDocument = ''{}''\<rparr>"

definition example_calls :: "svc_op list" where
  "example_calls = [SvcCreate 1000 (Some ''res-1'') (Some ''evt-1'') example_request,
     SvcTransition 2000 (Some ''evt-2'') \<lparr>tq_TenantID = ''acme'', tq_ResolutionID = ''res-1'',
       tq_ExpectedVersion = 1, tq_NextState = ResolutionResolvingTargets\<rparr>]"

lemmas example_service_simps =
  Service_Create_def validateCreateRequest_def example_request_def maximumRequestDocumentSize_def
  example_codec_def hex_EncodeToString_def hex_digit_def new_resolution_def resolutionEvent_def Let_def
  mem_repo_def Mem_Create_def NewMemoryRepository_def validateNewResolution_def validateEventBinding_def
  Event_Validate_def IsZero_def Service_Transition_def Mem_Get_def Mem_Transition_def ValidateTransition_def
  advanced_def

theorem watch_is_gapless_witness:
  "\<exists>ws. Mem_ListEvents example_codec ''acme'' ''res-1'' 0 10
       (fold (svc_exec example_codec) example_calls NewMemoryRepository) = Inr ws \<and> map we_Cursor ws = [1, 2]"
proof -
  let ?m = "fold (svc_exec example_codec) example_calls NewMemoryRepository"
  have v: "map_option (\<lambda>r. (rs_TenantID r, rs_Version r)) (mr_resolutions ?m ''res-1'') = Some (''acme'', 2)"
    by (simp add: example_calls_def example_service_simps)
  then obtain r where r: "mr_resolutions ?m ''res-1'' = Some r" "rs_TenantID r = ''acme''" "rs_Version r = 2"
    by auto
  have l: "list_all svc_legal example_calls"
    by (simp add: example_calls_def example_request_def nul_free_def NUL_def)
  have "validateWatchRequest (rs_TenantID r) ''res-1'' 0 10" by (simp add: r validateWatchRequest_def)
  from watch_is_gapless [OF example_codec_ok l refl r(1) this] r
  show ?thesis using upto_rec1 [of 1 2] upto_rec1 [of 2 2] by auto
qed

lemma Service_Transition_mem_cases:
  assumes "Service_Transition cd (mem_repo cd) now evtID req m = (a, m')"
  shows "(\<exists>x. a = Inl x \<and> m' = m) \<or> (\<exists>r e. mr_resolutions m (tq_ResolutionID req) = Some r \<and>
    Mem_Transition (tq_TenantID req) (tq_ResolutionID req) (tq_ExpectedVersion req) (rs_State r)
      (tq_NextState req) now e m = (a, m'))"
proof (cases "mr_resolutions m (tq_ResolutionID req)")
  case None
  then show ?thesis using assms
    by (auto simp: Service_Transition_def mem_repo_def Mem_Get_def split: if_splits)
next
  case (Some r)
  show ?thesis
  proof (cases "rs_TenantID r = tq_TenantID req \<and> rs_Version r = tq_ExpectedVersion req \<and>
      ValidateTransition (rs_State r) (tq_NextState req) = None")
    case True
    then show ?thesis using assms Some
      by (auto simp: Service_Transition_def Let_def mem_repo_def Mem_Get_def split: if_splits option.splits)
  next
    case False
    then show ?thesis using assms Some
      by (auto simp: Service_Transition_def mem_repo_def Mem_Get_def split: if_splits option.splits)
  qed
qed

text \<open>
  A successful transition through the service is an atomic compare-and-set: the stored
  resolution belonged to the tenant and was at the expected version, the change is an edge of the
  workflow graph, the version is incremented, and the new state and exactly one event
  bound to it are committed together; an unsuccessful one changes nothing.
\<close>

lemma service_transition_atomic:
  "case Service_Transition cd (mem_repo cd) now evtID req m of
     (Inl _, m') \<Rightarrow> m' = m
   | (Inr r', m') \<Rightarrow> \<exists>r e. mr_resolutions m (tq_ResolutionID req) = Some r \<and> rs_TenantID r = tq_TenantID req \<and>
       rs_Version r = tq_ExpectedVersion req \<and>
       (\<exists>ns. allowedTransitions (rs_State r) = Some ns \<and> tq_NextState req \<in> set ns) \<and>
       rs_UpdatedAt r \<le> now \<and> r' = advanced (tq_NextState req) now r \<and>
       validateEventBinding e (tq_TenantID req) (tq_ResolutionID req) \<and>
       m' = m\<lparr>mr_resolutions := (mr_resolutions m)(tq_ResolutionID req \<mapsto> r'), mr_events := mr_events m @ [e]\<rparr>"
proof (cases "Service_Transition cd (mem_repo cd) now evtID req m")
  case (Pair a m')
  consider x where "a = Inl x" "m' = m" | r e where "mr_resolutions m (tq_ResolutionID req) = Some r"
      "Mem_Transition (tq_TenantID req) (tq_ResolutionID req) (tq_ExpectedVersion req) (rs_State r)
        (tq_NextState req) now e m = (a, m')"
    using Service_Transition_mem_cases [OF Pair] by blast
  then show ?thesis
  proof cases
    case 1
    then show ?thesis using Pair by simp
  next
    case (2 r e)
    show ?thesis
    proof (cases a)
      case (Inl x)
      then show ?thesis using Pair 2 Mem_Transition_err by simp
    next
      case (Inr r')
      have "\<exists>e. validateEventBinding e (tq_TenantID req) (tq_ResolutionID req) \<and> rs_TenantID r = tq_TenantID req \<and>
          rs_Version r = tq_ExpectedVersion req \<and> ValidateTransition (rs_State r) (tq_NextState req) = None \<and>
          rs_UpdatedAt r \<le> now \<and> r' = advanced (tq_NextState req) now r \<and>
          m' = m\<lparr>mr_resolutions := (mr_resolutions m)(tq_ResolutionID req \<mapsto> r'), mr_events := mr_events m @ [e]\<rparr>"
        using 2 unfolding Inr Mem_Transition_ok by auto
      then show ?thesis using Pair Inr 2(1) unfolding ValidateTransition_None by auto
    qed
  qed
qed

end
