(* ===== verification/Collector_Reconciliation.thy ===== *)
theory Collector_Reconciliation
  imports Collector_Postgres "HOL-Library.Product_Lexorder" "HOL-Library.Word"
begin

text \<open>
  Closing the window between storing evidence and committing the task:
  \<^verbatim>\<open>internal/collector/reconciliation.go\<close> (the two repository operations) and
  \<^verbatim>\<open>internal/collector/reconciliation_runner.go\<close> (one pass of the runner and its metrics).

  Of the table \<^verbatim>\<open>broker_evidence_envelopes\<close> the model has the columns these queries read; the
  table is insert-only, so it is a list of rows with distinct evidence identifiers.  The
  collation of the database, which orders equal instants by identifier, is a parameter.
  With this theory the set of operations that write tasks is complete, and the guarantees of
  \<open>fenced_tasks\<close> and \<open>exclusive_leases\<close> are established for the PostgreSQL repository.
\<close>

section \<open>Evidence rows\<close>

record evidence_row =
  er_evidence_id :: string
  er_tenant_id :: string
  er_task_id :: string
  er_accepted_attempt_id :: string
  er_fencing_token :: int
  er_execution_grant_id :: string
  er_recorded_at :: gotime

type_synonym evidence_table = "evidence_row list"

definition find_evidence :: "string \<Rightarrow> evidence_table \<Rightarrow> evidence_row option" where
  "find_evidence evidenceID ev = find (\<lambda>e. er_evidence_id e = evidenceID) ev"

text \<open>The constraints of the evidence table that matter here.\<close>

definition evidence_ok :: "evidence_table \<Rightarrow> bool" where
  "evidence_ok ev \<longleftrightarrow> distinct (map er_evidence_id ev) \<and>
     list_all (\<lambda>e. er_evidence_id e \<noteq> '''' \<and> er_accepted_attempt_id e \<noteq> '''' \<and> er_task_id e \<noteq> '''' \<and>
       er_execution_grant_id e \<noteq> '''' \<and> 0 < er_fencing_token e) ev"

section \<open>Repository operations\<close>

text \<open>The condition shared by the candidate query and the guarded update.\<close>

definition reconcilable :: "gotime \<Rightarrow> evidence_row \<Rightarrow> task_row \<Rightarrow> bool" where
  "reconcilable at e r \<longleftrightarrow>
     tr_id r = er_task_id e \<and> tr_tenant_id r = er_tenant_id e \<and>
     tr_fencing_token r = er_fencing_token e \<and> tr_execution_grant_id r = Some (er_execution_grant_id e) \<and>
     tr_state r \<in> {TaskExecuting, TaskCommitting} \<and>
     (case tr_lease_expiry r of None \<Rightarrow> False | Some x \<Rightarrow> x \<le> at) \<and>
     tr_accepted_attempt_id r = None \<and> tr_accepted_evidence_id r = None"

definition lease_of :: "task_table \<Rightarrow> evidence_row \<Rightarrow> gotime" where
  "lease_of tb e = (case tb (er_task_id e) of None \<Rightarrow> 0
     | Some r \<Rightarrow> (case tr_lease_expiry r of None \<Rightarrow> 0 | Some x \<Rightarrow> x))"

definition PG_ListExpiredEvidenceCandidates ::
  "(string \<Rightarrow> 'k :: linorder) \<Rightarrow> db_call \<Rightarrow> gotime \<Rightarrow> int \<Rightarrow> evidence_table \<Rightarrow> task_table
   \<Rightarrow> task_error + string list" where
  "PG_ListExpiredEvidenceCandidates coll c expiredAt limit ev tb =
     (if IsZero expiredAt \<or> limit \<le> 0 \<or> 10000 < limit then Inl ErrTaskArgument
      else if c \<noteq> CallOK then Inl ErrTaskDatabase
      else Inr (map er_evidence_id (take (nat limit)
        (sort_key (\<lambda>e. (lease_of tb e, er_recorded_at e, coll (er_evidence_id e)))
          (filter (\<lambda>e. case tb (er_task_id e) of None \<Rightarrow> False
                       | Some r \<Rightarrow> reconcilable (normaliseTime expiredAt) e r) ev)))))"

definition accepted_row :: "evidence_row \<Rightarrow> gotime \<Rightarrow> task_row \<Rightarrow> task_row" where
  "accepted_row e at r = r\<lparr>tr_accepted_attempt_id := Some (er_accepted_attempt_id e),
     tr_accepted_evidence_id := Some (er_evidence_id e), tr_state := TaskSucceeded, tr_updated_at := at\<rparr>"

definition reconcile_stmt ::
  "string \<Rightarrow> gotime \<Rightarrow> evidence_table \<Rightarrow> task_table \<Rightarrow> task_row option \<times> task_table" where
  "reconcile_stmt evidenceID at ev tb =
     (case find_evidence evidenceID ev of
        None \<Rightarrow> (None, tb)
      | Some e \<Rightarrow> update_stmt (er_task_id e) (reconcilable at e) (accepted_row e at) tb)"

definition classifyEvidenceReconciliation ::
  "db_call \<Rightarrow> db_call \<Rightarrow> string \<Rightarrow> gotime \<Rightarrow> evidence_table \<Rightarrow> task_table \<Rightarrow> task_error + task" where
  "classifyEvidenceReconciliation c1 c2 evidenceID reconciledAt ev seen =
     (if c1 \<noteq> CallOK then Inl ErrTaskDatabase
      else case find_evidence evidenceID ev of
        None \<Rightarrow> Inl ErrEvidenceNotFound
      | Some e \<Rightarrow>
          (case PG_Get c2 (er_task_id e) seen of
             Inl x \<Rightarrow> Inl x
           | Inr task \<Rightarrow>
               if tk_TenantID task \<noteq> er_tenant_id e \<or> tk_FencingToken task \<noteq> er_fencing_token e \<or>
                  tk_ExecutionGrantID task \<noteq> er_execution_grant_id e then Inl ErrStaleFence
               else if tk_AcceptedEvidenceID task = evidenceID \<and>
                  tk_AcceptedAttemptID task = er_accepted_attempt_id e \<and> tk_State task = TaskSucceeded
               then Inr task
               else if tk_AcceptedEvidenceID task \<noteq> '''' \<or> tk_AcceptedAttemptID task \<noteq> ''''
               then Inl ErrDuplicateCommit
               else if reconciledAt < tk_LeaseExpiry task then Inl ErrLeaseHeld
               else Inl ErrInvalidState))"

text \<open>\<open>seen\<close> is the task table the second query of the call finds.\<close>

definition PG_ReconcileExpiredEvidence ::
  "db_faults \<Rightarrow> string \<Rightarrow> gotime \<Rightarrow> evidence_table \<Rightarrow> task_table \<Rightarrow> task_table
   \<Rightarrow> (task_error + task) \<times> task_table" where
  "PG_ReconcileExpiredEvidence f evidenceID reconciledAt ev seen tb =
     (if evidenceID = '''' \<or> IsZero reconciledAt then (Inl ErrTaskArgument, tb)
      else case sql_write (f 0) tb (Some (reconcile_stmt evidenceID (normaliseTime reconciledAt) ev tb)) of
        (None, tb') \<Rightarrow> (Inl ErrTaskDatabase, tb')
      | (Some None, tb') \<Rightarrow>
          (classifyEvidenceReconciliation (f 1) (f 2) evidenceID reconciledAt ev seen, tb')
      | (Some (Some r), tb') \<Rightarrow> (PG_Get (f 1) (tr_id r) seen, tb'))"

section \<open>The runner\<close>

record reconciliation_metrics =
  rm_candidates :: "64 word"
  rm_reconciled :: "64 word"
  rm_skipped :: "64 word"
  rm_failures :: "64 word"

text \<open>The two methods of \<^verbatim>\<open>EvidenceReconciliationRepository\<close> over a world of type \<open>'w\<close>.\<close>

record 'w reconciliation_repository =
  rr_List :: "gotime \<Rightarrow> int \<Rightarrow> 'w \<Rightarrow> (task_error + string list) \<times> 'w"
  rr_Reconcile :: "string \<Rightarrow> gotime \<Rightarrow> 'w \<Rightarrow> (task_error + task) \<times> 'w"

record 'w reconciliation_runner =
  rn_Repository :: "'w reconciliation_repository option"
  rn_BatchSize :: int
  rn_PollInterval :: duration
  rn_FailureDelay :: duration
  rn_Now :: "gotime option"

definition ReconciliationRunner_validate :: "'w reconciliation_runner \<Rightarrow> bool" where
  "ReconciliationRunner_validate r \<longleftrightarrow>
     rn_Repository r \<noteq> None \<and> 0 < rn_BatchSize r \<and> rn_BatchSize r \<le> 10000 \<and>
     0 < rn_PollInterval r \<and> 0 < rn_FailureDelay r \<and> rn_Now r \<noteq> None"

definition reconcile_skippable :: "task_error \<Rightarrow> bool" where
  "reconcile_skippable e \<longleftrightarrow> e \<in> {ErrStaleFence, ErrLeaseHeld, ErrDuplicateCommit, ErrInvalidState}"

definition recordFailure :: "reconciliation_metrics \<Rightarrow> reconciliation_metrics" where
  "recordFailure m = m\<lparr>rm_failures := rm_failures m + 1\<rparr>"

text \<open>Joined errors are the list of failures in order, empty for a nil error.\<close>

fun reconcile_candidates ::
  "'w reconciliation_repository \<Rightarrow> gotime \<Rightarrow> string list \<Rightarrow> (string \<times> task_error) list \<times> reconciliation_metrics \<times> 'w
   \<Rightarrow> (string \<times> task_error) list \<times> reconciliation_metrics \<times> 'w" where
  "reconcile_candidates repo at [] s = s"
| "reconcile_candidates repo at (evidenceID # rest) (errs, m, w) =
     (case rr_Reconcile repo evidenceID at w of
        (Inr _, w') \<Rightarrow>
          reconcile_candidates repo at rest (errs, m\<lparr>rm_reconciled := rm_reconciled m + 1\<rparr>, w')
      | (Inl e, w') \<Rightarrow>
          if reconcile_skippable e
          then reconcile_candidates repo at rest (errs, m\<lparr>rm_skipped := rm_skipped m + 1\<rparr>, w')
          else reconcile_candidates repo at rest (errs @ [(evidenceID, e)], recordFailure m, w'))"

definition ReconciliationRunner_RunOnce ::
  "'w reconciliation_runner \<Rightarrow> reconciliation_metrics \<Rightarrow> 'w
   \<Rightarrow> (int \<times> (string \<times> task_error) list) \<times> reconciliation_metrics \<times> 'w" where
  "ReconciliationRunner_RunOnce r m w =
     (case (ReconciliationRunner_validate r, rn_Repository r, rn_Now r) of
        (True, Some repo, Some reconciledAt) \<Rightarrow>
          (case rr_List repo reconciledAt (rn_BatchSize r) w of
             (Inl e, w') \<Rightarrow> ((0, [('''', e)]), recordFailure m, w')
           | (Inr candidates, w') \<Rightarrow>
               let m' = m\<lparr>rm_candidates := rm_candidates m + of_nat (length candidates)\<rparr>;
                   (errs, m'', w'') = reconcile_candidates repo reconciledAt candidates ([], m', w')
               in ((int (length candidates), errs), m'', w''))
      | _ \<Rightarrow> ((0, [('''', ErrTaskArgument)]), m, w))"

section \<open>The task repository as a whole\<close>

text \<open>Every operation that writes tasks, with the driver's behaviour and the clocks it runs under.\<close>

datatype pg_op =
    PgStore db_faults gotime task_table store_op
  | PgReconcile db_faults string gotime evidence_table task_table

fun pg_store_exec :: "db_faults \<Rightarrow> gotime \<Rightarrow> task_table \<Rightarrow> store_op \<Rightarrow> task_table \<Rightarrow> task_table" where
  "pg_store_exec f dbnow seen (OpAdd t) tb = snd (PG_Add f dbnow t tb)"
| "pg_store_exec f dbnow seen (OpAcquire i owner now d) tb = snd (PG_Acquire f i owner now d seen tb)"
| "pg_store_exec f dbnow seen (OpRenew i owner k now d) tb = snd (PG_Renew f i owner k now d seen tb)"
| "pg_store_exec f dbnow seen (OpStartExecution i owner k now) tb = snd (PG_StartExecution f i owner k now seen tb)"
| "pg_store_exec f dbnow seen (OpRecordExecutionAuthority i owner k d g now) tb =
     snd (PG_RecordExecutionAuthority f i owner k d g now seen tb)"
| "pg_store_exec f dbnow seen (OpBeginCommit i owner k now) tb = snd (PG_BeginCommit f i owner k now seen tb)"
| "pg_store_exec f dbnow seen (OpCommit i owner k a e now) tb = snd (PG_Commit f i owner k a e now seen tb)"
| "pg_store_exec f dbnow seen (OpRetry i owner k now c) tb = snd (PG_Retry f i owner k now c seen tb)"

fun pg_exec :: "pg_op \<Rightarrow> task_table \<Rightarrow> task_table" where
  "pg_exec (PgStore f dbnow seen op) tb = pg_store_exec f dbnow seen op tb"
| "pg_exec (PgReconcile f evidenceID at ev seen) tb =
     snd (PG_ReconcileExpiredEvidence f evidenceID at ev seen tb)"

fun pg_legal :: "pg_op \<Rightarrow> bool" where
  "pg_legal (PgStore f dbnow seen op) = True"
| "pg_legal (PgReconcile f evidenceID at ev seen) = evidence_ok ev"

fun pg_foreign :: "string \<Rightarrow> int \<Rightarrow> gotime \<Rightarrow> pg_op \<Rightarrow> bool" where
  "pg_foreign i k e (PgStore f dbnow seen op) = store_foreign i k e op"
| "pg_foreign i k e (PgReconcile f evidenceID at ev seen) = (at < e)"

lemma find_evidence_Some: "find_evidence x ev = Some e \<Longrightarrow> e \<in> set ev \<and> er_evidence_id e = x"
  by (auto simp: find_evidence_def find_Some_iff)

lemma find_evidence_distinct:
  "distinct (map er_evidence_id ev) \<Longrightarrow> e \<in> set ev \<Longrightarrow> find_evidence (er_evidence_id e) ev = Some e"
  by (induction ev) (auto simp: find_evidence_def)

lemma snd_reconcile:
  "snd (PG_ReconcileExpiredEvidence f x at ev seen tb) =
     (if x = '''' \<or> IsZero at then tb
      else snd (sql_write (f 0) tb (Some (reconcile_stmt x (normaliseTime at) ev tb))))"
  unfolding PG_ReconcileExpiredEvidence_def by (auto split: prod.splits option.splits)

lemma reconcilable_step:
  assumes "reconcilable at e r" and "evidence_ok ev" and "e \<in> set ev"
  shows "row_step r (accepted_row e at r) \<and> (case tr_lease_expiry r of None \<Rightarrow> 0 | Some x \<Rightarrow> x) \<le> at"
  using assms row_step.accept [of r "er_accepted_attempt_id e" "er_evidence_id e" at]
  by (auto simp: reconcilable_def evidence_ok_def list_all_iff accepted_row_def split: option.splits)

lemma PG_Reconcile_step:
  assumes "evidence_ok ev"
  shows "table_step (\<lambda>j k e. pg_foreign j k e (PgReconcile f x at ev seen)) tb
    (snd (PG_ReconcileExpiredEvidence f x at ev seen tb))"
proof (cases "x = '''' \<or> IsZero at \<or> find_evidence x ev = None")
  case True
  then show ?thesis by (cases "f 0") (auto simp: snd_reconcile reconcile_stmt_def sql_write_def)
next
  case False
  then obtain e where e: "find_evidence x ev = Some e" by blast
  have le: "normaliseTime at \<le> at" by (simp add: normaliseTime_def)
  have step: "row_step r (accepted_row e (normaliseTime at) r) \<and>
      \<not> at < (case tr_lease_expiry r of None \<Rightarrow> 0 | Some x \<Rightarrow> x)"
    if "reconcilable (normaliseTime at) e r" for r
    using reconcilable_step [OF that assms] find_evidence_Some [OF e] le by linarith
  have "table_step (\<lambda>j k e. pg_foreign j k e (PgReconcile f x at ev seen)) tb
      (snd (sql_write (f 0) tb (Some (update_stmt (er_task_id e) (reconcilable (normaliseTime at) e)
        (accepted_row e (normaliseTime at)) tb))))"
    by (rule owned_write_step) (use step in simp)
  then show ?thesis using False e by (simp add: snd_reconcile reconcile_stmt_def)
qed

lemma pg_store_step:
  "table_step (\<lambda>j k e. store_foreign j k e op) tb (pg_store_exec f dbnow seen op tb)"
proof (cases op)
  case (OpAdd t)
  then show ?thesis by (simp add: PG_Add_step)
next
  case (OpAcquire i owner now d)
  then show ?thesis using PG_Acquire_step by simp
next
  case (OpRenew i owner k now d)
  then show ?thesis using PG_Renew_step by simp
next
  case (OpStartExecution i owner k now)
  then show ?thesis by (simp add: PG_StartExecution_def PG_transitionOwned_step)
next
  case (OpRecordExecutionAuthority i owner k d g now)
  then show ?thesis using PG_RecordExecutionAuthority_step by simp
next
  case (OpBeginCommit i owner k now)
  then show ?thesis by (simp add: PG_BeginCommit_def PG_transitionOwned_step)
next
  case (OpCommit i owner k a e now)
  then show ?thesis using PG_Commit_step by simp
next
  case (OpRetry i owner k now c)
  then show ?thesis using PG_Retry_step by simp
qed

lemma pg_exec_step: "pg_legal op \<Longrightarrow> table_step (\<lambda>j k e. pg_foreign j k e op) tb (pg_exec op tb)"
proof (cases op)
  case (PgStore f dbnow seen sop)
  then show ?thesis using pg_store_step [of sop tb f dbnow seen] by simp
next
  case (PgReconcile f x at ev seen)
  moreover assume "pg_legal op"
  ultimately show ?thesis using PG_Reconcile_step [of ev f x at seen tb] by simp
qed

interpretation pg: fenced_tasks task_view pg_exec pg_legal table_ok
proof unfold_locales
  fix tb i t assume "table_ok tb" "task_view tb i = Some t"
  then show "task_ok i t" by (auto simp: task_view_def table_ok_def row_ok_task_ok)
next
  fix tb op assume "table_ok tb" "pg_legal op"
  then show "table_ok (pg_exec op tb)" using pg_exec_step table_step_ok by blast
next
  fix tb op i assume "table_ok tb" "pg_legal op"
  then show "task_evolves i (task_view tb i) (task_view (pg_exec op tb) i)"
    using pg_exec_step table_step_evolves by blast
qed

interpretation pg_lease: exclusive_leases task_view pg_exec pg_legal table_ok pg_foreign
proof unfold_locales
  fix tb op i t
  assume "pg_legal op" "task_view tb i = Some t" "active t"
    "pg_foreign i (tk_FencingToken t) (tk_LeaseExpiry t) op"
  then show "task_view (pg_exec op tb) i = Some t"
    using table_step_foreign [OF pg_exec_step] by blast
qed

section \<open>Guarantees of the durable repository\<close>

lemma empty_table_ok [simp]: "table_ok Map.empty"
  by (simp add: table_ok_def)

text \<open>
  C4.  Durable exactly-once acceptance: whatever mixture of lease calls, commits,
  retries and evidence reconciliations runs on the table, under whatever driver errors and
  lost replies, a task that has an accepted result keeps exactly that result (and every other
  field) forever.
\<close>

theorem pg_accepted_result_final:
  assumes "list_all pg_legal (ops @ later)"
    and "task_view (fold pg_exec ops Map.empty) i = Some t" and "tk_AcceptedAttemptID t \<noteq> ''''"
  shows "task_view (fold pg_exec (ops @ later) Map.empty) i = Some t"
proof -
  let ?tb = "fold pg_exec ops Map.empty"
  have inv: "table_ok ?tb" using assms(1) by (simp add: pg.run_inv)
  then have "tk_State t = TaskSucceeded" using assms(2,3) pg.view_ok task_ok_accepted by blast
  with inv show ?thesis using assms(1,2) pg.run_keeps_result [of ?tb later i t] by simp
qed

definition example_evidence :: evidence_table where
  "example_evidence = [\<lparr>er_evidence_id = ''ev'', er_tenant_id = ''acme'', er_task_id = ''t1'',
     er_accepted_attempt_id = ''att'', er_fencing_token = 1, er_execution_grant_id = ''g'', er_recorded_at = 5\<rparr>]"

definition example_crash :: "pg_op list" where
  "example_crash = map (PgStore (\<lambda>_. CallOK) 0 Map.empty)
     [OpAdd example_task, OpAcquire ''t1'' ''c1'' 10000 50000, OpStartExecution ''t1'' ''c1'' 1 20000,
      OpRecordExecutionAuthority ''t1'' ''c1'' 1 ''d'' ''g'' 20000]"

definition example_recovery :: "pg_op list" where
  "example_recovery = example_crash @ [PgReconcile (\<lambda>_. CallOK) ''ev'' 70000 example_evidence Map.empty]"

lemma example_evidence_ok: "evidence_ok example_evidence"
  by (simp add: evidence_ok_def example_evidence_def)

lemma example_recovery_result:
  "map_option (\<lambda>t. (tk_AcceptedAttemptID t, tk_AcceptedEvidenceID t))
     (task_view (fold pg_exec example_recovery Map.empty) ''t1'') = Some (''att'', ''ev'')"
  by code_simp

theorem pg_accepted_result_final_witness:
  "map_option tk_AcceptedEvidenceID (task_view (fold pg_exec (example_recovery @
     [PgStore (\<lambda>_. CallReplyLost) 0 Map.empty (OpAcquire ''t1'' ''c2'' 90000 50000)]) Map.empty) ''t1'') = Some ''ev''"
proof -
  obtain t where t: "task_view (fold pg_exec example_recovery Map.empty) ''t1'' = Some t"
      "tk_AcceptedAttemptID t = ''att''" "tk_AcceptedEvidenceID t = ''ev''"
    using example_recovery_result by auto
  have l: "list_all pg_legal (example_recovery @
      [PgStore (\<lambda>_. CallReplyLost) 0 Map.empty (OpAcquire ''t1'' ''c2'' 90000 50000)])"
    using example_evidence_ok by (simp add: example_recovery_def example_crash_def)
  show ?thesis using pg_accepted_result_final [OF l t(1)] t(2,3) by simp
qed

text \<open>
  C5.  No sequence of operations ever writes a row that breaks the schema's
  constraints on states, leases, counters, authority and results: every table reached
  from the empty one satisfies them.
\<close>

theorem pg_schema_constraints_hold:
  assumes "list_all pg_legal ops" and "fold pg_exec ops Map.empty i = Some r"
  shows "tr_id r = i \<and> row_identity_ok r \<and> row_counters_ok r \<and> row_authority_ok r \<and>
    row_result_ok r \<and> row_lease_ok r"
proof -
  have "table_ok (fold pg_exec ops Map.empty)" using assms(1) by (simp add: pg.run_inv)
  then show ?thesis using assms(2) by (auto simp: table_ok_def row_ok_def)
qed

theorem pg_schema_constraints_hold_witness:
  "\<exists>r. fold pg_exec example_recovery Map.empty ''t1'' = Some r \<and> row_result_ok r \<and> tr_state r = TaskSucceeded"
proof -
  obtain r where r: "fold pg_exec example_recovery Map.empty ''t1'' = Some r"
      "COALESCE_empty (tr_accepted_attempt_id r) = ''att''"
    using example_recovery_result by (auto simp: task_view_def row_simps)
  have l: "list_all pg_legal example_recovery"
    using example_evidence_ok by (simp add: example_recovery_def example_crash_def)
  have "row_result_ok r" using pg_schema_constraints_hold [OF l r(1)] by simp
  then show ?thesis using r by (auto simp: row_result_ok_def)
qed

section \<open>Reconciliation\<close>

text \<open>
  C6.  What reconciliation may accept: if a reconciliation call changes the table at all, it
  changes exactly one task; that task was executing or committing under the tenant, fencing token
  and execution grant of the stored evidence, its lease had expired, it had no result; and it
  becomes succeeded with the attempt and the identifier of that evidence.
\<close>

theorem reconcile_accepts_only_bound_evidence:
  assumes "snd (PG_ReconcileExpiredEvidence f x at ev seen tb) \<noteq> tb"
  shows "\<exists>e r u. find_evidence x ev = Some e \<and> tb (er_task_id e) = Some r \<and>
    tr_tenant_id r = er_tenant_id e \<and> tr_fencing_token r = er_fencing_token e \<and>
    tr_execution_grant_id r = Some (er_execution_grant_id e) \<and>
    tr_state r \<in> {TaskExecuting, TaskCommitting} \<and> (\<exists>l. tr_lease_expiry r = Some l \<and> l \<le> at) \<and>
    tr_accepted_attempt_id r = None \<and>
    snd (PG_ReconcileExpiredEvidence f x at ev seen tb) =
      tb(er_task_id e \<mapsto> r\<lparr>tr_accepted_attempt_id := Some (er_accepted_attempt_id e),
        tr_accepted_evidence_id := Some x, tr_state := TaskSucceeded, tr_updated_at := u\<rparr>)"
proof -
  have le: "normaliseTime at \<le> at" by (simp add: normaliseTime_def)
  obtain e where e: "find_evidence x ev = Some e" and ch: "snd (sql_write (f 0) tb (Some (update_stmt
      (er_task_id e) (reconcilable (normaliseTime at) e) (accepted_row e (normaliseTime at)) tb))) \<noteq> tb"
      and eq: "snd (PG_ReconcileExpiredEvidence f x at ev seen tb) = snd (sql_write (f 0) tb (Some (update_stmt
      (er_task_id e) (reconcilable (normaliseTime at) e) (accepted_row e (normaliseTime at)) tb)))"
    using assms by (cases "f 0") (auto simp: snd_reconcile reconcile_stmt_def sql_write_def split: if_splits option.splits)
  from ch obtain r where r: "tb (er_task_id e) = Some r" "reconcilable (normaliseTime at) e r"
      and tb': "snd (PG_ReconcileExpiredEvidence f x at ev seen tb) =
        tb(er_task_id e \<mapsto> accepted_row e (normaliseTime at) r)"
    unfolding eq by (cases "f 0") (auto simp: sql_write_def update_stmt_def split: option.splits if_splits)
  have x: "er_evidence_id e = x" using find_evidence_Some [OF e] by simp
  have "\<exists>l. tr_lease_expiry r = Some l \<and> l \<le> at"
    using r(2) le by (auto simp: reconcilable_def split: option.splits)
  then show ?thesis using e r tb' x
    by (intro exI [of _ e] exI [of _ r] exI [of _ "normaliseTime at"]) (auto simp: reconcilable_def accepted_row_def)
qed

theorem reconcile_accepts_only_bound_evidence_witness:
  "\<exists>r. fold pg_exec example_crash Map.empty ''t1'' = Some r \<and> tr_fencing_token r = 1 \<and>
     tr_state r \<in> {TaskExecuting, TaskCommitting}"
proof -
  let ?tb = "fold pg_exec example_crash Map.empty"
  have "map_option tr_accepted_attempt_id (?tb ''t1'') = Some None" by code_simp
  moreover have "map_option tr_accepted_attempt_id
      (snd (PG_ReconcileExpiredEvidence (\<lambda>_. CallOK) ''ev'' 70000 example_evidence Map.empty ?tb) ''t1'') =
      Some (Some ''att'')" by code_simp
  ultimately have "snd (PG_ReconcileExpiredEvidence (\<lambda>_. CallOK) ''ev'' 70000 example_evidence Map.empty ?tb) \<noteq> ?tb"
    by auto
  from reconcile_accepts_only_bound_evidence [OF this]
  show ?thesis by (auto simp: find_evidence_def example_evidence_def)
qed

text \<open>
  Listed candidates are recoverable: every identifier the candidate query returns is,
  on the same table and at the same instant, accepted by the reconciliation call, which
  answers with the succeeded task carrying that evidence.
\<close>

lemma listed_candidate_is_reconciled:
  assumes "evidence_ok ev" and "table_ok tb"
    and "PG_ListExpiredEvidenceCandidates coll CallOK at limit ev tb = Inr ids" and "x \<in> set ids"
  shows "\<exists>t. fst (PG_ReconcileExpiredEvidence (\<lambda>_. CallOK) x at ev
        (snd (PG_ReconcileExpiredEvidence (\<lambda>_. CallOK) x at ev seen tb)) tb) = Inr t \<and>
      tk_State t = TaskSucceeded \<and> tk_AcceptedEvidenceID t = x"
proof -
  obtain e r where e: "e \<in> set ev" "er_evidence_id e = x" "tb (er_task_id e) = Some r"
      "reconcilable (normaliseTime at) e r" and at: "\<not> IsZero at"
    using assms(3,4) by (auto simp: PG_ListExpiredEvidenceCandidates_def split: if_splits option.splits
        dest!: in_set_takeD)
  have f: "find_evidence x ev = Some e"
    using find_evidence_distinct e assms(1) by (auto simp: evidence_ok_def)
  have x: "x \<noteq> ''''" "er_task_id e \<noteq> ''''" using assms(1) e by (auto simp: evidence_ok_def list_all_iff)
  have id: "tr_id r = er_task_id e" using assms(2) e(3) by (auto simp: table_ok_def row_ok_def)
  have stmt: "reconcile_stmt x (normaliseTime at) ev tb =
      (Some (accepted_row e (normaliseTime at) r), tb(er_task_id e \<mapsto> accepted_row e (normaliseTime at) r))"
    using e f by (simp add: reconcile_stmt_def update_stmt_def)
  then show ?thesis using x at id e(2)
    by (simp add: PG_ReconcileExpiredEvidence_def sql_write_def PG_Get_def accepted_row_def row_simps)
qed

text \<open>
  Reacquisition fences off earlier evidence: once a new lease has been granted on a task,
  evidence recorded under any earlier token of it can never be accepted, at whatever time and after
  whatever further operations; the call reports a stale fence (or a database error) and writes
  nothing.
\<close>

lemma stale_evidence_never_accepted:
  assumes "table_ok tb" and "evidence_ok ev" and "list_all pg_legal later"
    and "PG_Acquire f i owner now d seen tb = (Inr l, tb1)"
    and "find_evidence x ev = Some e" and "er_task_id e = i" and "er_fencing_token e < ls_FencingToken l"
    and "ls_FencingToken l + int (length later) < int64_max" and "\<not> IsZero at"
    and "tb2 = fold pg_exec later tb1"
  shows "fst (PG_ReconcileExpiredEvidence g x at ev tb2 tb2) \<in> {Inl ErrStaleFence, Inl ErrTaskDatabase} \<and>
    snd (PG_ReconcileExpiredEvidence g x at ev tb2 tb2) = tb2"
proof -
  have "tb1 = pg_exec (PgStore f 0 seen (OpAcquire i owner now d)) tb" using assms(4) by simp
  then have ok1: "table_ok tb1" using pg.exec_inv [OF assms(1), of "PgStore f 0 seen (OpAcquire i owner now d)"] by simp
  obtain r where r: "tb1 i = Some r" "l = leaseFor (scanTask r)"
    using assms(4)
    by (auto simp: PG_Acquire_def sql_write_Some acquire_stmt_def Let_def bigint_inc_def integer_inc_def
        split: option.splits prod.splits if_splits)
  have "tk_FencingToken (scanTask r) = ls_FencingToken l" using r(2) by (simp add: leaseFor_def)
  then obtain t2 where t2: "task_view tb2 i = Some t2" "ls_FencingToken l \<le> tk_FencingToken t2"
    using pg.run_fence [OF ok1 assms(3), of i "scanTask r"] task_view_Some [of tb1 i r] r(1) assms(8,10)
    by auto
  then obtain r2 where r2: "tb2 i = Some r2" "t2 = scanTask r2" by (auto simp: task_view_def)
  have ne: "tr_fencing_token r2 \<noteq> er_fencing_token e" using t2(2) r2(2) assms(7) by (simp add: row_simps)
  have ids: "x \<noteq> ''''" "i \<noteq> ''''"
    using assms(2,5,6) find_evidence_Some [OF assms(5)] by (auto simp: evidence_ok_def list_all_iff)
  have "reconcile_stmt x (normaliseTime at) ev tb2 = (None, tb2)"
    using assms(5,6) r2(1) ne by (simp add: reconcile_stmt_def update_stmt_def reconcilable_def)
  then show ?thesis using assms(5,6,9) ids r2(1) ne
    by (cases "g 0") (auto simp: PG_ReconcileExpiredEvidence_def sql_write_def
        classifyEvidenceReconciliation_def PG_Get_def row_simps)
qed

section \<open>The runner's accounting\<close>

text \<open>The calls a pass makes, in order, with their results.\<close>

fun reconcile_trace :: "'w reconciliation_repository \<Rightarrow> gotime \<Rightarrow> string list \<Rightarrow> 'w \<Rightarrow> (string \<times> (task_error + task)) list" where
  "reconcile_trace repo at [] w = []"
| "reconcile_trace repo at (x # rest) w =
     (x, fst (rr_Reconcile repo x at w)) # reconcile_trace repo at rest (snd (rr_Reconcile repo x at w))"

definition failed_call :: "string \<times> (task_error + task) \<Rightarrow> (string \<times> task_error) list" where
  "failed_call p = (case p of (x, Inl e) \<Rightarrow> (if reconcile_skippable e then [] else [(x, e)]) | (x, Inr _) \<Rightarrow> [])"

definition skipped_call :: "string \<times> (task_error + task) \<Rightarrow> bool" where
  "skipped_call p = (case p of (x, Inl e) \<Rightarrow> reconcile_skippable e | (x, Inr _) \<Rightarrow> False)"

definition succeeded_call :: "string \<times> (task_error + task) \<Rightarrow> bool" where
  "succeeded_call p = (case p of (x, Inl e) \<Rightarrow> False | (x, Inr _) \<Rightarrow> True)"

lemma reconcile_candidates_trace:
  "reconcile_candidates repo at ids (errs, m, w) = (errs', m', w') \<Longrightarrow>
     tr = reconcile_trace repo at ids w \<Longrightarrow>
     errs' = errs @ concat (map failed_call tr) \<and>
     rm_candidates m' = rm_candidates m \<and>
     rm_reconciled m' = rm_reconciled m + of_nat (length (filter succeeded_call tr)) \<and>
     rm_skipped m' = rm_skipped m + of_nat (length (filter skipped_call tr)) \<and>
     rm_failures m' = rm_failures m + of_nat (length (concat (map failed_call tr)))"
proof (induction ids arbitrary: errs m w tr)
  case (Cons x ids)
  obtain a w1 where step: "rr_Reconcile repo x at w = (a, w1)" by (cases "rr_Reconcile repo x at w")
  show ?case
  proof (cases a)
    case (Inr t)
    then show ?thesis using Cons.prems step Cons.IH [of errs "m\<lparr>rm_reconciled := rm_reconciled m + 1\<rparr>" w1]
      by (simp add: failed_call_def skipped_call_def succeeded_call_def)
  next
    case (Inl e)
    show ?thesis
    proof (cases "reconcile_skippable e")
      case True
      then show ?thesis using Inl Cons.prems step Cons.IH [of errs "m\<lparr>rm_skipped := rm_skipped m + 1\<rparr>" w1]
        by (simp add: failed_call_def skipped_call_def succeeded_call_def)
    next
      case False
      then show ?thesis using Inl Cons.prems step Cons.IH [of "errs @ [(x, e)]" "recordFailure m" w1]
        by (simp add: failed_call_def skipped_call_def succeeded_call_def recordFailure_def)
    qed
  qed
qed simp

lemma trace_partition:
  "length (filter succeeded_call tr) + length (filter skipped_call tr) + length (concat (map failed_call tr)) = length tr"
proof (induction tr)
  case (Cons p tr)
  obtain x a where p: "p = (x, a)" by (cases p)
  show ?case
  proof (cases a)
    case (Inl e)
    with Cons p show ?thesis
      by (cases "reconcile_skippable e")
        (simp_all add: succeeded_call_def [of "(x, Inl e)"] skipped_call_def [of "(x, Inl e)"] failed_call_def [of "(x, Inl e)"])
  next
    case (Inr t)
    with Cons p show ?thesis
      by (simp add: succeeded_call_def [of "(x, Inr t)"] skipped_call_def [of "(x, Inr t)"] failed_call_def [of "(x, Inr t)"])
  qed
qed simp

lemma length_reconcile_trace [simp]: "length (reconcile_trace repo at ids w) = length ids"
  by (induction ids arbitrary: w) auto

text \<open>
  A pass of the runner is fully accounted for: it attempts every listed candidate exactly
  once, whatever earlier ones did; the counter of candidates and the sum of the three outcome counters
  grow by the number of candidates; that number is returned; and the returned error lists
  exactly the calls that failed with an error that is not a lost race, in order.
\<close>

lemma runner_pass_accounting:
  assumes "ReconciliationRunner_validate r" and "rn_Repository r = Some repo" and "rn_Now r = Some at"
    and "rr_List repo at (rn_BatchSize r) w = (Inr ids, w1)"
    and "ReconciliationRunner_RunOnce r m w = ((n, errs), m', w')"
  shows "n = int (length ids) \<and> errs = concat (map failed_call (reconcile_trace repo at ids w1)) \<and>
    map fst (reconcile_trace repo at ids w1) = ids \<and>
    rm_candidates m' = rm_candidates m + of_nat (length ids) \<and>
    rm_failures m' = rm_failures m + of_nat (length errs) \<and>
    rm_reconciled m' + rm_skipped m' + rm_failures m' =
      rm_reconciled m + rm_skipped m + rm_failures m + of_nat (length ids)"
proof -
  let ?tr = "reconcile_trace repo at ids w1"
  have fst_tr: "map fst (reconcile_trace repo at ids v) = ids" for v
    by (induction ids arbitrary: v) auto
  have "reconcile_candidates repo at ids ([], m\<lparr>rm_candidates := rm_candidates m + of_nat (length ids)\<rparr>, w1) =
      (errs, m', w')" and n: "n = int (length ids)"
    using assms by (auto simp: ReconciliationRunner_RunOnce_def Let_def split: prod.splits)
  from reconcile_candidates_trace [OF this(1) refl]
  have t: "errs = concat (map failed_call ?tr)" "rm_candidates m' = rm_candidates m + of_nat (length ids)"
      "rm_reconciled m' = rm_reconciled m + of_nat (length (filter succeeded_call ?tr))"
      "rm_skipped m' = rm_skipped m + of_nat (length (filter skipped_call ?tr))"
      "rm_failures m' = rm_failures m + of_nat (length errs)"
    by simp_all
  have "of_nat (length (filter succeeded_call ?tr)) + of_nat (length (filter skipped_call ?tr)) +
      of_nat (length errs) = (of_nat (length ids) :: 64 word)"
    using arg_cong [OF trace_partition [of ?tr], of "of_nat :: nat \<Rightarrow> 64 word"] t(1) by simp
  then show ?thesis using n t fst_tr by (simp add: algebra_simps)
qed

text \<open>The repository of the model as the runner's \<^verbatim>\<open>EvidenceReconciliationRepository\<close>, without driver errors.\<close>

definition pg_reconciliation_repository ::
  "(string \<Rightarrow> 'k :: linorder) \<Rightarrow> evidence_table \<Rightarrow> task_table reconciliation_repository" where
  "pg_reconciliation_repository coll ev =
     \<lparr>rr_List = (\<lambda>at n tb. (PG_ListExpiredEvidenceCandidates coll CallOK at n ev tb, tb)),
      rr_Reconcile = (\<lambda>x at tb. PG_ReconcileExpiredEvidence (\<lambda>_. CallOK) x at ev
        (snd (PG_ReconcileExpiredEvidence (\<lambda>_. CallOK) x at ev tb tb)) tb)\<rparr>"

definition example_runner :: "task_table reconciliation_runner" where
  "example_runner = \<lparr>rn_Repository = Some (pg_reconciliation_repository length example_evidence),
     rn_BatchSize = 10, rn_PollInterval = 1, rn_FailureDelay = 1, rn_Now = Some 70000\<rparr>"

end
