(* ===== verification/Resolution_Postgres.thy ===== *)
theory Resolution_Postgres
  imports Resolution_Contract
begin

text \<open>
  The PostgreSQL resolution repository, \<^verbatim>\<open>internal/resolution/postgres_repository.go\<close>, over the
  tables of \<^verbatim>\<open>migrations/000001_resolution_workflow.up.sql\<close>.

  A transaction's writes are collected and become visible at its commit; every earlier driver
  error rolls back.  Timestamps are stored at microsecond resolution.  The payload column is
  \<^verbatim>\<open>jsonb\<close>: what the database makes of the text (and whether it accepts it) is the argument
  \<open>jsonb\<close>, the \<^verbatim>\<open>(payload->>'version')::bigint\<close> of a stored payload the argument \<open>version_of\<close>.
\<close>

section \<open>Tables\<close>

record res_db =
  db_resolutions :: "string \<rightharpoonup> resolution"
  db_idempotency :: "string \<times> string \<times> string \<rightharpoonup> string \<times> string"
  db_outbox :: "outbox_event list"

type_synonym jsonb = "string \<Rightarrow> string option"

definition stored_resolution :: "resolution \<Rightarrow> resolution" where
  "stored_resolution r = r\<lparr>rs_CreatedAt := Truncate_us (rs_CreatedAt r), rs_UpdatedAt := Truncate_us (rs_UpdatedAt r)\<rparr>"

text \<open>The row \<^verbatim>\<open>insertOutboxEvent\<close> adds; \<open>None\<close> when the identifier is taken or the payload is no JSON.\<close>

definition insertOutboxEvent :: "jsonb \<Rightarrow> outbox_event \<Rightarrow> outbox_event list \<Rightarrow> outbox_event list option" where
  "insertOutboxEvent jsonb event outbox =
     (if oe_ID event \<in> set (map oe_ID outbox) then None
      else case jsonb (oe_Payload event) of
        None \<Rightarrow> None
      | Some text \<Rightarrow> Some (outbox @ [event\<lparr>oe_Payload := text, oe_OccurredAt := Truncate_us (oe_OccurredAt event)\<rparr>]))"

section \<open>Operations\<close>

definition getResolutionTx :: "string \<Rightarrow> string \<Rightarrow> res_db \<Rightarrow> resolution option" where
  "getResolutionTx tenantID resolutionID db =
     (case db_resolutions db resolutionID of
        None \<Rightarrow> None
      | Some r \<Rightarrow> if rs_TenantID r = tenantID then Some r else None)"

definition PGR_Get :: "db_call \<Rightarrow> string \<Rightarrow> string \<Rightarrow> res_db \<Rightarrow> resolution_error + resolution" where
  "PGR_Get c tenantID resolutionID db =
     (if c \<noteq> CallOK then Inl ErrResolutionDatabase
      else case getResolutionTx tenantID resolutionID db of None \<Rightarrow> Inl ErrNotFound | Some r \<Rightarrow> Inr r)"

text \<open>\<open>c1\<close> and \<open>c2\<close> are the two queries.\<close>

definition getIdempotentResolution ::
  "db_call \<Rightarrow> db_call \<Rightarrow> string \<times> string \<times> string \<Rightarrow> res_db \<Rightarrow> resolution_error + resolution \<times> string" where
  "getIdempotentResolution c1 c2 key db =
     (if c1 \<noteq> CallOK then Inl ErrResolutionDatabase
      else case db_idempotency db key of
        None \<Rightarrow> Inl ErrResolutionDatabase
      | Some (digest, resolutionID) \<Rightarrow>
          if c2 \<noteq> CallOK then Inl ErrResolutionDatabase
          else (case getResolutionTx (fst key) resolutionID db of
              None \<Rightarrow> Inl ErrResolutionDatabase
            | Some r \<Rightarrow> Inr (r, digest)))"

definition PGR_Create ::
  "db_faults \<Rightarrow> jsonb \<Rightarrow> codec \<Rightarrow> resolution \<Rightarrow> outbox_event \<Rightarrow> res_db
   \<Rightarrow> (resolution_error + resolution \<times> bool) \<times> res_db" where
  "PGR_Create f jsonb cd r event db =
     (if \<not> validateNewResolution cd r event then (Inl ErrResolutionArgument, db)
      else if f 0 \<noteq> CallOK then (Inl ErrResolutionDatabase, db)
      else if f 1 \<noteq> CallOK \<or> db_resolutions db (rs_ID r) \<noteq> None then (Inl ErrResolutionDatabase, db)
      else if f 2 \<noteq> CallOK \<or> f 3 \<noteq> CallOK then (Inl ErrResolutionDatabase, db)
      else if db_idempotency db (key_of r) \<noteq> None
      then (case getIdempotentResolution (f 4) (f 5) (key_of r) db of
          Inl e \<Rightarrow> (Inl e, db)
        | Inr (existing, digest) \<Rightarrow>
            if digest \<noteq> rs_RequestDigest r then (Inl ErrIdempotencyConflict, db)
            else (Inr (existing, False), db))
      else if f 4 \<noteq> CallOK then (Inl ErrResolutionDatabase, db)
      else case insertOutboxEvent jsonb event (db_outbox db) of
        None \<Rightarrow> (Inl ErrResolutionDatabase, db)
      | Some outbox' \<Rightarrow>
          (case sql_write (f 5) db (Some ((), db\<lparr>
              db_resolutions := (db_resolutions db)(rs_ID r \<mapsto> stored_resolution r),
              db_idempotency := (db_idempotency db)(key_of r \<mapsto> (rs_RequestDigest r, rs_ID r)),
              db_outbox := outbox'\<rparr>)) of
             (None, db') \<Rightarrow> (Inl ErrResolutionDatabase, db')
           | (Some _, db') \<Rightarrow> (Inr (r, True), db')))"

definition transition_row ::
  "string \<Rightarrow> string \<Rightarrow> int \<Rightarrow> resolution_state \<Rightarrow> resolution_state \<Rightarrow> gotime \<Rightarrow> res_db \<Rightarrow> resolution option" where
  "transition_row tenantID resolutionID expectedVersion expectedState next' updatedAt db =
     (case getResolutionTx tenantID resolutionID db of
        None \<Rightarrow> None
      | Some r \<Rightarrow>
          if rs_Version r = expectedVersion \<and> rs_State r = expectedState \<and> rs_UpdatedAt r \<le> Truncate_us updatedAt
          then Some r else None)"

definition PGR_Transition ::
  "db_faults \<Rightarrow> jsonb \<Rightarrow> string \<Rightarrow> string \<Rightarrow> int \<Rightarrow> resolution_state \<Rightarrow> resolution_state \<Rightarrow> gotime \<Rightarrow> outbox_event
   \<Rightarrow> res_db \<Rightarrow> (resolution_error + resolution) \<times> res_db" where
  "PGR_Transition f jsonb tenantID resolutionID expectedVersion expectedState next' updatedAt event db =
     (case ValidateTransition expectedState next' of
        Some e \<Rightarrow> (Inl e, db)
      | None \<Rightarrow>
          if IsZero updatedAt then (Inl ErrResolutionTime, db)
          else if \<not> validateEventBinding event tenantID resolutionID then (Inl ErrResolutionArgument, db)
          else if f 0 \<noteq> CallOK \<or> f 1 \<noteq> CallOK then (Inl ErrResolutionDatabase, db)
          else (case transition_row tenantID resolutionID expectedVersion expectedState next' updatedAt db of
             None \<Rightarrow>
               if f 2 = CallOK \<and> getResolutionTx tenantID resolutionID db = None
               then (Inl ErrNotFound, db) else (Inl ErrVersionConflict, db)
           | Some r \<Rightarrow>
               (case bigint_inc (rs_Version r) of
                  None \<Rightarrow> (Inl ErrResolutionDatabase, db)
                | Some version \<Rightarrow>
                    let r' = r\<lparr>rs_State := next', rs_Completed := Terminal next', rs_Version := version,
                               rs_UpdatedAt := Truncate_us updatedAt\<rparr>
                    in if f 2 \<noteq> CallOK then (Inl ErrResolutionDatabase, db)
                       else (case insertOutboxEvent jsonb event (db_outbox db) of
                          None \<Rightarrow> (Inl ErrResolutionDatabase, db)
                        | Some outbox' \<Rightarrow>
                            (case sql_write (f 3) db (Some ((), db\<lparr>
                                db_resolutions := (db_resolutions db)(resolutionID \<mapsto> r'), db_outbox := outbox'\<rparr>)) of
                               (None, db') \<Rightarrow> (Inl ErrResolutionDatabase, db')
                             | (Some _, db') \<Rightarrow> (Inr r', db'))))))"

text \<open>
  The history query; a payload whose version is no integer makes the query fail (\<open>Inl\<close>), a missing one
  is NULL (\<open>Inr None\<close>) and not selected.
\<close>

definition selected_event :: "(string \<Rightarrow> unit + int option) \<Rightarrow> int \<Rightarrow> outbox_event \<Rightarrow> bool" where
  "selected_event version_of after e =
     (case version_of (oe_Payload e) of Inr (Some v) \<Rightarrow> after < v | _ \<Rightarrow> False)"

definition event_version :: "(string \<Rightarrow> unit + int option) \<Rightarrow> outbox_event \<Rightarrow> int" where
  "event_version version_of e = (case version_of (oe_Payload e) of Inr (Some v) \<Rightarrow> v | _ \<Rightarrow> 0)"

definition resolution_events :: "string \<Rightarrow> string \<Rightarrow> outbox_event list \<Rightarrow> outbox_event list" where
  "resolution_events tenantID resolutionID =
     filter (\<lambda>e. oe_TenantID e = tenantID \<and> oe_AggregateType e = ''resolution'' \<and> oe_AggregateID e = resolutionID \<and>
       oe_Type e \<in> {''resolution.received'', ''resolution.state_changed'', ''resolution.tasks_queued''})"

definition PGR_ListEvents ::
  "codec \<Rightarrow> (string \<Rightarrow> unit + int option) \<Rightarrow> db_faults \<Rightarrow> string \<Rightarrow> string \<Rightarrow> int \<Rightarrow> int \<Rightarrow> res_db
   \<Rightarrow> resolution_error + watch_event list" where
  "PGR_ListEvents cd version_of f tenantID resolutionID after limit db =
     (if \<not> validateWatchRequest tenantID resolutionID after limit then Inl ErrResolutionArgument
      else case PGR_Get (f 0) tenantID resolutionID db of
        Inl e \<Rightarrow> Inl e
      | Inr _ \<Rightarrow>
          let rows = resolution_events tenantID resolutionID (db_outbox db) in
          if f 1 \<noteq> CallOK \<or> (\<exists>e \<in> set rows. version_of (oe_Payload e) = Inl ()) then Inl ErrResolutionDatabase
          else case those (map (safeWatchEvent cd) (take (nat limit)
              (sort_key (event_version version_of) (filter (selected_event version_of after) rows)))) of
            None \<Rightarrow> Inl ErrResolutionEncoding
          | Some events \<Rightarrow> Inr events)"

section \<open>The repository implements the contract\<close>

definition pgr_abs :: "res_db \<Rightarrow> workflow" where
  "pgr_abs db = \<lparr>wf_resolutions = db_resolutions db, wf_keys = db_idempotency db, wf_events = db_outbox db\<rparr>"

type_synonym pgr_env = "db_faults \<times> jsonb \<times> codec"

fun pgr_create :: "pgr_env \<Rightarrow> resolution \<Rightarrow> outbox_event \<Rightarrow> res_db \<Rightarrow> (resolution_error + resolution \<times> bool) \<times> res_db" where
  "pgr_create (f, jsonb, cd) r e db = PGR_Create f jsonb cd r e db"

datatype pgr_op =
    PgrCreate pgr_env resolution outbox_event
  | PgrTransition db_faults jsonb string string int resolution_state resolution_state gotime outbox_event

fun pgr_exec :: "pgr_op \<Rightarrow> res_db \<Rightarrow> res_db" where
  "pgr_exec (PgrCreate env r e) db = snd (pgr_create env r e db)"
| "pgr_exec (PgrTransition f jsonb t i v s n now e) db = snd (PGR_Transition f jsonb t i v s n now e db)"

definition pgr_inv :: "res_db \<Rightarrow> bool" where
  "pgr_inv db \<longleftrightarrow> workflow_ok (pgr_abs db) \<and> distinct (map oe_ID (db_outbox db))"

lemma pgr_abs_sel [simp]:
  "wf_resolutions (pgr_abs db) = db_resolutions db" "wf_keys (pgr_abs db) = db_idempotency db"
  "wf_events (pgr_abs db) = db_outbox db"
  by (simp_all add: pgr_abs_def)

lemma insertOutboxEvent_Some:
  "insertOutboxEvent jsonb e outbox = Some outbox' \<Longrightarrow>
     \<exists>e'. outbox' = outbox @ [e'] \<and> oe_ID e' = oe_ID e \<and> oe_ID e \<notin> oe_ID ` set outbox \<and>
       (\<forall>r. bound_to e' r = bound_to e r)"
  by (auto simp: insertOutboxEvent_def bound_to_def split: if_splits option.splits)

lemma bound_to_stored [simp]: "bound_to e (stored_resolution r) = bound_to e r"
  by (simp add: bound_to_def stored_resolution_def)

lemma stored_resolution_sel [simp]:
  "rs_ID (stored_resolution r) = rs_ID r" "key_of (stored_resolution r) = key_of r"
  "rs_RequestDigest (stored_resolution r) = rs_RequestDigest r"
  by (simp_all add: stored_resolution_def key_of_def)

lemma fresh_stored: "fresh_resolution r \<Longrightarrow> fresh_resolution (stored_resolution r)"
  by (simp add: fresh_resolution_def stored_resolution_def Truncate_us_mono)

text \<open>What a committed creation did.\<close>

definition created_in :: "resolution \<Rightarrow> outbox_event \<Rightarrow> res_db \<Rightarrow> res_db \<Rightarrow> bool" where
  "created_in r e db db' \<longleftrightarrow>
     fresh_resolution r \<and> bound_to e r \<and> db_resolutions db (rs_ID r) = None \<and> db_idempotency db (key_of r) = None \<and>
     (\<exists>e'. oe_ID e' = oe_ID e \<and> oe_ID e \<notin> oe_ID ` set (db_outbox db) \<and> bound_to e' r \<and>
        db' = db\<lparr>db_resolutions := (db_resolutions db)(rs_ID r \<mapsto> stored_resolution r),
          db_idempotency := (db_idempotency db)(key_of r \<mapsto> (rs_RequestDigest r, rs_ID r)),
          db_outbox := db_outbox db @ [e']\<rparr>)"

lemma PGR_Create_new:
  assumes "PGR_Create f jsonb cd r e db = (Inr (x, True), db')"
  shows "x = r \<and> created_in r e db db'"
  using assms validateNewResolution_fresh [of cd r e]
  by (auto simp: PGR_Create_def created_in_def sql_write_Some dest!: insertOutboxEvent_Some
      split: if_splits sum.splits option.splits prod.splits)

lemma PGR_Create_replay:
  assumes "PGR_Create f jsonb cd r e db = (Inr (x, False), db')"
  shows "db' = db \<and> (\<exists>i. db_idempotency db (key_of r) = Some (rs_RequestDigest r, i) \<and>
    db_resolutions db i = Some x)"
  using assms
  by (auto simp: PGR_Create_def getIdempotentResolution_def getResolutionTx_def
      split: if_splits sum.splits option.splits prod.splits)

lemma PGR_Create_err:
  assumes "PGR_Create f jsonb cd r e db = (Inl x, db')"
  shows "db' = db \<or> x = ErrResolutionDatabase \<and> created_in r e db db'"
  using assms validateNewResolution_fresh [of cd r e]
  by (auto simp: PGR_Create_def created_in_def sql_write_Some dest!: insertOutboxEvent_Some sql_write_None
      split: if_splits sum.splits option.splits prod.splits)

lemma created_in_step: "created_in r e db db' \<Longrightarrow> workflow_step (pgr_abs db) (pgr_abs db')"
  using workflow_step.create [of "stored_resolution r" "pgr_abs db"]
  by (auto simp: created_in_def fresh_stored pgr_abs_def)

text \<open>What a committed transition did: \<open>i\<close> moves to \<open>n\<close> at the stored time.\<close>

definition changed_in ::
  "string \<Rightarrow> resolution \<Rightarrow> resolution_state \<Rightarrow> gotime \<Rightarrow> outbox_event \<Rightarrow> res_db \<Rightarrow> res_db \<Rightarrow> bool" where
  "changed_in i r n now e db db' \<longleftrightarrow>
     db_resolutions db i = Some r \<and> ValidateTransition (rs_State r) n = None \<and> rs_UpdatedAt r \<le> Truncate_us now \<and>
     bound_to e r \<and>
     (\<exists>e'. oe_ID e' = oe_ID e \<and> oe_ID e \<notin> oe_ID ` set (db_outbox db) \<and> bound_to e' r \<and>
        db' = db\<lparr>db_resolutions := (db_resolutions db)(i \<mapsto> advanced n (Truncate_us now) r),
          db_outbox := db_outbox db @ [e']\<rparr>)"

lemma changed_in_step: "changed_in i r n now e db db' \<Longrightarrow> workflow_step (pgr_abs db) (pgr_abs db')"
  using workflow_step.change [of "pgr_abs db" i r "advanced n (Truncate_us now) r"]
    resolution_step.advance [of r n "Truncate_us now"]
  by (auto simp: changed_in_def pgr_abs_def)

lemma stage_le: "stage s \<le> 5"
  by (cases s) simp_all

lemma resolution_ok_bound: "resolution_ok i r \<Longrightarrow> rs_ID r = i \<and> rs_Version r \<le> 5"
  using stage_le [of "rs_State r"] by (auto simp: resolution_ok_def split: if_splits)

lemma pgr_invD:
  assumes "pgr_inv db" and "db_resolutions db i = Some r"
  shows "resolution_ok i r" and "rs_ID r = i \<and> rs_Version r \<le> 5"
proof -
  show "resolution_ok i r" using assms by (simp add: pgr_inv_def workflow_ok_def)
  then show "rs_ID r = i \<and> rs_Version r \<le> 5" by (rule resolution_ok_bound)
qed

lemma bigint_inc_small [simp]: "n \<le> 5 \<Longrightarrow> bigint_inc n = Some (n + 1)"
  by (simp add: bigint_inc_def int64_max_def)

lemma transition_row_Some:
  "transition_row t i v s n now db = Some r \<longleftrightarrow>
     db_resolutions db i = Some r \<and> rs_TenantID r = t \<and> rs_Version r = v \<and> rs_State r = s \<and>
     rs_UpdatedAt r \<le> Truncate_us now"
  by (auto simp: transition_row_def getResolutionTx_def split: option.splits)

lemma PGR_Transition_effect:
  assumes "pgr_inv db" and "PGR_Transition f jsonb t i v s n now e db = (a, db')"
  shows "case a of
      Inr r' \<Rightarrow> \<exists>r. rs_TenantID r = t \<and> rs_Version r = v \<and> rs_State r = s \<and> changed_in i r n now e db db' \<and>
        r' = advanced n (Truncate_us now) r
    | Inl x \<Rightarrow> db' = db \<or> x = ErrResolutionDatabase \<and> (\<exists>r. changed_in i r n now e db db')"
proof (cases "ValidateTransition s n = None \<and> \<not> IsZero now \<and> validateEventBinding e t i \<and> f 0 = CallOK \<and> f 1 = CallOK")
  case False
  then have "\<exists>x. a = Inl x \<and> db' = db"
    using assms(2) unfolding PGR_Transition_def by (cases "ValidateTransition s n") (auto split: if_splits)
  then show ?thesis by auto
next
  case guards: True
  show ?thesis
  proof (cases "transition_row t i v s n now db")
    case None
    then show ?thesis using assms(2) guards by (auto simp: PGR_Transition_def split: if_splits)
  next
    case (Some r)
    then have r: "db_resolutions db i = Some r" "rs_TenantID r = t" "rs_Version r = v" "rs_State r = s"
      "rs_UpdatedAt r \<le> Truncate_us now" by (simp_all add: transition_row_Some)
    have ok: "rs_ID r = i" "rs_Version r \<le> 5" using pgr_invD(2) [OF assms(1) r(1)] by simp_all
    have adv: "r\<lparr>rs_State := n, rs_Completed := Terminal n, rs_Version := rs_Version r + 1, rs_UpdatedAt := Truncate_us now\<rparr> =
        advanced n (Truncate_us now) r" using ok(2) by (simp add: advanced_def)
    have b: "bound_to e r" using guards ok(1) r(2) by (simp add: validateEventBinding_def bound_to_def)
    show ?thesis
    proof (cases "f 2 = CallOK \<and> insertOutboxEvent jsonb e (db_outbox db) \<noteq> None")
      case False
      then show ?thesis using assms(2) guards Some ok(2) by (auto simp: PGR_Transition_def Let_def split: if_splits)
    next
      case True
      then obtain ob where ob: "insertOutboxEvent jsonb e (db_outbox db) = Some ob" by blast
      let ?db = "db\<lparr>db_resolutions := (db_resolutions db)(i \<mapsto> advanced n (Truncate_us now) r), db_outbox := ob\<rparr>"
      have ch: "changed_in i r n now e db ?db"
        using insertOutboxEvent_Some [OF ob] r b guards by (auto simp: changed_in_def)
      have "(a, db') = (case sql_write (f 3) db (Some ((), ?db)) of
          (None, db') \<Rightarrow> (Inl ErrResolutionDatabase, db')
        | (Some _, db') \<Rightarrow> (Inr (advanced n (Truncate_us now) r), db'))"
        using assms(2) guards Some ok(2) True ob by (simp add: PGR_Transition_def Let_def adv)
      then show ?thesis using ch r
        by (auto simp: sql_write_Some dest!: sql_write_None split: prod.splits option.splits)
    qed
  qed
qed

lemma PGR_Create_effect:
  "snd (PGR_Create f jsonb cd r e db) = db \<or> created_in r e db (snd (PGR_Create f jsonb cd r e db))"
proof (cases "PGR_Create f jsonb cd r e db")
  case (Pair a db')
  show ?thesis
  proof (cases a)
    case (Inl x)
    then show ?thesis using PGR_Create_err [of f jsonb cd r e db x db'] Pair by auto
  next
    case (Inr y)
    obtain x b where "y = (x, b)" by fastforce
    then show ?thesis
      using PGR_Create_new [of f jsonb cd r e db x db'] PGR_Create_replay [of f jsonb cd r e db x db'] Pair Inr
      by (cases b) auto
  qed
qed

lemma pgr_exec_cases:
  assumes "pgr_inv db"
  obtains "pgr_exec op db = db" | r e where "created_in r e db (pgr_exec op db)"
    | i r n now e where "changed_in i r n now e db (pgr_exec op db)"
proof (cases op)
  case (PgrCreate env r e)
  obtain f jsonb cd where env: "env = (f, jsonb, cd)" by (metis prod.exhaust)
  show ?thesis using that(1,2) PGR_Create_effect [of f jsonb cd r e db] PgrCreate env by auto
next
  case (PgrTransition f jsonb t i v s n now e)
  obtain a db' where c: "PGR_Transition f jsonb t i v s n now e db = (a, db')" by fastforce
  then show ?thesis using that PGR_Transition_effect [OF assms c] PgrTransition
    by (auto split: sum.splits)
qed

lemma pgr_exec_step:
  assumes "pgr_inv db"
  shows "pgr_abs (pgr_exec op db) = pgr_abs db \<or> workflow_step (pgr_abs db) (pgr_abs (pgr_exec op db))"
  by (rule pgr_exec_cases [OF assms, of op]) (auto dest: created_in_step changed_in_step)

lemma pgr_exec_distinct:
  assumes "pgr_inv db"
  shows "distinct (map oe_ID (db_outbox (pgr_exec op db)))"
  by (rule pgr_exec_cases [OF assms, of op]) (use assms in \<open>auto simp: created_in_def changed_in_def pgr_inv_def\<close>)

interpretation durable: resolution_store pgr_abs pgr_exec "\<lambda>_. True" pgr_inv pgr_create PgrCreate "\<lambda>_. True"
proof unfold_locales
  fix db op assume inv: "pgr_inv db"
  then show "pgr_abs (pgr_exec op db) = pgr_abs db \<or> workflow_step (pgr_abs db) (pgr_abs (pgr_exec op db))"
    by (rule pgr_exec_step)
  then show "pgr_inv (pgr_exec op db)"
    using inv workflow_step_ok pgr_exec_distinct [OF inv, of op] by (auto simp: pgr_inv_def)
next
  fix db r env e x db' assume "pgr_create env r e db = (Inr (x, True), db')"
  then show "wf_keys (pgr_abs db) (key_of r) = None \<and> wf_keys (pgr_abs db') (key_of r) = Some (rs_RequestDigest r, rs_ID x)"
    by (cases env) (auto dest!: PGR_Create_new simp: created_in_def)
next
  fix db r env e x db' assume inv: "pgr_inv db" and "pgr_create env r e db = (Inr (x, False), db')"
  then show "pgr_abs db' = pgr_abs db \<and> wf_keys (pgr_abs db) (key_of r) = Some (rs_RequestDigest r, rs_ID x) \<and>
      wf_resolutions (pgr_abs db) (rs_ID x) = Some x"
    by (cases env) (auto dest!: PGR_Create_replay dest: pgr_invD(2) [OF inv])
qed (simp_all add: pgr_inv_def)

section \<open>Idempotent creation\<close>

definition empty_db :: res_db where
  "empty_db = \<lparr>db_resolutions = Map.empty, db_idempotency = Map.empty, db_outbox = []\<rparr>"

lemma empty_db_inv: "pgr_inv empty_db" "workflow_logged (pgr_abs empty_db)"
  by (simp_all add: empty_db_def pgr_inv_def pgr_abs_def workflow_ok_def workflow_logged_def)

lemma PGR_Create_taken:
  assumes "pgr_inv db" and "db_idempotency db (key_of r) = Some (d, i)" and "PGR_Create f jsonb cd r e db = (a, db')"
  shows "db' = db \<and> (\<exists>y. db_resolutions db i = Some y \<and> key_of y = key_of r \<and> rs_RequestDigest y = d \<and>
    (case a of Inr (x, b) \<Rightarrow> \<not> b \<and> x = y \<and> rs_RequestDigest r = d
     | Inl err \<Rightarrow> err \<in> {ErrResolutionArgument, ErrResolutionDatabase} \<or>
         err = ErrIdempotencyConflict \<and> rs_RequestDigest r \<noteq> d))"
proof -
  obtain y where y: "db_resolutions db i = Some y" "key_of y = key_of r" "rs_RequestDigest y = d"
    using assms(1,2) unfolding pgr_inv_def workflow_ok_def pgr_abs_sel by metis
  have "rs_TenantID y = fst (key_of r)" using y(2) by (simp add: key_of_def)
  with assms(2,3) y show ?thesis
    by (auto simp: PGR_Create_def getIdempotentResolution_def getResolutionTx_def split: if_splits)
qed

text \<open>
  C8. A creation that committed (its reply may have been lost) or returned a resolution is made once:
  whatever calls follow, another creation under the same tenant, actor and key writes nothing.
  It returns that one resolution when the request digest is the same; otherwise it fails, and with a
  different digest never succeeds.
\<close>

theorem durable_create_idempotent:
  assumes "db = fold pgr_exec ops empty_db" and "PGR_Create f jsonb cd r e db = (a, db1)"
    and "db1 \<noteq> db \<or> (\<exists>x b. a = Inr (x, b))" and "db2 = fold pgr_exec ops' db1"
    and "key_of r' = key_of r" and "PGR_Create f' jsonb' cd' r' e' db2 = (a', db3)"
  shows "db3 = db2 \<and> (\<exists>i y. db_resolutions db2 i = Some y \<and> key_of y = key_of r \<and>
    rs_RequestDigest y = rs_RequestDigest r \<and>
    (case a' of Inr (x, b) \<Rightarrow> \<not> b \<and> x = y \<and> rs_RequestDigest r' = rs_RequestDigest r
     | Inl err \<Rightarrow> err \<in> {ErrResolutionArgument, ErrResolutionDatabase} \<or>
         err = ErrIdempotencyConflict \<and> rs_RequestDigest r' \<noteq> rs_RequestDigest r))"
proof -
  have inv: "pgr_inv db" unfolding assms(1) by (rule durable.run_inv [OF empty_db_inv(1)]) (simp add: list_all_iff)
  have "\<exists>i. db_idempotency db1 (key_of r) = Some (rs_RequestDigest r, i)"
  proof (cases a)
    case (Inl x)
    then show ?thesis using assms(2,3) PGR_Create_err [of f jsonb cd r e db x db1] by (auto simp: created_in_def)
  next
    case (Inr xb)
    obtain x b where "xb = (x, b)" by fastforce
    then show ?thesis using Inr assms(2) PGR_Create_new [of f jsonb cd r e db x db1]
        PGR_Create_replay [of f jsonb cd r e db x db1] by (cases b) (auto simp: created_in_def)
  qed
  then obtain i where i: "db_idempotency db1 (key_of r) = Some (rs_RequestDigest r, i)" ..
  have inv1: "pgr_inv db1"
    using durable.exec_inv [OF inv, of "PgrCreate (f, jsonb, cd) r e"] assms(2) by simp
  have all: "list_all (\<lambda>_. True) ops'" by (simp add: list_all_iff)
  have "pgr_inv db2" unfolding assms(4) by (rule durable.run_inv [OF inv1 all])
  moreover have "db_idempotency db2 (key_of r') = Some (rs_RequestDigest r, i)"
    unfolding assms(4,5) using durable.run_keys [OF inv1 all] i by simp
  ultimately show ?thesis using PGR_Create_taken [OF _ _ assms(6)] unfolding assms(5) by blast
qed

definition example_pg_codec :: codec where
  "example_pg_codec = \<lparr>sha256_Sum256 = (\<lambda>_. ''H''), json_Valid = (\<lambda>_. True), json_Marshal = (\<lambda>_. None), json_Unmarshal = (\<lambda>_. None)\<rparr>"

definition example_resolution :: "string \<Rightarrow> resolution" where
  "example_resolution i = \<lparr>rs_ID = i, rs_ActorID = ''alice'', rs_TenantID = ''acme'', rs_IdempotencyKey = ''k1'',
     rs_RequestDigest = ''sha256:48'', rs_RequestDocument = ''{}'', rs_State = ResolutionReceived, rs_TargetCount = 0,
     rs_Completed = False, rs_Version = 1, rs_CreatedAt = 5000, rs_UpdatedAt = 5000\<rparr>"

definition example_event :: "string \<Rightarrow> string \<Rightarrow> string \<Rightarrow> outbox_event" where
  "example_event eid i ty = \<lparr>oe_ID = eid, oe_TenantID = ''acme'', oe_AggregateType = ''resolution'', oe_AggregateID = i,
     oe_Type = ty, oe_Payload = ''{}'', oe_OccurredAt = 5000\<rparr>"

definition example_db :: res_db where
  "example_db = \<lparr>db_resolutions = [''r1'' \<mapsto> example_resolution ''r1''],
     db_idempotency = [(''acme'', ''alice'', ''k1'') \<mapsto> (''sha256:48'', ''r1'')],
     db_outbox = [example_event ''e1'' ''r1'' ''resolution.received'']\<rparr>"

lemmas example_create_simps =
  PGR_Create_def empty_db_def sql_write_def example_resolution_def example_event_def example_pg_codec_def
  validateNewResolution_def validateCreateRequest_def validateEventBinding_def Event_Validate_def hex_EncodeToString_def
  hex_digit_def IsZero_def maximumRequestDocumentSize_def key_of_def insertOutboxEvent_def getIdempotentResolution_def
  getResolutionTx_def stored_resolution_def example_db_def Truncate_us_def

lemma example_lost_reply:
  "PGR_Create (\<lambda>k. if k = 5 then CallReplyLost else CallOK) Some example_pg_codec
     (example_resolution ''r1'') (example_event ''e1'' ''r1'' ''resolution.received'') empty_db =
   (Inl ErrResolutionDatabase, example_db)"
  by (simp add: example_create_simps)

lemma example_retry:
  "fst (PGR_Create (\<lambda>_. CallOK) Some example_pg_codec
     (example_resolution ''r2'') (example_event ''e2'' ''r2'' ''resolution.received'') example_db) =
   Inr (example_resolution ''r1'', False)"
  by (simp add: example_create_simps)

text \<open>The commit of the first creation is applied but its reply lost; the retry finds it.\<close>

theorem durable_create_idempotent_witness:
  "PGR_Create (\<lambda>_. CallOK) Some example_pg_codec
     (example_resolution ''r2'') (example_event ''e2'' ''r2'' ''resolution.received'') example_db =
   (Inr (example_resolution ''r1'', False), example_db)"
proof -
  let ?c = "PGR_Create (\<lambda>_. CallOK) Some example_pg_codec
     (example_resolution ''r2'') (example_event ''e2'' ''r2'' ''resolution.received'') example_db"
  have k: "key_of (example_resolution ''r2'') = key_of (example_resolution ''r1'')"
    by (simp add: example_resolution_def key_of_def)
  have "example_db \<noteq> empty_db" by (simp add: example_db_def empty_db_def)
  then have "snd ?c = example_db"
    using durable_create_idempotent [OF _ example_lost_reply _ _ k prod.collapse [symmetric, of ?c], of "[]" "[]"] by simp
  then show ?thesis using example_retry by (metis prod.collapse)
qed

end
