(* ===== verification/Auth_Context.thy ===== *)
theory Auth_Context
  imports Broker_Prelude
begin

text \<open>
  The authenticated identity that services receive, \<^verbatim>\<open>internal/authctx/auth_context.go\<close>.
\<close>

record auth_context =
  ac_SubjectID :: string
  ac_SPIFFEID :: string
  ac_TenantID :: string
  ac_Roles :: "string list"
  ac_AllowedScopes :: "string list"
  ac_DataClearances :: "string list"
  ac_CredentialClass :: string
  ac_AuthenticatedAt :: gotime
  ac_IdentityRevision :: string

definition AuthContext_Validate :: "auth_context \<Rightarrow> bool" where
  "AuthContext_Validate a \<longleftrightarrow>
     ac_SubjectID a \<noteq> '''' \<and> ac_TenantID a \<noteq> '''' \<and> \<not> IsZero (ac_AuthenticatedAt a)"

end
