(* ===== verification/Task_Fanout.thy ===== *)
theory Task_Fanout
  imports Collector_Reconciliation Resolution_Postgres Auth_Context
begin

text \<open>
  Task fan-out and planning: \<^verbatim>\<open>internal/collector/fanout.go\<close> and \<^verbatim>\<open>internal/planning/service.go\<close>.

  The fan-out is the one transaction that spans both halves of the database: it queues a planned
  resolution, inserts its tasks and records the event.  The theory therefore puts the workflow
  tables and the task table into one state, on which resolution calls, task calls,
  reconciliations and fan-outs interleave, and shows that both contracts (\<open>resolution_store\<close>,
  \<open>fenced_tasks\<close>) hold of that system.
\<close>

record broker_db =
  bd_res :: res_db
  bd_tasks :: task_table

section \<open>The fan-out transaction\<close>

record fanout_request =
  fq_TenantID :: string
  fq_ResolutionID :: string
  fq_ExpectedResolutionVersion :: int
  fq_Tasks :: "task list"
  fq_Event :: outbox_event
  fq_QueuedAt :: gotime

datatype fanout_error = ErrFanoutConflict | ErrFanoutRequest | ErrFanoutDatabase

fun validateFanoutTasks :: "fanout_request \<Rightarrow> string list \<Rightarrow> task list \<Rightarrow> bool" where
  "validateFanoutTasks request seen [] = True"
| "validateFanoutTasks request seen (task # rest) =
     (validateDurableTask task = None \<and>
      \<not> (tk_TenantID task \<noteq> fq_TenantID request \<or> tk_ResolutionID task \<noteq> fq_ResolutionID request \<or>
         tk_State task \<noteq> TaskStateOther '''' \<and> tk_State task \<noteq> TaskQueued) \<and>
      tk_ID task \<notin> set seen \<and> validateFanoutTasks request (tk_ID task # seen) rest)"

definition validateFanoutEvent :: "fanout_request \<Rightarrow> bool" where
  "validateFanoutEvent request \<longleftrightarrow>
     Event_Validate (fq_Event request) \<and>
     \<not> (oe_TenantID (fq_Event request) \<noteq> fq_TenantID request \<or> oe_AggregateType (fq_Event request) \<noteq> ''resolution'' \<or>
        oe_AggregateID (fq_Event request) \<noteq> fq_ResolutionID request \<or>
        oe_Type (fq_Event request) \<noteq> ''resolution.tasks_queued'' \<or>
        oe_OccurredAt (fq_Event request) \<noteq> fq_QueuedAt request)"

definition validateFanoutRequest :: "fanout_request \<Rightarrow> bool" where
  "validateFanoutRequest request \<longleftrightarrow>
     \<not> (fq_TenantID request = '''' \<or> fq_ResolutionID request = '''' \<or> fq_ExpectedResolutionVersion request \<le> 0 \<or>
        length (fq_Tasks request) = 0 \<or> 10000 < length (fq_Tasks request) \<or> IsZero (fq_QueuedAt request)) \<and>
     validateFanoutTasks request [] (fq_Tasks request) \<and> validateFanoutEvent request"

definition insertTaskTx :: "db_call \<Rightarrow> gotime \<Rightarrow> task \<Rightarrow> task_table \<Rightarrow> task_table option" where
  "insertTaskTx c dbnow task tasks =
     (let task = (if tk_State task = TaskStateOther '''' then task\<lparr>tk_State := TaskQueued\<rparr> else task)
      in if c \<noteq> CallOK \<or> tasks (tk_ID task) \<noteq> None then None
         else Some (tasks(tk_ID task \<mapsto> new_task_row dbnow task)))"

text \<open>The insertion loop; \<open>k\<close> numbers the driver calls.\<close>

fun insert_tasks :: "db_faults \<Rightarrow> nat \<Rightarrow> gotime \<Rightarrow> task list \<Rightarrow> task_table \<Rightarrow> task_table option" where
  "insert_tasks f k dbnow [] tasks = Some tasks"
| "insert_tasks f k dbnow (task # rest) tasks =
     (case insertTaskTx (f k) dbnow task tasks of
        None \<Rightarrow> None
      | Some tasks' \<Rightarrow> insert_tasks f (Suc k) dbnow rest tasks')"

definition queued_row :: "int \<Rightarrow> nat \<Rightarrow> gotime \<Rightarrow> resolution \<Rightarrow> resolution" where
  "queued_row version n queuedAt r =
     r\<lparr>rs_State := ResolutionQueued, rs_TargetCount := int n, rs_Version := version,
       rs_UpdatedAt := max (normaliseTime queuedAt) (rs_UpdatedAt r)\<rparr>"

text \<open>\<open>ON CONFLICT (id) DO NOTHING\<close>: a taken identifier leaves no row and is a conflict.\<close>

definition insertFanoutEvent ::
  "db_call \<Rightarrow> db_call \<Rightarrow> jsonb \<Rightarrow> outbox_event \<Rightarrow> outbox_event list \<Rightarrow> fanout_error + outbox_event list" where
  "insertFanoutEvent c1 c2 jsonb event outbox =
     (if c1 \<noteq> CallOK \<or> jsonb (oe_Payload event) = None \<or> c2 \<noteq> CallOK then Inl ErrFanoutDatabase
      else case insertOutboxEvent jsonb event outbox of
        None \<Rightarrow> Inl ErrFanoutConflict
      | Some outbox' \<Rightarrow> Inr outbox')"

definition CreateFanout ::
  "db_faults \<Rightarrow> jsonb \<Rightarrow> gotime \<Rightarrow> fanout_request \<Rightarrow> broker_db \<Rightarrow> fanout_error option \<times> broker_db" where
  "CreateFanout f jsonb dbnow request db =
     (if \<not> validateFanoutRequest request then (Some ErrFanoutRequest, db)
      else if f 0 \<noteq> CallOK \<or> f 1 \<noteq> CallOK then (Some ErrFanoutDatabase, db)
      else case getResolutionTx (fq_TenantID request) (fq_ResolutionID request) (bd_res db) of
        None \<Rightarrow> (Some ErrFanoutConflict, db)
      | Some r \<Rightarrow>
          if rs_Version r \<noteq> fq_ExpectedResolutionVersion request \<or> rs_State r \<noteq> ResolutionPlanning
          then (Some ErrFanoutConflict, db)
          else let n = length (fq_Tasks request) in
          (case insert_tasks f 2 dbnow (fq_Tasks request) (bd_tasks db) of
             None \<Rightarrow> (Some ErrFanoutDatabase, db)
           | Some tasks' \<Rightarrow>
               if f (n + 2) \<noteq> CallOK \<or> f (n + 3) \<noteq> CallOK then (Some ErrFanoutDatabase, db)
               else (case bigint_inc (rs_Version r) of
                 None \<Rightarrow> (Some ErrFanoutDatabase, db)
               | Some version \<Rightarrow>
                   (case insertFanoutEvent (f (n + 4)) (f (n + 5)) jsonb (fq_Event request) (db_outbox (bd_res db)) of
                      Inl e \<Rightarrow> (Some e, db)
                    | Inr outbox' \<Rightarrow>
                        (case sql_write (f (n + 6)) db (Some ((),
                            \<lparr>bd_res = (bd_res db)\<lparr>db_resolutions := (db_resolutions (bd_res db))(fq_ResolutionID request \<mapsto>
                                queued_row version n (fq_QueuedAt request) r), db_outbox := outbox'\<rparr>,
                             bd_tasks = tasks'\<rparr>)) of
                           (None, db') \<Rightarrow> (Some ErrFanoutDatabase, db')
                         | (Some _, db') \<Rightarrow> (None, db'))))))"

section \<open>The planning service\<close>

record queue_request =
  qr_ResolutionID :: string
  qr_ExpectedResolutionVersion :: int
  qr_Tasks :: "task list"

record queue_result =
  qres_ResolutionID :: string
  qres_Version :: int
  qres_TaskCount :: int

record queue_payload =
  qp_SchemaVersion :: string
  qp_ResolutionID :: string
  qp_State :: resolution_state
  qp_Version :: int
  qp_TaskCount :: int

datatype planning_error =
    ErrDenied | ErrInvalidRequest | ErrPlanningClock | ErrPlanningID | ErrPlanningEncoding | PlanningFanout fanout_error

definition queueScope :: string where
  "queueScope = ''resolutions:plan''"

definition maximumTasksPerRequest :: nat where
  "maximumTasksPerRequest = 1000"

text \<open>The loop that assigns tenant, resolution and state; an override fails it.\<close>

fun bind_tasks :: "string \<Rightarrow> string \<Rightarrow> task list \<Rightarrow> task list option" where
  "bind_tasks tenantID resolutionID [] = Some []"
| "bind_tasks tenantID resolutionID (task # rest) =
     (if tk_TenantID task \<noteq> '''' \<and> tk_TenantID task \<noteq> tenantID \<or>
         tk_ResolutionID task \<noteq> '''' \<and> tk_ResolutionID task \<noteq> resolutionID then None
      else map_option ((#) (task\<lparr>tk_TenantID := tenantID, tk_ResolutionID := resolutionID, tk_State := TaskQueued\<rparr>))
        (bind_tasks tenantID resolutionID rest))"

definition planning_Queue ::
  "(fanout_request \<Rightarrow> 'w \<Rightarrow> fanout_error option \<times> 'w) \<Rightarrow> gotime \<Rightarrow> string option \<Rightarrow> (queue_payload \<Rightarrow> string option)
   \<Rightarrow> auth_context \<Rightarrow> queue_request \<Rightarrow> 'w \<Rightarrow> (planning_error + queue_result) \<times> 'w" where
  "planning_Queue CreateFanoutContext now newID marshal actor request w =
     (if \<not> AuthContext_Validate actor then (Inl ErrDenied, w)
      else if queueScope \<notin> set (ac_AllowedScopes actor) then (Inl ErrDenied, w)
      else if qr_ResolutionID request = '''' \<or> qr_ExpectedResolutionVersion request \<le> 0 \<or>
         length (qr_Tasks request) = 0 \<or> maximumTasksPerRequest < length (qr_Tasks request)
      then (Inl ErrInvalidRequest, w)
      else case bind_tasks (ac_TenantID actor) (qr_ResolutionID request) (qr_Tasks request) of
        None \<Rightarrow> (Inl ErrInvalidRequest, w)
      | Some tasks \<Rightarrow>
          if IsZero now then (Inl ErrPlanningClock, w)
          else (case newID of
             None \<Rightarrow> (Inl ErrPlanningID, w)
           | Some eventID \<Rightarrow>
               (case marshal \<lparr>qp_SchemaVersion = ''v1'', qp_ResolutionID = qr_ResolutionID request,
                    qp_State = ResolutionQueued, qp_Version = int64_inc (qr_ExpectedResolutionVersion request),
                    qp_TaskCount = int (length tasks)\<rparr> of
                  None \<Rightarrow> (Inl ErrPlanningEncoding, w)
                | Some payload \<Rightarrow>
                    (case CreateFanoutContext \<lparr>fq_TenantID = ac_TenantID actor, fq_ResolutionID = qr_ResolutionID request,
                        fq_ExpectedResolutionVersion = qr_ExpectedResolutionVersion request, fq_Tasks = tasks,
                        fq_Event = \<lparr>oe_ID = eventID, oe_TenantID = ac_TenantID actor, oe_AggregateType = ''resolution'',
                          oe_AggregateID = qr_ResolutionID request, oe_Type = ''resolution.tasks_queued'',
                          oe_Payload = payload, oe_OccurredAt = now\<rparr>,
                        fq_QueuedAt = now\<rparr> w of
                       (Some e, w') \<Rightarrow> (Inl (PlanningFanout e), w')
                     | (None, w') \<Rightarrow> (Inr \<lparr>qres_ResolutionID = qr_ResolutionID request,
                         qres_Version = int64_inc (qr_ExpectedResolutionVersion request),
                         qres_TaskCount = int (length tasks)\<rparr>, w')))))"

section \<open>What a committed fan-out did\<close>

definition queued_task :: "task \<Rightarrow> task" where
  "queued_task t = t\<lparr>tk_State := TaskQueued\<rparr>"

definition fan_tasks :: "gotime \<Rightarrow> task list \<Rightarrow> task_table \<Rightarrow> task_table" where
  "fan_tasks dbnow = fold (\<lambda>t tasks. tasks(tk_ID t \<mapsto> new_task_row dbnow (queued_task t)))"

definition fanned_out :: "gotime \<Rightarrow> fanout_request \<Rightarrow> broker_db \<Rightarrow> broker_db \<Rightarrow> bool" where
  "fanned_out dbnow req db db' \<longleftrightarrow>
     (\<exists>r e. db_resolutions (bd_res db) (fq_ResolutionID req) = Some r \<and> rs_TenantID r = fq_TenantID req \<and>
        rs_State r = ResolutionPlanning \<and> rs_Version r = fq_ExpectedResolutionVersion req \<and>
        bound_to e r \<and> oe_ID e = oe_ID (fq_Event req) \<and> oe_ID e \<notin> oe_ID ` set (db_outbox (bd_res db)) \<and>
        oe_Type e = ''resolution.tasks_queued'' \<and>
        (\<forall>t \<in> set (fq_Tasks req). bd_tasks db (tk_ID t) = None) \<and>
        db' = \<lparr>bd_res = (bd_res db)\<lparr>db_resolutions := (db_resolutions (bd_res db))(fq_ResolutionID req \<mapsto>
              queued_row (rs_Version r + 1) (length (fq_Tasks req)) (fq_QueuedAt req) r),
            db_outbox := db_outbox (bd_res db) @ [e]\<rparr>,
          bd_tasks = fan_tasks dbnow (fq_Tasks req) (bd_tasks db)\<rparr>)"

lemma insert_tasks_Some:
  assumes "insert_tasks f k dbnow ts tb = Some tb'"
    and "list_all (\<lambda>t. tk_State t \<in> {TaskStateOther '''', TaskQueued}) ts"
  shows "tb' = fan_tasks dbnow ts tb \<and> (\<forall>t \<in> set ts. tb (tk_ID t) = None)"
  using assms
proof (induction ts arbitrary: k tb)
  case (Cons t ts)
  have q: "(if tk_State t = TaskStateOther '''' then t\<lparr>tk_State := TaskQueued\<rparr> else t) = queued_task t"
    using Cons.prems(2) by (auto simp: queued_task_def)
  define tb1 where "tb1 = tb(tk_ID t \<mapsto> new_task_row dbnow (queued_task t))"
  have none: "tb (tk_ID t) = None" and "insert_tasks f (Suc k) dbnow ts tb1 = Some tb'"
    using Cons.prems(1) q by (auto simp: insertTaskTx_def Let_def queued_task_def tb1_def split: if_splits)
  then have "tb' = fan_tasks dbnow ts tb1 \<and> (\<forall>t \<in> set ts. tb1 (tk_ID t) = None)"
    using Cons.IH Cons.prems(2) by simp
  then show ?case using none by (auto simp: fan_tasks_def tb1_def split: if_splits)
qed (simp add: fan_tasks_def)

lemma validateFanoutTasks_all:
  "validateFanoutTasks req seen ts \<Longrightarrow>
     list_all (\<lambda>t. validateDurableTask t = None \<and> tk_TenantID t = fq_TenantID req \<and>
       tk_ResolutionID t = fq_ResolutionID req \<and> tk_State t \<in> {TaskStateOther '''', TaskQueued}) ts \<and>
     distinct (map tk_ID ts) \<and> set (map tk_ID ts) \<inter> set seen = {}"
  by (induction req seen ts rule: validateFanoutTasks.induct) auto

lemma fan_tasks_other: "i \<notin> tk_ID ` set ts \<Longrightarrow> fan_tasks dbnow ts tb i = tb i"
  by (induction ts arbitrary: tb) (auto simp: fan_tasks_def)

lemma fan_tasks_new:
  "distinct (map tk_ID ts) \<Longrightarrow> t \<in> set ts \<Longrightarrow> fan_tasks dbnow ts tb (tk_ID t) = Some (new_task_row dbnow (queued_task t))"
proof (induction ts arbitrary: tb)
  case (Cons u ts)
  then show ?case using fan_tasks_other [of "tk_ID u" ts dbnow]
    by (cases "t = u") (auto simp: fan_tasks_def)
qed simp

lemma insertFanoutEvent_ok:
  "insertFanoutEvent c1 c2 jsonb e outbox = Inr outbox' \<Longrightarrow>
     \<exists>e'. outbox' = outbox @ [e'] \<and> oe_ID e' = oe_ID e \<and> oe_ID e \<notin> oe_ID ` set outbox \<and>
       oe_Type e' = oe_Type e \<and> (\<forall>r. bound_to e' r = bound_to e r)"
  by (auto simp: insertFanoutEvent_def insertOutboxEvent_def bound_to_def split: if_splits option.splits)

lemma insertFanoutEvent_err: "insertFanoutEvent c1 c2 jsonb e outbox = Inl x \<Longrightarrow> x \<noteq> ErrFanoutRequest"
  by (auto simp: insertFanoutEvent_def split: if_splits option.splits)

text \<open>The read of the locked row, and the writes of the transaction once it is accepted.\<close>

lemma CreateFanout_row:
  assumes "CreateFanout f jsonb dbnow req db = (a, db')"
  shows "(db' = db \<and> a \<noteq> None) \<or>
    (\<exists>r tb ob v. validateFanoutRequest req \<and> getResolutionTx (fq_TenantID req) (fq_ResolutionID req) (bd_res db) = Some r \<and>
       rs_Version r = fq_ExpectedResolutionVersion req \<and> rs_State r = ResolutionPlanning \<and>
       insert_tasks f 2 dbnow (fq_Tasks req) (bd_tasks db) = Some tb \<and> bigint_inc (rs_Version r) = Some v \<and>
       insertFanoutEvent (f (length (fq_Tasks req) + 4)) (f (length (fq_Tasks req) + 5)) jsonb (fq_Event req)
         (db_outbox (bd_res db)) = Inr ob \<and> (a = None \<or> a = Some ErrFanoutDatabase) \<and>
       db' = \<lparr>bd_res = (bd_res db)\<lparr>db_resolutions := (db_resolutions (bd_res db))(fq_ResolutionID req \<mapsto>
           queued_row v (length (fq_Tasks req)) (fq_QueuedAt req) r), db_outbox := ob\<rparr>, bd_tasks = tb\<rparr>)"
  using assms
  by (auto simp: CreateFanout_def Let_def sql_write_Some dest!: sql_write_None
      split: if_splits option.splits sum.splits prod.splits)

lemma CreateFanout_effect:
  assumes "CreateFanout f jsonb dbnow req db = (a, db')" and "pgr_inv (bd_res db)"
  shows "(db' = db \<and> a \<noteq> None) \<or> (validateFanoutRequest req \<and> a \<in> {None, Some ErrFanoutDatabase} \<and> fanned_out dbnow req db db')"
proof (cases "db' = db \<and> a \<noteq> None")
  case False
  with CreateFanout_row [OF assms(1)] obtain r tb ob v where
    w: "validateFanoutRequest req" "getResolutionTx (fq_TenantID req) (fq_ResolutionID req) (bd_res db) = Some r"
    "rs_Version r = fq_ExpectedResolutionVersion req" "rs_State r = ResolutionPlanning"
    "insert_tasks f 2 dbnow (fq_Tasks req) (bd_tasks db) = Some tb" "bigint_inc (rs_Version r) = Some v"
    "insertFanoutEvent (f (length (fq_Tasks req) + 4)) (f (length (fq_Tasks req) + 5)) jsonb (fq_Event req)
       (db_outbox (bd_res db)) = Inr ob"
    and db': "db' = \<lparr>bd_res = (bd_res db)\<lparr>db_resolutions := (db_resolutions (bd_res db))(fq_ResolutionID req \<mapsto>
       queued_row v (length (fq_Tasks req)) (fq_QueuedAt req) r), db_outbox := ob\<rparr>, bd_tasks = tb\<rparr>"
    and a: "a = None \<or> a = Some ErrFanoutDatabase"
    by blast
  have r: "db_resolutions (bd_res db) (fq_ResolutionID req) = Some r" "rs_TenantID r = fq_TenantID req"
    using w(2) by (auto simp: getResolutionTx_def split: option.splits if_splits)
  have "list_all (\<lambda>t. tk_State t \<in> {TaskStateOther '''', TaskQueued}) (fq_Tasks req)"
    using w(1) validateFanoutTasks_all [of req "[]" "fq_Tasks req"]
    by (auto simp: validateFanoutRequest_def list_all_iff)
  note tb = insert_tasks_Some [OF w(5) this]
  have ev: "bound_to (fq_Event req) r" "oe_Type (fq_Event req) = ''resolution.tasks_queued''"
    using w(1) r pgr_invD(2) [OF assms(2) r(1)]
    by (auto simp: validateFanoutRequest_def validateFanoutEvent_def bound_to_def)
  obtain e where e: "ob = db_outbox (bd_res db) @ [e]" "oe_ID e = oe_ID (fq_Event req)"
      "oe_ID e \<notin> oe_ID ` set (db_outbox (bd_res db))" "oe_Type e = ''resolution.tasks_queued''" "bound_to e r"
    using insertFanoutEvent_ok [OF w(7)] ev by auto
  have "fanned_out dbnow req db db'"
    unfolding fanned_out_def using r w(3,4) tb e w(6)
    by (intro exI [of _ r] exI [of _ e]) (simp add: db')
  then show ?thesis using w(1) a by auto
qed simp

section \<open>The whole database under interleaved calls\<close>

datatype broker_op =
    BResolution pgr_op
  | BTask pg_op
  | BFanout db_faults jsonb gotime fanout_request

fun broker_exec :: "broker_op \<Rightarrow> broker_db \<Rightarrow> broker_db" where
  "broker_exec (BResolution op) db = db\<lparr>bd_res := pgr_exec op (bd_res db)\<rparr>"
| "broker_exec (BTask op) db = db\<lparr>bd_tasks := pg_exec op (bd_tasks db)\<rparr>"
| "broker_exec (BFanout f jsonb dbnow req) db = snd (CreateFanout f jsonb dbnow req db)"

fun broker_legal :: "broker_op \<Rightarrow> bool" where
  "broker_legal (BTask op) = pg_legal op"
| "broker_legal _ = True"

definition broker_inv :: "broker_db \<Rightarrow> bool" where
  "broker_inv db \<longleftrightarrow> pgr_inv (bd_res db) \<and> table_ok (bd_tasks db)"

definition broker_create ::
  "pgr_env \<Rightarrow> resolution \<Rightarrow> outbox_event \<Rightarrow> broker_db \<Rightarrow> (resolution_error + resolution \<times> bool) \<times> broker_db" where
  "broker_create env r e db = (case pgr_create env r e (bd_res db) of (a, res') \<Rightarrow> (a, db\<lparr>bd_res := res'\<rparr>))"

definition empty_broker :: broker_db where
  "empty_broker = \<lparr>bd_res = empty_db, bd_tasks = Map.empty\<rparr>"

lemma empty_broker_inv: "broker_inv empty_broker"
  by (simp add: empty_broker_def broker_inv_def empty_db_inv)

lemma fanned_out_step:
  assumes "pgr_inv (bd_res db)" and "fanned_out dbnow req db db'"
  shows "workflow_step (pgr_abs (bd_res db)) (pgr_abs (bd_res db')) \<and> pgr_inv (bd_res db')"
proof -
  obtain r e where r: "db_resolutions (bd_res db) (fq_ResolutionID req) = Some r" "rs_State r = ResolutionPlanning"
      and e: "bound_to e r" "oe_ID e \<notin> oe_ID ` set (db_outbox (bd_res db))"
      and db': "bd_res db' = (bd_res db)\<lparr>db_resolutions := (db_resolutions (bd_res db))(fq_ResolutionID req \<mapsto>
        queued_row (rs_Version r + 1) (length (fq_Tasks req)) (fq_QueuedAt req) r), db_outbox := db_outbox (bd_res db) @ [e]\<rparr>"
    using assms(2) by (auto simp: fanned_out_def)
  have "rs_Version r \<le> 5" "\<not> rs_Completed r"
    using pgr_invD [OF assms(1) r(1)] r(2) by (auto simp: resolution_ok_def)
  then have "queued_row (rs_Version r + 1) (length (fq_Tasks req)) (fq_QueuedAt req) r =
      (advanced ResolutionQueued (max (normaliseTime (fq_QueuedAt req)) (rs_UpdatedAt r)) r)\<lparr>rs_TargetCount := int (length (fq_Tasks req))\<rparr>"
    by (simp add: queued_row_def advanced_def)
  then have step: "workflow_step (pgr_abs (bd_res db)) (pgr_abs (bd_res db'))"
    using workflow_step.change [of "pgr_abs (bd_res db)" _ r _ e] r e
      resolution_step.queue [OF r(2), of "max (normaliseTime (fq_QueuedAt req)) (rs_UpdatedAt r)"]
    by (simp add: db' pgr_abs_def)
  then show ?thesis using assms(1) workflow_step_ok e(2) by (auto simp: pgr_inv_def db')
qed

lemma validated_tasks:
  assumes "validateFanoutRequest req"
  shows "distinct (map tk_ID (fq_Tasks req))"
    and "t \<in> set (fq_Tasks req) \<Longrightarrow> validateDurableTask t = None \<and> tk_TenantID t = fq_TenantID req \<and>
      tk_ResolutionID t = fq_ResolutionID req"
  using validateFanoutTasks_all [of req "[]" "fq_Tasks req"] assms
  by (auto simp: validateFanoutRequest_def list_all_iff)

lemma queued_task_row:
  "validateDurableTask t = None \<Longrightarrow> row_ok (tk_ID t) (new_task_row dbnow (queued_task t))"
  using new_task_row_ok [of "queued_task t" dbnow] by (simp add: queued_task_def)

lemma fan_tasks_cases:
  assumes "distinct (map tk_ID ts)"
  obtains "fan_tasks dbnow ts tb i = tb i" "i \<notin> tk_ID ` set ts"
    | t where "t \<in> set ts" "i = tk_ID t" "fan_tasks dbnow ts tb i = Some (new_task_row dbnow (queued_task t))"
  using fan_tasks_other [of i ts dbnow tb] fan_tasks_new [OF assms, of _ dbnow tb] by (cases "i \<in> tk_ID ` set ts") auto

lemma fanned_out_tasks:
  assumes "fanned_out dbnow req db db'" and "validateFanoutRequest req" and "table_ok (bd_tasks db)"
  shows "table_ok (bd_tasks db') \<and> task_evolves i (task_view (bd_tasks db) i) (task_view (bd_tasks db') i)"
proof -
  have tb: "bd_tasks db' = fan_tasks dbnow (fq_Tasks req) (bd_tasks db)"
    and none: "t \<in> set (fq_Tasks req) \<Longrightarrow> bd_tasks db (tk_ID t) = None" for t
    using assms(1) by (auto simp: fanned_out_def)
  note d = validated_tasks(1) [OF assms(2)] and v = validated_tasks(2) [OF assms(2)]
  have ok: "row_ok j r" if "bd_tasks db' j = Some r" for j r
    by (rule fan_tasks_cases [OF d, of dbnow "bd_tasks db" j])
      (use that tb v assms(3) queued_task_row in \<open>auto simp: table_ok_def\<close>)
  moreover have "task_evolves i (task_view (bd_tasks db) i) (task_view (bd_tasks db') i)"
  proof (rule fan_tasks_cases [OF d, of dbnow "bd_tasks db" i])
    fix t assume t: "t \<in> set (fq_Tasks req)" "i = tk_ID t"
      "fan_tasks dbnow (fq_Tasks req) (bd_tasks db) i = Some (new_task_row dbnow (queued_task t))"
    have "task_ok i (scanTask (new_task_row dbnow (queued_task t)))"
      using row_ok_task_ok [OF queued_task_row] v [OF t(1)] t(2) by simp
    then show ?thesis
      using t none [OF t(1)] new_task_row_fresh [of dbnow "queued_task t"] tb
      by (auto simp: task_view_def task_evolves_def queued_task_def task_ok_def)
  qed (simp add: tb task_view_def)
  ultimately show ?thesis by (simp add: table_ok_def)
qed

lemma broker_fanout_cases:
  assumes "broker_inv db"
  obtains "snd (CreateFanout f jsonb dbnow req db) = db"
    | "fanned_out dbnow req db (snd (CreateFanout f jsonb dbnow req db))" "validateFanoutRequest req"
  using CreateFanout_effect [of f jsonb dbnow req db] assms
  by (cases "CreateFanout f jsonb dbnow req db") (auto simp: broker_inv_def)

lemma broker_exec_inv:
  assumes "broker_inv db" and "broker_legal op"
  shows "broker_inv (broker_exec op db)"
proof (cases op)
  case (BFanout f jsonb dbnow req)
  show ?thesis
    by (rule broker_fanout_cases [OF assms(1), of f jsonb dbnow req])
      (use assms(1) fanned_out_step fanned_out_tasks BFanout in \<open>auto simp: broker_inv_def\<close>)
qed (use assms durable.exec_inv pg.exec_inv in \<open>auto simp: broker_inv_def\<close>)

interpretation broker_res: resolution_store "\<lambda>db. pgr_abs (bd_res db)" broker_exec broker_legal broker_inv
  broker_create "\<lambda>env r e. BResolution (PgrCreate env r e)" "\<lambda>_. True"
proof unfold_locales
  fix db op assume "broker_inv db" "broker_legal op"
  then show "broker_inv (broker_exec op db)" by (rule broker_exec_inv)
next
  fix db op assume inv: "broker_inv db" and "broker_legal op"
  show "pgr_abs (bd_res (broker_exec op db)) = pgr_abs (bd_res db) \<or>
      workflow_step (pgr_abs (bd_res db)) (pgr_abs (bd_res (broker_exec op db)))"
  proof (cases op)
    case (BFanout f jsonb dbnow req)
    show ?thesis by (rule broker_fanout_cases [OF inv, of f jsonb dbnow req])
      (use inv fanned_out_step BFanout in \<open>auto simp: broker_inv_def\<close>)
  qed (use inv pgr_exec_step in \<open>auto simp: broker_inv_def\<close>)
next
  fix db r env e x db' assume "broker_inv db" "broker_create env r e db = (Inr (x, True), db')"
  then show "wf_keys (pgr_abs (bd_res db)) (key_of r) = None \<and>
      wf_keys (pgr_abs (bd_res db')) (key_of r) = Some (rs_RequestDigest r, rs_ID x)"
    using durable.create_new [of "bd_res db" env r e x] by (auto simp: broker_create_def broker_inv_def split: prod.splits)
next
  fix db r env e x db' assume "broker_inv db" "broker_create env r e db = (Inr (x, False), db')"
  then show "pgr_abs (bd_res db') = pgr_abs (bd_res db) \<and>
      wf_keys (pgr_abs (bd_res db)) (key_of r) = Some (rs_RequestDigest r, rs_ID x) \<and>
      wf_resolutions (pgr_abs (bd_res db)) (rs_ID x) = Some x"
    using durable.create_replay [of "bd_res db" env r e x] by (auto simp: broker_create_def broker_inv_def split: prod.splits)
qed (auto simp: broker_inv_def pgr_inv_def broker_create_def split: prod.splits)

interpretation broker_tasks: fenced_tasks "\<lambda>db. task_view (bd_tasks db)" broker_exec broker_legal broker_inv
proof unfold_locales
  fix db op i assume inv: "broker_inv db" and legal: "broker_legal op"
  show "task_evolves i (task_view (bd_tasks db) i) (task_view (bd_tasks (broker_exec op db)) i)"
  proof (cases op)
    case (BFanout f jsonb dbnow req)
    show ?thesis by (rule broker_fanout_cases [OF inv, of f jsonb dbnow req])
      (use inv fanned_out_tasks BFanout in \<open>auto simp: broker_inv_def\<close>)
  qed (use inv legal pg.exec_evolves in \<open>auto simp: broker_inv_def\<close>)
qed (use broker_exec_inv pg.view_ok in \<open>auto simp: broker_inv_def\<close>)

section \<open>Guarantees of the fan-out\<close>

lemma broker_run_inv: "list_all broker_legal ops \<Longrightarrow> broker_inv (fold broker_exec ops empty_broker)"
  by (rule broker_res.run_inv [OF empty_broker_inv])

lemma queued_task_view:
  "task_view tb i = Some (scanTask (new_task_row dbnow (queued_task t))) \<Longrightarrow>
     map_option task_identity (task_view tb i) = Some (task_identity t) \<and> map_option tk_State (task_view tb i) = Some TaskQueued \<and>
     map_option tk_FencingToken (task_view tb i) = Some 0"
  by (simp add: scanTask_def new_task_row_def queued_task_def task_identity_def)

lemma fanned_out_resolution:
  "fanned_out dbnow req db db' \<Longrightarrow>
    \<exists>r r' e. db_resolutions (bd_res db) (fq_ResolutionID req) = Some r \<and> rs_State r = ResolutionPlanning \<and>
      rs_TenantID r = fq_TenantID req \<and> rs_Version r = fq_ExpectedResolutionVersion req \<and>
      db_resolutions (bd_res db') = (db_resolutions (bd_res db))(fq_ResolutionID req \<mapsto> r') \<and>
      rs_State r' = ResolutionQueued \<and> rs_Version r' = rs_Version r + 1 \<and>
      rs_TargetCount r' = int (length (fq_Tasks req)) \<and>
      db_outbox (bd_res db') = db_outbox (bd_res db) @ [e] \<and> bound_to e r'"
  unfolding fanned_out_def
  by (elim exE conjE)
    (intro exI conjI, assumption+, (simp add: queued_row_def bound_to_def)+)

text \<open>
  C9. A fan-out is all or nothing on every reachable database and under every pattern of driver
  errors.  Either nothing changed and an error is returned, or the resolution moved from planning at
  the expected version to queued with the task count, every requested task exists as a fresh queued
  task where there was none, no other task changed and one event was appended; that second outcome
  is reported as success unless the reply to the commit was lost.
\<close>

theorem fanout_atomic:
  assumes "list_all broker_legal ops" and "db = fold broker_exec ops empty_broker"
    and "CreateFanout f jsonb dbnow req db = (a, db')"
  shows "db' = db \<and> a \<noteq> None \<or>
    (a \<in> {None, Some ErrFanoutDatabase} \<and>
     (\<exists>r r' e. db_resolutions (bd_res db) (fq_ResolutionID req) = Some r \<and> rs_State r = ResolutionPlanning \<and>
        rs_TenantID r = fq_TenantID req \<and> rs_Version r = fq_ExpectedResolutionVersion req \<and>
        db_resolutions (bd_res db') = (db_resolutions (bd_res db))(fq_ResolutionID req \<mapsto> r') \<and>
        rs_State r' = ResolutionQueued \<and> rs_Version r' = rs_Version r + 1 \<and>
        rs_TargetCount r' = int (length (fq_Tasks req)) \<and>
        db_outbox (bd_res db') = db_outbox (bd_res db) @ [e] \<and> bound_to e r') \<and>
     (\<forall>t \<in> set (fq_Tasks req). bd_tasks db (tk_ID t) = None \<and>
        map_option task_identity (task_view (bd_tasks db') (tk_ID t)) = Some (task_identity t) \<and>
        map_option tk_State (task_view (bd_tasks db') (tk_ID t)) = Some TaskQueued \<and>
        map_option tk_FencingToken (task_view (bd_tasks db') (tk_ID t)) = Some 0) \<and>
     (\<forall>i. i \<notin> tk_ID ` set (fq_Tasks req) \<longrightarrow> bd_tasks db' i = bd_tasks db i))"
proof -
  have "pgr_inv (bd_res db)" using broker_run_inv [OF assms(1)] assms(2) by (simp add: broker_inv_def)
  note eff = CreateFanout_effect [OF assms(3) this]
  show ?thesis
  proof (cases "db' = db \<and> a \<noteq> None")
    case False
    with eff have v: "validateFanoutRequest req" "a \<in> {None, Some ErrFanoutDatabase}" and out: "fanned_out dbnow req db db'"
      by auto
    have tb: "bd_tasks db' = fan_tasks dbnow (fq_Tasks req) (bd_tasks db)"
      and none: "\<forall>t \<in> set (fq_Tasks req). bd_tasks db (tk_ID t) = None"
      using out by (auto simp: fanned_out_def)
    have "task_view (bd_tasks db') (tk_ID t) = Some (scanTask (new_task_row dbnow (queued_task t)))"
      if "t \<in> set (fq_Tasks req)" for t
      using fan_tasks_new [OF validated_tasks(1) [OF v(1)] that] by (simp add: tb task_view_def)
    then have "\<forall>t \<in> set (fq_Tasks req). bd_tasks db (tk_ID t) = None \<and>
        map_option task_identity (task_view (bd_tasks db') (tk_ID t)) = Some (task_identity t) \<and>
        map_option tk_State (task_view (bd_tasks db') (tk_ID t)) = Some TaskQueued \<and>
        map_option tk_FencingToken (task_view (bd_tasks db') (tk_ID t)) = Some 0"
      using none queued_task_view by blast
    moreover have "\<forall>i. i \<notin> tk_ID ` set (fq_Tasks req) \<longrightarrow> bd_tasks db' i = bd_tasks db i"
      by (simp add: tb fan_tasks_other)
    ultimately show ?thesis using fanned_out_resolution [OF out] v(2) by blast
  qed simp
qed

text \<open>
  C10. Concurrent planners: once a fan-out of a resolution at some version has committed,
  whatever happens in between, no other fan-out of that resolution at the same version ever succeeds or
  writes anything.
\<close>

theorem fanout_single_winner:
  assumes "list_all broker_legal (ops @ later)" and "db = fold broker_exec ops empty_broker"
    and "snd (CreateFanout f jsonb dbnow req db) \<noteq> db"
    and "db2 = fold broker_exec later (snd (CreateFanout f jsonb dbnow req db))"
    and "fq_ResolutionID req' = fq_ResolutionID req"
    and "fq_ExpectedResolutionVersion req' = fq_ExpectedResolutionVersion req"
  shows "\<exists>x. CreateFanout f' jsonb' dbnow' req' db2 = (Some x, db2)"
proof -
  let ?db1 = "snd (CreateFanout f jsonb dbnow req db)"
  have inv: "broker_inv db" using broker_run_inv assms(1,2) by simp
  have inv1: "broker_inv ?db1" using broker_exec_inv [OF inv, of "BFanout f jsonb dbnow req"] by simp
  have legal: "list_all broker_legal later" using assms(1) by simp
  have inv2: "broker_inv db2" unfolding assms(4) by (rule broker_res.run_inv [OF inv1 legal])
  obtain a where a: "CreateFanout f jsonb dbnow req db = (a, ?db1)" by (metis prod.collapse)
  with CreateFanout_effect [OF a] inv assms(3) have "fanned_out dbnow req db ?db1" by (auto simp: broker_inv_def)
  then obtain r1 where r1: "db_resolutions (bd_res ?db1) (fq_ResolutionID req) = Some r1"
      "rs_Version r1 = fq_ExpectedResolutionVersion req + 1"
    by (auto simp: fanned_out_def queued_row_def)
  then obtain r2 where r2: "db_resolutions (bd_res db2) (fq_ResolutionID req) = Some r2" "rs_Version r1 \<le> rs_Version r2"
    using broker_res.run_resolution [OF inv1 legal, of "fq_ResolutionID req" r1] assms(4) by auto
  obtain a' db3 where c: "CreateFanout f' jsonb' dbnow' req' db2 = (a', db3)" by fastforce
  have "\<not> fanned_out dbnow' req' db2 db3" using r1(2) r2 assms(5,6) by (auto simp: fanned_out_def)
  then show ?thesis using CreateFanout_effect [OF c] inv2 c by (cases a') (auto simp: broker_inv_def)
qed

text \<open>
  C11. The workflow counters stay far from overflow: in every reachable database a resolution's version is
  between 1 and 5 and, before it is terminal, is its stage; exactly that many events of it are
  in the outbox, and event identifiers are unique.
\<close>

theorem workflow_versions_bounded:
  assumes "list_all broker_legal ops" and "db = fold broker_exec ops empty_broker"
    and "db_resolutions (bd_res db) i = Some r"
  shows "1 \<le> rs_Version r \<and> rs_Version r \<le> 5 \<and> (\<not> Terminal (rs_State r) \<longrightarrow> rs_Version r = stage (rs_State r)) \<and>
    int (length (filter (\<lambda>e. bound_to e r) (db_outbox (bd_res db)))) = rs_Version r \<and>
    distinct (map oe_ID (db_outbox (bd_res db)))"
proof -
  have inv: "pgr_inv (bd_res db)" using broker_run_inv [OF assms(1)] assms(2) by (simp add: broker_inv_def)
  have "workflow_logged (pgr_abs (bd_res db))" unfolding assms(2)
    by (rule broker_res.run_logged [OF empty_broker_inv assms(1)]) (simp add: empty_broker_def empty_db_inv)
  then have "int (length (filter (\<lambda>e. bound_to e r) (db_outbox (bd_res db)))) = rs_Version r"
    using assms(3) by (simp add: workflow_logged_def)
  then show ?thesis using pgr_invD [OF inv assms(3)] inv by (auto simp: resolution_ok_def pgr_inv_def)
qed

text \<open>C12. A terminal resolution is final: no later call of any kind changes its row.\<close>

theorem terminal_resolution_final:
  assumes "list_all broker_legal (ops @ later)" and "db = fold broker_exec ops empty_broker"
    and "db_resolutions (bd_res db) i = Some r" and "Terminal (rs_State r)"
  shows "db_resolutions (bd_res (fold broker_exec later db)) i = Some r"
  using broker_res.run_terminal [of db later i r] broker_run_inv [of ops] assms by simp

text \<open>
  C13. A queued resolution keeps its tasks: once a fan-out has written, whether or not its reply
  arrived, then after any further calls of any kind (also direct inserts of tasks, transitions and
  other fan-outs) the resolution still records the number of its requested tasks, at least one, and
  each requested task is still in the task table, under its own identifier, with the tenant,
  resolution, target, recipe and decisions it was requested with.
\<close>

theorem queued_resolution_has_its_tasks:
  assumes "list_all broker_legal (ops @ later)" and "db = fold broker_exec ops empty_broker"
    and "snd (CreateFanout f jsonb dbnow req db) \<noteq> db"
    and "db2 = fold broker_exec later (snd (CreateFanout f jsonb dbnow req db))"
  shows "(\<exists>r. db_resolutions (bd_res db2) (fq_ResolutionID req) = Some r \<and> rs_TargetCount r = int (length (fq_Tasks req))) \<and>
    fq_Tasks req \<noteq> [] \<and> distinct (map tk_ID (fq_Tasks req)) \<and>
    (\<forall>t \<in> set (fq_Tasks req). tk_TenantID t = fq_TenantID req \<and> tk_ResolutionID t = fq_ResolutionID req \<and>
       map_option task_identity (task_view (bd_tasks db2) (tk_ID t)) = Some (task_identity t))"
proof -
  let ?db1 = "snd (CreateFanout f jsonb dbnow req db)"
  have inv: "broker_inv db" using broker_run_inv assms(1,2) by simp
  have inv1: "broker_inv ?db1" using broker_exec_inv [OF inv, of "BFanout f jsonb dbnow req"] by simp
  have legal: "list_all broker_legal later" using assms(1) by simp
  obtain a where a: "CreateFanout f jsonb dbnow req db = (a, ?db1)" by (metis prod.collapse)
  with CreateFanout_effect [OF a] inv assms(3) have out: "fanned_out dbnow req db ?db1" and v: "validateFanoutRequest req"
    by (auto simp: broker_inv_def)
  obtain r1 where r1: "db_resolutions (bd_res ?db1) (fq_ResolutionID req) = Some r1" "rs_State r1 = ResolutionQueued"
      "rs_TargetCount r1 = int (length (fq_Tasks req))"
    using fanned_out_resolution [OF out] by auto
  then obtain r2 where r2: "db_resolutions (bd_res db2) (fq_ResolutionID req) = Some r2" "rs_TargetCount r2 = rs_TargetCount r1"
    using broker_res.run_count [OF inv1 legal, of "fq_ResolutionID req" r1] assms(4) by auto
  have "map_option task_identity (task_view (bd_tasks db2) (tk_ID t)) = Some (task_identity t)" if t: "t \<in> set (fq_Tasks req)" for t
  proof -
    have "task_view (bd_tasks ?db1) (tk_ID t) = Some (scanTask (new_task_row dbnow (queued_task t)))"
      using out fan_tasks_new [OF validated_tasks(1) [OF v] t] by (auto simp: fanned_out_def task_view_def)
    then show ?thesis
      using broker_tasks.run_keeps_task [OF inv1 legal, of "tk_ID t"] queued_task_view [of "bd_tasks ?db1" "tk_ID t" dbnow t] assms(4)
      by fastforce
  qed
  moreover have "fq_Tasks req \<noteq> []" using v by (auto simp: validateFanoutRequest_def)
  ultimately show ?thesis using r2 r1(3) validated_tasks [OF v] by simp
qed

section \<open>Planning authority\<close>

lemma bind_tasks_Some:
  "bind_tasks t r ts = Some ts' \<Longrightarrow> length ts' = length ts \<and>
     list_all (\<lambda>x. tk_TenantID x = t \<and> tk_ResolutionID x = r \<and> tk_State x = TaskQueued) ts'"
  by (induction ts arbitrary: ts') (auto split: if_splits)

definition planned_fanout ::
  "(fanout_request \<Rightarrow> 'w \<Rightarrow> fanout_error option \<times> 'w) \<Rightarrow> auth_context \<Rightarrow> queue_request \<Rightarrow> 'w \<Rightarrow> fanout_error option \<Rightarrow> 'w \<Rightarrow> bool" where
  "planned_fanout fan actor req w x w' \<longleftrightarrow>
     (\<exists>fq. fan fq w = (x, w') \<and> fq_TenantID fq = ac_TenantID actor \<and> fq_ResolutionID fq = qr_ResolutionID req \<and>
        fq_ExpectedResolutionVersion fq = qr_ExpectedResolutionVersion req)"

lemma planned_fanoutI:
  "fan \<lparr>fq_TenantID = ac_TenantID actor, fq_ResolutionID = qr_ResolutionID req,
     fq_ExpectedResolutionVersion = qr_ExpectedResolutionVersion req, fq_Tasks = ts, fq_Event = e, fq_QueuedAt = now\<rparr> w = (x, w') \<Longrightarrow>
   planned_fanout fan actor req w x w'"
  unfolding planned_fanout_def by (rule exI, rule conjI, assumption) simp

lemma planning_Queue_effect:
  assumes "planning_Queue fan now newID marshal actor req w = (a, w')"
  shows "(w' = w \<and> (\<nexists>x. a = Inr x)) \<or>
    (AuthContext_Validate actor \<and> queueScope \<in> set (ac_AllowedScopes actor) \<and> length (qr_Tasks req) \<le> maximumTasksPerRequest \<and>
     (\<exists>x. planned_fanout fan actor req w x w' \<and>
        a = (case x of Some e \<Rightarrow> Inl (PlanningFanout e) | None \<Rightarrow> Inr \<lparr>qres_ResolutionID = qr_ResolutionID req,
          qres_Version = int64_inc (qr_ExpectedResolutionVersion req), qres_TaskCount = int (length (qr_Tasks req))\<rparr>)))"
  using assms unfolding planning_Queue_def
  by (auto dest!: bind_tasks_Some planned_fanoutI split: if_splits option.splits prod.splits)

text \<open>
  C14. Planning authority: a queue call that writes or succeeds was made by a valid identity with
  the planning scope, for a resolution of that identity's own tenant that was in planning at the
  expected version; every task it created belongs to that tenant and resolution and is queued.
  The acknowledged version is the stored one.
\<close>

theorem planning_stays_in_tenant:
  assumes "list_all broker_legal ops" and "db = fold broker_exec ops empty_broker"
    and "planning_Queue (CreateFanout f jsonb dbnow) now newID marshal actor req db = (a, db')"
    and "db' \<noteq> db \<or> a = Inr res"
  shows "AuthContext_Validate actor \<and> ''resolutions:plan'' \<in> set (ac_AllowedScopes actor) \<and> length (qr_Tasks req) \<le> 1000 \<and>
    (\<exists>r r'. db_resolutions (bd_res db) (qr_ResolutionID req) = Some r \<and> rs_TenantID r = ac_TenantID actor \<and>
       rs_State r = ResolutionPlanning \<and> rs_Version r = qr_ExpectedResolutionVersion req \<and>
       db_resolutions (bd_res db') = (db_resolutions (bd_res db))(qr_ResolutionID req \<mapsto> r') \<and>
       (a = Inr res \<longrightarrow> qres_Version res = rs_Version r')) \<and>
    (\<forall>i. bd_tasks db' i \<noteq> bd_tasks db i \<longrightarrow> (\<exists>t. task_view (bd_tasks db') i = Some t \<and>
       tk_TenantID t = ac_TenantID actor \<and> tk_ResolutionID t = qr_ResolutionID req \<and> tk_State t = TaskQueued))"
proof -
  obtain fq x where q: "AuthContext_Validate actor" "queueScope \<in> set (ac_AllowedScopes actor)"
      "length (qr_Tasks req) \<le> maximumTasksPerRequest" "CreateFanout f jsonb dbnow fq db = (x, db')"
      "fq_TenantID fq = ac_TenantID actor" "fq_ResolutionID fq = qr_ResolutionID req"
      "fq_ExpectedResolutionVersion fq = qr_ExpectedResolutionVersion req"
      "a = (case x of Some e \<Rightarrow> Inl (PlanningFanout e) | None \<Rightarrow> Inr \<lparr>qres_ResolutionID = qr_ResolutionID req,
        qres_Version = int64_inc (qr_ExpectedResolutionVersion req), qres_TaskCount = int (length (qr_Tasks req))\<rparr>)"
    using planning_Queue_effect [OF assms(3)] assms(4) unfolding planned_fanout_def by blast
  have inv: "pgr_inv (bd_res db)" using broker_run_inv [OF assms(1)] assms(2) by (simp add: broker_inv_def)
  have "x = None \<or> db' \<noteq> db" using assms(4) q(8) by (auto split: option.splits)
  then have out: "validateFanoutRequest fq" "fanned_out dbnow fq db db'" using CreateFanout_effect [OF q(4) inv] by auto
  have "\<exists>r r'. db_resolutions (bd_res db) (qr_ResolutionID req) = Some r \<and> rs_TenantID r = ac_TenantID actor \<and>
       rs_State r = ResolutionPlanning \<and> rs_Version r = qr_ExpectedResolutionVersion req \<and>
       db_resolutions (bd_res db') = (db_resolutions (bd_res db))(qr_ResolutionID req \<mapsto> r') \<and>
       rs_Version r' = rs_Version r + 1"
    using fanned_out_resolution [OF out(2)] q(5-7) by auto
  then obtain r r' where r: "db_resolutions (bd_res db) (qr_ResolutionID req) = Some r" "rs_TenantID r = ac_TenantID actor"
       "rs_State r = ResolutionPlanning" "rs_Version r = qr_ExpectedResolutionVersion req"
       "db_resolutions (bd_res db') = (db_resolutions (bd_res db))(qr_ResolutionID req \<mapsto> r')" "rs_Version r' = rs_Version r + 1"
    by blast
  have "rs_Version r \<le> 5" using pgr_invD(2) [OF inv r(1)] by simp
  then have v: "a = Inr res \<longrightarrow> qres_Version res = rs_Version r'" using q(8) r(4,6) by (auto split: option.splits)
  have tb: "bd_tasks db' = fan_tasks dbnow (fq_Tasks fq) (bd_tasks db)" using out(2) by (auto simp: fanned_out_def)
  have "\<exists>t. task_view (bd_tasks db') i = Some t \<and> tk_TenantID t = ac_TenantID actor \<and>
      tk_ResolutionID t = qr_ResolutionID req \<and> tk_State t = TaskQueued" if "bd_tasks db' i \<noteq> bd_tasks db i" for i
  proof (rule fan_tasks_cases [OF validated_tasks(1) [OF out(1)], of dbnow "bd_tasks db" i])
    fix t assume "t \<in> set (fq_Tasks fq)"
      "fan_tasks dbnow (fq_Tasks fq) (bd_tasks db) i = Some (new_task_row dbnow (queued_task t))"
    then show ?thesis using validated_tasks(2) [OF out(1), of t] q(5,6) tb
      by (simp add: task_view_def scanTask_def new_task_row_def queued_task_def)
  qed (use that tb in simp)
  then show ?thesis using q(1-3) r v by (auto simp: queueScope_def maximumTasksPerRequest_def)
qed

section \<open>An example run\<close>

definition example_move :: "int \<Rightarrow> resolution_state \<Rightarrow> resolution_state \<Rightarrow> string \<Rightarrow> broker_op" where
  "example_move v s n eid = BResolution (PgrTransition (\<lambda>_. CallOK) Some ''acme'' ''r1'' v s n 6000
     (example_event eid ''r1'' ''resolution.state_changed''))"

definition example_planning :: "broker_op list" where
  "example_planning =
     [BResolution (PgrCreate (\<lambda>_. CallOK, Some, example_pg_codec) (example_resolution ''r1'')
        (example_event ''e1'' ''r1'' ''resolution.received'')),
      example_move 1 ResolutionReceived ResolutionResolvingTargets ''e2'',
      example_move 2 ResolutionResolvingTargets ResolutionPlanning ''e3'']"

definition example_fanout :: fanout_request where
  "example_fanout = \<lparr>fq_TenantID = ''acme'', fq_ResolutionID = ''r1'', fq_ExpectedResolutionVersion = 3,
     fq_Tasks = [example_task], fq_Event = (example_event ''e4'' ''r1'' ''resolution.tasks_queued''), fq_QueuedAt = 5000\<rparr>"

definition example_queued :: "broker_op list" where
  "example_queued = example_planning @ [BFanout (\<lambda>_. CallOK) Some 7000 example_fanout]"

definition example_planned_row :: resolution where
  "example_planned_row = (example_resolution ''r1'')\<lparr>rs_State := ResolutionPlanning, rs_Version := 3, rs_UpdatedAt := 6000\<rparr>"

definition example_planned :: broker_db where
  "example_planned = \<lparr>bd_res = example_db\<lparr>db_resolutions := [''r1'' \<mapsto> example_planned_row],
     db_outbox := [example_event ''e1'' ''r1'' ''resolution.received'', example_event ''e2'' ''r1'' ''resolution.state_changed'',
       example_event ''e3'' ''r1'' ''resolution.state_changed'']\<rparr>, bd_tasks = Map.empty\<rparr>"

lemmas example_workflow_simps =
  example_create_simps PGR_Transition_def transition_row_def ValidateTransition_def

lemma example_planning_run: "fold broker_exec example_planning empty_broker = example_planned"
  by (simp add: example_planning_def example_planned_def example_planned_row_def empty_broker_def example_move_def
      example_workflow_simps Let_def)

lemma example_fanout_run:
  "CreateFanout (\<lambda>_. CallOK) Some 7000 example_fanout example_planned =
     (None, \<lparr>bd_res = (bd_res example_planned)\<lparr>db_resolutions := [''r1'' \<mapsto> queued_row 4 1 5000 example_planned_row],
        db_outbox := db_outbox (bd_res example_planned) @ [example_event ''e4'' ''r1'' ''resolution.tasks_queued'']\<rparr>,
      bd_tasks = [''t1'' \<mapsto> new_task_row 7000 example_task]\<rparr>)"
  by (simp add: CreateFanout_def example_fanout_def validateFanoutRequest_def validateFanoutEvent_def example_planned_def
      example_planned_row_def example_workflow_simps example_task_def validateDurableTask_def insertTaskTx_def Let_def
      insertFanoutEvent_def)
lemma example_legal: "list_all broker_legal example_planning" "list_all broker_legal example_queued"
  by (simp_all add: example_planning_def example_queued_def example_move_def)

lemma example_queued_run:
  "fold broker_exec example_queued empty_broker = snd (CreateFanout (\<lambda>_. CallOK) Some 7000 example_fanout example_planned)"
  by (simp add: example_queued_def example_planning_run)

theorem fanout_atomic_witness:
  "\<exists>db'. CreateFanout (\<lambda>_. CallOK) Some 7000 example_fanout example_planned = (None, db') \<and>
     map_option tk_State (task_view (bd_tasks db') ''t1'') = Some TaskQueued"
  using fanout_atomic [OF example_legal(1) example_planning_run [symmetric] example_fanout_run]
  unfolding example_fanout_run by (simp add: example_fanout_def example_task_def)

theorem fanout_single_winner_witness:
  "\<exists>x. CreateFanout (\<lambda>_. CallOK) Some 9000 (example_fanout\<lparr>fq_Tasks := [example_task\<lparr>tk_ID := ''t2''\<rparr>]\<rparr>)
     (snd (CreateFanout (\<lambda>_. CallOK) Some 7000 example_fanout example_planned)) =
     (Some x, snd (CreateFanout (\<lambda>_. CallOK) Some 7000 example_fanout example_planned))"
proof -
  have "snd (CreateFanout (\<lambda>_. CallOK) Some 7000 example_fanout example_planned) \<noteq> example_planned"
    unfolding example_fanout_run by (auto simp: example_planned_def)
  then show ?thesis
    by (intro fanout_single_winner [of example_planning "[]" example_planned "\<lambda>_. CallOK" Some 7000 example_fanout])
      (use example_legal(1) example_planning_run in auto)
qed

lemma example_queued_row:
  "db_resolutions (bd_res (fold broker_exec example_queued empty_broker)) ''r1'' = Some (queued_row 4 1 5000 example_planned_row)"
  by (simp add: example_queued_run example_fanout_run)

theorem workflow_versions_bounded_witness:
  "length (filter (\<lambda>e. bound_to e (queued_row 4 1 5000 example_planned_row))
     (db_outbox (bd_res (fold broker_exec example_queued empty_broker)))) = 4"
  using workflow_versions_bounded [OF example_legal(2) refl example_queued_row] by (simp add: queued_row_def)

definition example_cancel :: broker_op where
  "example_cancel = example_move 4 ResolutionQueued ResolutionCancelled ''e5''"

lemma example_cancelled_row:
  "\<exists>r. db_resolutions (bd_res (fold broker_exec (example_queued @ [example_cancel]) empty_broker)) ''r1'' = Some r \<and>
     rs_State r = ResolutionCancelled"
proof -
  have "fold broker_exec (example_queued @ [example_cancel]) empty_broker =
      broker_exec example_cancel (snd (CreateFanout (\<lambda>_. CallOK) Some 7000 example_fanout example_planned))"
    by (simp add: example_queued_run)
  then show ?thesis unfolding example_fanout_run
    by (simp add: example_cancel_def example_move_def example_planned_def
      example_planned_row_def queued_row_def example_workflow_simps Let_def normaliseTime_def)
qed

theorem terminal_resolution_final_witness:
  "\<exists>r. db_resolutions (bd_res (fold broker_exec [BFanout (\<lambda>_. CallOK) Some 9000 example_fanout]
      (fold broker_exec (example_queued @ [example_cancel]) empty_broker))) ''r1'' = Some r \<and> rs_State r = ResolutionCancelled"
proof -
  obtain r where r: "db_resolutions (bd_res (fold broker_exec (example_queued @ [example_cancel]) empty_broker)) ''r1'' = Some r"
    "rs_State r = ResolutionCancelled" using example_cancelled_row by blast
  have l: "list_all broker_legal ((example_queued @ [example_cancel]) @ [BFanout (\<lambda>_. CallOK) Some 9000 example_fanout])"
    using example_legal(2) by (simp add: example_cancel_def example_move_def)
  have "Terminal (rs_State r)" using r(2) by simp
  from terminal_resolution_final [OF l refl r(1) this] r(2) show ?thesis by blast
qed

theorem queued_resolution_has_its_tasks_witness:
  "map_option task_identity (task_view (bd_tasks (fold broker_exec [example_cancel]
      (snd (CreateFanout (\<lambda>_. CallOK) Some 7000 example_fanout example_planned)))) ''t1'') = Some (task_identity example_task)"
proof -
  have "snd (CreateFanout (\<lambda>_. CallOK) Some 7000 example_fanout example_planned) \<noteq> example_planned"
    unfolding example_fanout_run by (auto simp: example_planned_def)
  moreover have "list_all broker_legal (example_planning @ [example_cancel])"
    using example_legal(1) by (simp add: example_cancel_def example_move_def)
  moreover have "fq_Tasks example_fanout = [example_task]" "tk_ID example_task = ''t1''"
    by (simp_all add: example_fanout_def example_task_def)
  ultimately show ?thesis
    using queued_resolution_has_its_tasks [OF _ example_planning_run [symmetric], of "[example_cancel]" "\<lambda>_. CallOK" Some 7000 example_fanout]
    by simp
qed

definition example_planner :: auth_context where
  "example_planner = \<lparr>ac_SubjectID = ''planner'', ac_SPIFFEID = '''', ac_TenantID = ''acme'', ac_Roles = [],
     ac_AllowedScopes = [''resolutions:plan''], ac_DataClearances = [], ac_CredentialClass = '''', ac_AuthenticatedAt = 1,
     ac_IdentityRevision = ''''\<rparr>"

definition example_plan :: queue_request where
  "example_plan = \<lparr>qr_ResolutionID = ''r1'', qr_ExpectedResolutionVersion = 3, qr_Tasks = [example_task\<lparr>tk_TenantID := ''''\<rparr>]\<rparr>"

lemma example_plan_fanout:
  "planning_Queue (CreateFanout (\<lambda>_. CallOK) Some 7000) 5000 (Some ''e4'') (\<lambda>_. Some ''{}'') example_planner example_plan example_planned =
     (Inr \<lparr>qres_ResolutionID = ''r1'', qres_Version = 4, qres_TaskCount = 1\<rparr>,
      snd (CreateFanout (\<lambda>_. CallOK) Some 7000 example_fanout example_planned))"
proof -
  have t: "example_task\<lparr>tk_TenantID := ''acme'', tk_ResolutionID := ''r1'', tk_State := TaskQueued\<rparr> = example_task"
    and b: "tk_ResolutionID example_task = ''r1''"
    by (simp_all add: example_task_def)
  have fq: "\<lparr>fq_TenantID = ''acme'', fq_ResolutionID = ''r1'', fq_ExpectedResolutionVersion = 3, fq_Tasks = [example_task],
      fq_Event = \<lparr>oe_ID = ''e4'', oe_TenantID = ''acme'', oe_AggregateType = ''resolution'', oe_AggregateID = ''r1'',
        oe_Type = ''resolution.tasks_queued'', oe_Payload = ''{}'', oe_OccurredAt = 5000\<rparr>, fq_QueuedAt = 5000\<rparr> = example_fanout"
    by (simp add: example_fanout_def example_event_def)
  show ?thesis
    by (simp add: planning_Queue_def example_planner_def example_plan_def AuthContext_Validate_def queueScope_def IsZero_def
        maximumTasksPerRequest_def t b fq example_fanout_run)
qed

theorem planning_stays_in_tenant_witness:
  "\<exists>r. db_resolutions (bd_res example_planned) ''r1'' = Some r \<and> rs_TenantID r = ac_TenantID example_planner"
  using planning_stays_in_tenant [OF example_legal(1) example_planning_run [symmetric] example_plan_fanout disjI2 [OF refl]]
  by (auto simp: example_plan_def)

end
