(* ===== verification/Key_Provider.thy ===== *)
theory Key_Provider
  imports Outbox_Event
begin

text \<open>
  Key providers, \<^verbatim>\<open>internal/keyprovider/keyprovider.go\<close>: the signing interface, the in-process
  Ed25519 keyring and the encryption-key references.

  Ed25519 itself is the argument \<open>ed25519\<close>: deriving a public key, signing and verifying.  The one
  law the theorems name is that what a private key signs verifies under its public key
  (\<open>ed25519_ok\<close>), which a generated key pair satisfies; they name it for the configured keys only.  The production provider of \<^verbatim>\<open>aws_kms.go\<close> is another instance of the
  interface \<open>signing_provider\<close>.
\<close>

record ed25519 =
  ed_Public :: "string \<Rightarrow> string"
  ed_Sign :: "string \<Rightarrow> string \<Rightarrow> string"
  ed_Verify :: "string \<Rightarrow> string \<Rightarrow> string \<Rightarrow> bool"

definition ed25519_ok :: "ed25519 \<Rightarrow> string \<Rightarrow> bool" where
  "ed25519_ok ed private \<longleftrightarrow> (\<forall>payload. ed_Verify ed (ed_Public ed private) payload (ed_Sign ed private payload))"

datatype key_error = ErrKeyNotFound | ErrSignatureInvalid | ErrKeyArgument

record signing_key =
  sk_Reference :: string
  sk_Algorithm :: string

record signing_provider =
  sp_CurrentSigningKey :: "string \<Rightarrow> key_error + signing_key"
  sp_Sign :: "string \<Rightarrow> string \<Rightarrow> key_error + string"
  sp_Verify :: "string \<Rightarrow> string \<Rightarrow> string \<Rightarrow> string \<Rightarrow> key_error option"

definition Ed25519Algorithm :: string where
  "Ed25519Algorithm = ''Ed25519''"

section \<open>The Ed25519 keyring\<close>

record ed25519_keyring =
  kr_current :: string
  kr_private :: "string \<rightharpoonup> string"
  kr_public :: "string \<rightharpoonup> string"

definition Keyring_Rotate :: "ed25519 \<Rightarrow> string \<Rightarrow> string \<Rightarrow> ed25519_keyring \<Rightarrow> key_error option \<times> ed25519_keyring" where
  "Keyring_Rotate ed reference private k =
     (if reference = '''' \<or> length private \<noteq> 64 then (Some ErrKeyArgument, k)
      else if kr_private k reference \<noteq> None then (Some ErrKeyArgument, k)
      else (None, \<lparr>kr_current = reference, kr_private = (kr_private k)(reference \<mapsto> private),
                   kr_public = (kr_public k)(reference \<mapsto> ed_Public ed private)\<rparr>))"

definition NewEd25519Keyring :: "ed25519 \<Rightarrow> string \<Rightarrow> string \<Rightarrow> key_error + ed25519_keyring" where
  "NewEd25519Keyring ed reference private =
     (case Keyring_Rotate ed reference private \<lparr>kr_current = '''', kr_private = Map.empty, kr_public = Map.empty\<rparr> of
        (Some e, _) \<Rightarrow> Inl e
      | (None, k) \<Rightarrow> Inr k)"

definition Keyring_CurrentSigningKey :: "ed25519_keyring \<Rightarrow> string \<Rightarrow> key_error + signing_key" where
  "Keyring_CurrentSigningKey k purpose =
     (if purpose = '''' then Inl ErrKeyArgument
      else if kr_current k = '''' then Inl ErrKeyNotFound
      else Inr \<lparr>sk_Reference = kr_current k, sk_Algorithm = Ed25519Algorithm\<rparr>)"

definition Keyring_Sign :: "ed25519 \<Rightarrow> ed25519_keyring \<Rightarrow> string \<Rightarrow> string \<Rightarrow> key_error + string" where
  "Keyring_Sign ed k reference payload =
     (if reference = '''' \<or> length payload = 0 then Inl ErrKeyArgument
      else case kr_private k reference of None \<Rightarrow> Inl ErrKeyNotFound | Some private \<Rightarrow> Inr (ed_Sign ed private payload))"

definition Keyring_Verify ::
  "ed25519 \<Rightarrow> ed25519_keyring \<Rightarrow> string \<Rightarrow> string \<Rightarrow> string \<Rightarrow> string \<Rightarrow> key_error option" where
  "Keyring_Verify ed k reference algorithm payload signature =
     (if reference = '''' \<or> algorithm \<noteq> Ed25519Algorithm \<or> length payload = 0 then Some ErrSignatureInvalid
      else case kr_public k reference of
        None \<Rightarrow> Some ErrKeyNotFound
      | Some public \<Rightarrow> if \<not> ed_Verify ed public payload signature then Some ErrSignatureInvalid else None)"

definition keyring_provider :: "ed25519 \<Rightarrow> ed25519_keyring \<Rightarrow> signing_provider" where
  "keyring_provider ed k = \<lparr>sp_CurrentSigningKey = Keyring_CurrentSigningKey k, sp_Sign = Keyring_Sign ed k,
     sp_Verify = Keyring_Verify ed k\<rparr>"

section \<open>Encryption-key references\<close>

definition Static_CurrentEncryptionKey :: "string \<Rightarrow> string \<Rightarrow> string \<Rightarrow> key_error + string" where
  "Static_CurrentEncryptionKey reference tenantID purpose =
     (if reference = '''' \<or> tenantID = '''' \<or> purpose = '''' then Inl ErrKeyArgument else Inr reference)"

definition EncryptionKeyring_Rotate ::
  "string \<Rightarrow> string \<Rightarrow> (string \<rightharpoonup> string) \<Rightarrow> key_error option \<times> (string \<rightharpoonup> string)" where
  "EncryptionKeyring_Rotate tenantID reference current =
     (if tenantID = '''' \<or> reference = '''' then (Some ErrKeyArgument, current)
      else (None, current(tenantID \<mapsto> reference)))"

definition EncryptionKeyring_CurrentEncryptionKey :: "(string \<rightharpoonup> string) \<Rightarrow> string \<Rightarrow> string \<Rightarrow> key_error + string" where
  "EncryptionKeyring_CurrentEncryptionKey current tenantID purpose =
     (if tenantID = '''' \<or> purpose = '''' then Inl ErrKeyArgument
      else case current tenantID of None \<Rightarrow> Inl ErrKeyNotFound | Some reference \<Rightarrow> Inr reference)"

section \<open>Rotation keeps earlier signatures verifiable\<close>

definition keyring_ok :: "ed25519 \<Rightarrow> ed25519_keyring \<Rightarrow> bool" where
  "keyring_ok ed k \<longleftrightarrow> kr_public k = map_option (ed_Public ed) \<circ> kr_private k \<and>
     kr_private k (kr_current k) \<noteq> None \<and> kr_private k '''' = None"

definition rotate_all :: "ed25519 \<Rightarrow> (string \<times> string) list \<Rightarrow> ed25519_keyring \<Rightarrow> ed25519_keyring" where
  "rotate_all ed = fold (\<lambda>(reference, private) k. snd (Keyring_Rotate ed reference private k))"

lemma NewEd25519Keyring_ok: "NewEd25519Keyring ed reference private = Inr k \<Longrightarrow> keyring_ok ed k"
  by (auto simp: NewEd25519Keyring_def Keyring_Rotate_def keyring_ok_def split: if_splits)

lemma Keyring_Rotate_ok: "keyring_ok ed k \<Longrightarrow> keyring_ok ed (snd (Keyring_Rotate ed reference private k))"
  by (auto simp: Keyring_Rotate_def keyring_ok_def)

lemma Keyring_Rotate_keeps:
  "kr_private k reference = Some p \<Longrightarrow> kr_private (snd (Keyring_Rotate ed reference' private k)) reference = Some p"
  by (auto simp: Keyring_Rotate_def)

lemma rotate_all_ok:
  "keyring_ok ed k \<Longrightarrow> keyring_ok ed (rotate_all ed rs k) \<and>
     (\<forall>reference p. kr_private k reference = Some p \<longrightarrow> kr_private (rotate_all ed rs k) reference = Some p)"
proof (induction rs arbitrary: k)
  case (Cons r rs)
  obtain reference priv where r: "r = (reference, priv)" by fastforce
  from Cons.IH [OF Keyring_Rotate_ok [OF Cons.prems]] show ?case
    using Keyring_Rotate_keeps by (auto simp: rotate_all_def r)
qed (simp add: rotate_all_def)

lemma NewEd25519Keyring_private: "NewEd25519Keyring ed reference private = Inr k \<Longrightarrow> ran (kr_private k) = {private}"
  by (auto simp: NewEd25519Keyring_def Keyring_Rotate_def ran_def split: if_splits)

lemma rotate_all_private: "ran (kr_private (rotate_all ed rs k)) \<subseteq> ran (kr_private k) \<union> snd ` set rs"
proof (induction rs arbitrary: k)
  case (Cons r rs)
  have "ran (kr_private (snd (Keyring_Rotate ed (fst r) (snd r) k))) \<subseteq> insert (snd r) (ran (kr_private k))"
    by (auto simp: Keyring_Rotate_def ran_def)
  then show ?case
    using Cons.IH [of "snd (Keyring_Rotate ed (fst r) (snd r) k)"] by (auto simp: rotate_all_def case_prod_unfold)
qed (simp add: rotate_all_def)

lemma keyring_verifies:
  assumes "\<forall>p \<in> ran (kr_private k). ed25519_ok ed p" and "keyring_ok ed k"
    and "Keyring_CurrentSigningKey k purpose = Inr key" and "Keyring_Sign ed k (sk_Reference key) payload = Inr signature"
  shows "Keyring_Verify ed (rotate_all ed later k) (sk_Reference key) (sk_Algorithm key) payload signature = None"
proof -
  note ok = rotate_all_ok [OF assms(2), of later]
  obtain p where p: "kr_private k (sk_Reference key) = Some p" "signature = ed_Sign ed p payload"
      "sk_Reference key \<noteq> ''''" "length payload \<noteq> 0"
    using assms(4) by (auto simp: Keyring_Sign_def split: if_splits option.splits)
  have "kr_public (rotate_all ed later k) (sk_Reference key) = Some (ed_Public ed p)"
    using ok p(1) by (auto simp: keyring_ok_def)
  moreover have "sk_Algorithm key = Ed25519Algorithm"
    using assms(3) by (auto simp: Keyring_CurrentSigningKey_def split: if_splits)
  ultimately show ?thesis using p ranI [of "kr_private k", OF p(1)] assms(1) by (simp add: Keyring_Verify_def ed25519_ok_def)
qed

text \<open>
  C15. Key rotation is safe for signatures already issued: what a keyring signs under its current key
  verifies under that reference, and still does after any number of rotations, accepted or refused.
\<close>

theorem rotation_keeps_signatures:
  assumes "\<forall>p \<in> insert private (snd ` set earlier). ed25519_ok ed p"
    and "NewEd25519Keyring ed reference private = Inr k0" and "k = rotate_all ed earlier k0"
    and "Keyring_CurrentSigningKey k purpose = Inr key" and "Keyring_Sign ed k (sk_Reference key) payload = Inr signature"
  shows "Keyring_Verify ed (rotate_all ed later k) (sk_Reference key) (sk_Algorithm key) payload signature = None"
proof -
  have "keyring_ok ed k" unfolding assms(3) using rotate_all_ok NewEd25519Keyring_ok [OF assms(2)] by blast
  moreover have "\<forall>p \<in> ran (kr_private k). ed25519_ok ed p"
    using assms(1) rotate_all_private [of ed earlier k0] NewEd25519Keyring_private [OF assms(2)] unfolding assms(3) by blast
  ultimately show ?thesis by (intro keyring_verifies [OF _ _ assms(4,5)])
qed

definition example_ed25519 :: ed25519 where
  "example_ed25519 = \<lparr>ed_Public = rev, ed_Sign = (\<lambda>private payload. private @ payload),
     ed_Verify = (\<lambda>public payload signature. signature = rev public @ payload)\<rparr>"

definition example_private :: "char \<Rightarrow> string" where
  "example_private c = replicate 64 c"

definition example_keyring :: ed25519_keyring where
  "example_keyring = \<lparr>kr_current = ''k1'', kr_private = [''k1'' \<mapsto> example_private CHR ''a''],
     kr_public = [''k1'' \<mapsto> example_private CHR ''a'']\<rparr>"

lemma example_ed25519_ok: "ed25519_ok example_ed25519 private"
  by (simp add: ed25519_ok_def example_ed25519_def)

lemma example_keyring_new: "NewEd25519Keyring example_ed25519 ''k1'' (example_private CHR ''a'') = Inr example_keyring"
  by (simp add: NewEd25519Keyring_def Keyring_Rotate_def example_private_def example_keyring_def example_ed25519_def)

theorem rotation_keeps_signatures_witness:
  "Keyring_Verify example_ed25519 (rotate_all example_ed25519 [(''k2'', example_private CHR ''b'')] example_keyring) ''k1'' ''Ed25519''
     ''data'' (example_private CHR ''a'' @ ''data'') = None"
proof -
  have c: "Keyring_CurrentSigningKey example_keyring ''p'' = Inr \<lparr>sk_Reference = ''k1'', sk_Algorithm = ''Ed25519''\<rparr>"
    and s: "Keyring_Sign example_ed25519 example_keyring ''k1'' ''data'' = Inr (example_private CHR ''a'' @ ''data'')"
    by (simp_all add: Keyring_CurrentSigningKey_def Keyring_Sign_def example_keyring_def example_ed25519_def Ed25519Algorithm_def)
  have "example_keyring = rotate_all example_ed25519 [] example_keyring" by (simp add: rotate_all_def)
  from rotation_keeps_signatures [OF _ example_keyring_new this c] s example_ed25519_ok show ?thesis by simp
qed

end
