(* ===== verification/Execution_Grants.thy ===== *)
theory Execution_Grants
  imports Key_Provider Collector_Postgres
begin

text \<open>
  Execution grants, \<^verbatim>\<open>internal/grants/grants.go\<close> and \<^verbatim>\<open>internal/grants/repository.go\<close>: issuing,
  exchanging a grant for a session credential, and the ledgers of consumed grants, in memory and
  in PostgreSQL (\<^verbatim>\<open>migrations/000010_execution_grant_consumptions.up.sql\<close>).

  \<open>grant_codec\<close> holds what the code calls from the standard library: SHA-256 and the JSON encoding
  of a grant.  The ledger contract is the locale \<open>grant_ledger\<close>.
\<close>

section \<open>Grants\<close>

record execution_grant =
  eg_GrantID :: string
  eg_Nonce :: string
  eg_TenantID :: string
  eg_CollectorSPIFFEID :: string
  eg_ResolutionID :: string
  eg_TaskID :: string
  eg_TargetSnapshotID :: string
  eg_TargetSnapshotDigest :: string
  eg_TargetID :: string
  eg_RecipeID :: string
  eg_RecipeVersion :: string
  eg_ParameterDigest :: string
  eg_FencingToken :: int
  eg_TriggerDecisionID :: string
  eg_PlanningDecisionID :: string
  eg_ExecutionDecisionID :: string
  eg_ApprovalGrantID :: string
  eg_Audience :: string
  eg_NotBefore :: gotime
  eg_ExpiresAt :: gotime
  eg_MaximumDuration :: duration
  eg_MaximumResponseBytes :: int
  eg_CredentialClass :: string
  eg_SingleUse :: bool
  eg_Issuer :: string
  eg_SignatureAlgorithm :: string
  eg_SigningKeyRef :: string
  eg_Signature :: string

record exchange_request =
  xr_PresentingSPIFFEID :: string
  xr_TaskID :: string
  xr_TargetID :: string
  xr_RecipeID :: string
  xr_RecipeVersion :: string
  xr_FencingToken :: int
  xr_Now :: gotime

record session_credential =
  sc_Token :: string
  sc_GrantID :: string
  sc_CollectorID :: string
  sc_TargetID :: string
  sc_RecipeID :: string
  sc_RecipeVersion :: string
  sc_FencingToken :: int
  sc_ExpiresAt :: gotime
  sc_CredentialClass :: string

datatype grant_error =
    ErrInvalidSignature | ErrNotCurrent | ErrBindingMismatch | ErrStaleFence | ErrAlreadyConsumed
  | ErrConsumptionNotFound | ErrConsumptionIntegrity
  | ErrGrantArgument | ErrGrantKey | ErrGrantEncoding | ErrGrantFence | ErrGrantRandom | ErrGrantDatabase

record grant_codec =
  gc_sha256 :: "string \<Rightarrow> string"
  gc_Marshal :: "execution_grant \<Rightarrow> string option"

record consumption =
  cn_GrantID :: string
  cn_NonceDigest :: string
  cn_GrantDigest :: string
  cn_TenantID :: string
  cn_TaskID :: string
  cn_CollectorSPIFFEID :: string
  cn_TargetID :: string
  cn_RecipeID :: string
  cn_RecipeVersion :: string
  cn_FencingToken :: int
  cn_GrantExpiresAt :: gotime
  cn_RequestedAt :: gotime

record consumption_record = consumption +
  cn_ConsumedAt :: gotime

type_synonym 'w consume = "consumption \<Rightarrow> 'w \<Rightarrow> (grant_error + consumption_record) \<times> 'w"

record authority =
  au_issuer :: string
  au_audience :: string
  au_signing :: signing_provider
  au_fences :: "string \<Rightarrow> task_error + int"

definition executionGrantSigningPurpose :: string where
  "executionGrantSigningPurpose = ''execution-grant''"

definition validateGrant :: "execution_grant \<Rightarrow> bool" where
  "validateGrant grant \<longleftrightarrow>
     \<not> (eg_GrantID grant = '''' \<or> eg_Nonce grant = '''' \<or> eg_TenantID grant = '''' \<or> eg_CollectorSPIFFEID grant = '''' \<or>
        eg_TaskID grant = '''' \<or> eg_TargetID grant = '''' \<or> eg_RecipeID grant = '''' \<or> eg_RecipeVersion grant = '''' \<or>
        eg_Issuer grant = '''' \<or> eg_Audience grant = '''' \<or> eg_SignatureAlgorithm grant = '''' \<or> eg_SigningKeyRef grant = '''') \<and>
     \<not> (eg_FencingToken grant \<le> 0 \<or> eg_MaximumDuration grant \<le> 0 \<or> eg_MaximumResponseBytes grant \<le> 0) \<and>
     \<not> (IsZero (eg_NotBefore grant) \<or> \<not> eg_NotBefore grant < eg_ExpiresAt grant) \<and>
     eg_SingleUse grant"

definition signingPayload :: "grant_codec \<Rightarrow> execution_grant \<Rightarrow> string option" where
  "signingPayload gc grant = gc_Marshal gc (grant\<lparr>eg_Signature := ''''\<rparr>)"

definition Authority_Issue :: "grant_codec \<Rightarrow> authority \<Rightarrow> execution_grant \<Rightarrow> grant_error + execution_grant" where
  "Authority_Issue gc a grant =
     (let grant = grant\<lparr>eg_Issuer := au_issuer a, eg_Audience := au_audience a, eg_Signature := ''''\<rparr>
      in case sp_CurrentSigningKey (au_signing a) executionGrantSigningPurpose of
        Inl _ \<Rightarrow> Inl ErrGrantKey
      | Inr signingKey \<Rightarrow>
          let grant = grant\<lparr>eg_SignatureAlgorithm := sk_Algorithm signingKey, eg_SigningKeyRef := sk_Reference signingKey\<rparr>
          in if \<not> validateGrant grant then Inl ErrGrantArgument
             else (case signingPayload gc grant of
                None \<Rightarrow> Inl ErrGrantEncoding
              | Some payload \<Rightarrow>
                  (case sp_Sign (au_signing a) (eg_SigningKeyRef grant) payload of
                     Inl _ \<Rightarrow> Inl ErrGrantKey
                   | Inr signature \<Rightarrow> Inr (grant\<lparr>eg_Signature := signature\<rparr>))))"

text \<open>\<open>token\<close> is what \<^verbatim>\<open>rand.Read\<close> yields, \<open>None\<close> its failure.\<close>

definition grant_consumption :: "grant_codec \<Rightarrow> execution_grant \<Rightarrow> string \<Rightarrow> gotime \<Rightarrow> consumption" where
  "grant_consumption gc grant grantDocument now =
     \<lparr>cn_GrantID = eg_GrantID grant, cn_NonceDigest = hex_EncodeToString (gc_sha256 gc (eg_Nonce grant)),
      cn_GrantDigest = hex_EncodeToString (gc_sha256 gc grantDocument), cn_TenantID = eg_TenantID grant,
      cn_TaskID = eg_TaskID grant, cn_CollectorSPIFFEID = eg_CollectorSPIFFEID grant, cn_TargetID = eg_TargetID grant,
      cn_RecipeID = eg_RecipeID grant, cn_RecipeVersion = eg_RecipeVersion grant, cn_FencingToken = eg_FencingToken grant,
      cn_GrantExpiresAt = eg_ExpiresAt grant, cn_RequestedAt = now\<rparr>"

definition grant_credential :: "string \<Rightarrow> execution_grant \<Rightarrow> session_credential" where
  "grant_credential tokenBytes grant =
     \<lparr>sc_Token = hex_EncodeToString tokenBytes, sc_GrantID = eg_GrantID grant, sc_CollectorID = eg_CollectorSPIFFEID grant,
      sc_TargetID = eg_TargetID grant, sc_RecipeID = eg_RecipeID grant, sc_RecipeVersion = eg_RecipeVersion grant,
      sc_FencingToken = eg_FencingToken grant, sc_ExpiresAt = eg_ExpiresAt grant,
      sc_CredentialClass = eg_CredentialClass grant\<rparr>"

definition signature_valid :: "grant_codec \<Rightarrow> authority \<Rightarrow> execution_grant \<Rightarrow> bool" where
  "signature_valid gc a grant \<longleftrightarrow>
     (case signingPayload gc grant of
        None \<Rightarrow> False
      | Some payload \<Rightarrow>
          sp_Verify (au_signing a) (eg_SigningKeyRef grant) (eg_SignatureAlgorithm grant) payload (eg_Signature grant) = None)"

definition Authority_Exchange ::
  "grant_codec \<Rightarrow> authority \<Rightarrow> 'w consume \<Rightarrow> string option \<Rightarrow> execution_grant \<Rightarrow> exchange_request \<Rightarrow> 'w
   \<Rightarrow> (grant_error + session_credential) \<times> 'w" where
  "Authority_Exchange gc a Consume token grant request w =
     (if IsZero (xr_Now request) then (Inl ErrGrantArgument, w)
      else if \<not> signature_valid gc a grant then (Inl ErrInvalidSignature, w)
      else if eg_Issuer grant \<noteq> au_issuer a \<or> eg_Audience grant \<noteq> au_audience a \<or> xr_Now request < eg_NotBefore grant \<or>
        \<not> xr_Now request < eg_ExpiresAt grant then (Inl ErrNotCurrent, w)
      else if \<not> eg_SingleUse grant then (Inl ErrBindingMismatch, w)
      else if xr_PresentingSPIFFEID request \<noteq> eg_CollectorSPIFFEID grant \<or> xr_TaskID request \<noteq> eg_TaskID grant \<or>
        xr_TargetID request \<noteq> eg_TargetID grant \<or> xr_RecipeID request \<noteq> eg_RecipeID grant \<or>
        xr_RecipeVersion request \<noteq> eg_RecipeVersion grant \<or> xr_FencingToken request \<noteq> eg_FencingToken grant
      then (Inl ErrBindingMismatch, w)
      else case au_fences a (eg_TaskID grant) of
        Inl _ \<Rightarrow> (Inl ErrGrantFence, w)
      | Inr currentFence \<Rightarrow>
          if currentFence \<noteq> eg_FencingToken grant then (Inl ErrStaleFence, w)
          else (case token of
             None \<Rightarrow> (Inl ErrGrantRandom, w)
           | Some tokenBytes \<Rightarrow>
               (case gc_Marshal gc grant of
                  None \<Rightarrow> (Inl ErrGrantEncoding, w)
                | Some grantDocument \<Rightarrow>
                    (case Consume (grant_consumption gc grant grantDocument (xr_Now request)) w of
                       (Inl e, w') \<Rightarrow> (Inl e, w')
                     | (Inr _, w') \<Rightarrow> (Inr (grant_credential tokenBytes grant), w')))))"

section \<open>Ledgers of consumed grants\<close>

definition validateConsumption :: "consumption \<Rightarrow> bool" where
  "validateConsumption c \<longleftrightarrow>
     list_all (\<lambda>value. \<not> (value = '''' \<or> 512 < length value))
       [cn_GrantID c, cn_NonceDigest c, cn_GrantDigest c, cn_TenantID c, cn_TaskID c, cn_CollectorSPIFFEID c,
        cn_TargetID c, cn_RecipeID c, cn_RecipeVersion c] \<and>
     \<not> (length (cn_NonceDigest c) \<noteq> 64 \<or> length (cn_GrantDigest c) \<noteq> 64) \<and>
     hex_DecodeString (cn_NonceDigest c) \<noteq> None \<and> hex_DecodeString (cn_GrantDigest c) \<noteq> None \<and>
     \<not> (cn_FencingToken c \<le> 0 \<or> IsZero (cn_GrantExpiresAt c) \<or> IsZero (cn_RequestedAt c))"

definition recorded :: "gotime \<Rightarrow> consumption \<Rightarrow> consumption_record" where
  "recorded consumedAt c = consumption.extend c (consumption_record.fields consumedAt)"

record memory_consumptions =
  mc_byGrant :: "string \<rightharpoonup> consumption_record"
  mc_byNonce :: "string \<rightharpoonup> string"

definition MemC_Consume :: "memory_consumptions consume" where
  "MemC_Consume c m =
     (if \<not> validateConsumption c then (Inl ErrGrantArgument, m)
      else if mc_byGrant m (cn_GrantID c) \<noteq> None then (Inl ErrAlreadyConsumed, m)
      else if mc_byNonce m (cn_NonceDigest c) \<noteq> None then (Inl ErrAlreadyConsumed, m)
      else if \<not> cn_RequestedAt c < cn_GrantExpiresAt c then (Inl ErrNotCurrent, m)
      else let r = recorded (cn_RequestedAt c) c
           in (Inr r, \<lparr>mc_byGrant = (mc_byGrant m)(cn_GrantID c \<mapsto> r),
                       mc_byNonce = (mc_byNonce m)(cn_NonceDigest c \<mapsto> cn_GrantID c)\<rparr>))"

definition MemC_Get :: "string \<Rightarrow> string \<Rightarrow> memory_consumptions \<Rightarrow> grant_error + consumption_record" where
  "MemC_Get tenantID grantID m =
     (case mc_byGrant m grantID of
        None \<Rightarrow> Inl ErrConsumptionNotFound
      | Some r \<Rightarrow> if cn_TenantID r \<noteq> tenantID then Inl ErrConsumptionNotFound else Inr r)"

text \<open>
  The durable ledger: \<open>tasks\<close> is the task table the transaction locks a row of, \<open>dbnow\<close> and
  \<open>consumedAt\<close> the database clock at the two statements that read it, and \<open>seen\<close> what the first
  query sees of the ledger (READ COMMITTED: possibly less than the insertion meets).
  A NULL lease expiry cannot be scanned into a \<^verbatim>\<open>time.Time\<close> and ends as a database error.
\<close>

definition lockAndValidateTask :: "db_call \<Rightarrow> gotime \<Rightarrow> task_table \<Rightarrow> consumption \<Rightarrow> grant_error option" where
  "lockAndValidateTask c dbnow tasks cn =
     (if c \<noteq> CallOK then Some ErrGrantDatabase
      else case tasks (cn_TaskID cn) of
        None \<Rightarrow> Some ErrBindingMismatch
      | Some r \<Rightarrow>
          (case tr_lease_expiry r of
             None \<Rightarrow> Some ErrGrantDatabase
           | Some leaseExpiry \<Rightarrow>
               if tr_tenant_id r \<noteq> cn_TenantID cn \<or> COALESCE_empty (tr_lease_owner r) \<noteq> cn_CollectorSPIFFEID cn \<or>
                  tr_target_id r \<noteq> cn_TargetID cn \<or> tr_recipe_id r \<noteq> cn_RecipeID cn \<or>
                  tr_recipe_version r \<noteq> cn_RecipeVersion cn \<or> COALESCE_empty (tr_execution_grant_id r) \<noteq> cn_GrantID cn
               then Some ErrBindingMismatch
               else if tr_fencing_token r \<noteq> cn_FencingToken cn then Some ErrStaleFence
               else if tr_state r \<noteq> TaskExecuting \<or> \<not> dbnow < leaseExpiry \<or> \<not> dbnow < cn_GrantExpiresAt cn
               then Some ErrNotCurrent else None))"

definition consumed_in :: "consumption \<Rightarrow> consumption_record list \<Rightarrow> bool" where
  "consumed_in c ledger \<longleftrightarrow> (\<exists>r \<in> set ledger. cn_GrantID r = cn_GrantID c \<or> cn_NonceDigest r = cn_NonceDigest c)"

definition stored_consumption :: "gotime \<Rightarrow> consumption \<Rightarrow> consumption_record" where
  "stored_consumption consumedAt c = recorded consumedAt
     (c\<lparr>cn_GrantExpiresAt := Truncate_us (cn_GrantExpiresAt c), cn_RequestedAt := Truncate_us (cn_RequestedAt c)\<rparr>)"

definition consumption_validity :: "consumption_record \<Rightarrow> bool" where
  "consumption_validity r \<longleftrightarrow> cn_RequestedAt r < cn_GrantExpiresAt r \<and> cn_ConsumedAt r < cn_GrantExpiresAt r"

definition PGC_Consume ::
  "db_faults \<Rightarrow> gotime \<Rightarrow> gotime \<Rightarrow> task_table \<Rightarrow> consumption_record list \<Rightarrow> consumption_record list consume" where
  "PGC_Consume f dbnow consumedAt tasks seen c ledger =
     (if \<not> validateConsumption c then (Inl ErrGrantArgument, ledger)
      else if f 0 \<noteq> CallOK \<or> f 1 \<noteq> CallOK then (Inl ErrGrantDatabase, ledger)
      else if consumed_in c seen then (Inl ErrAlreadyConsumed, ledger)
      else case lockAndValidateTask (f 2) dbnow tasks c of
        Some e \<Rightarrow> (Inl e, ledger)
      | None \<Rightarrow>
          let r = stored_consumption consumedAt c in
          if f 3 \<noteq> CallOK \<or> \<not> consumption_validity r \<or> f 4 \<noteq> CallOK then (Inl ErrGrantDatabase, ledger)
          else if consumed_in c ledger then (Inl ErrAlreadyConsumed, ledger)
          else if f 5 \<noteq> CallOK then (Inl ErrGrantDatabase, ledger)
          else (case sql_write (f 6) ledger (Some ((), ledger @ [r])) of
             (None, ledger') \<Rightarrow> (Inl ErrGrantDatabase, ledger')
           | (Some _, ledger') \<Rightarrow> (Inr (recorded consumedAt c), ledger')))"

definition PGC_Get ::
  "db_call \<Rightarrow> string \<Rightarrow> string \<Rightarrow> consumption_record list \<Rightarrow> grant_error + consumption_record" where
  "PGC_Get c tenantID grantID ledger =
     (if tenantID = '''' \<or> grantID = '''' then Inl ErrGrantArgument
      else if c \<noteq> CallOK then Inl ErrGrantDatabase
      else case find (\<lambda>r. cn_TenantID r = tenantID \<and> cn_GrantID r = grantID) ledger of
        None \<Rightarrow> Inl ErrConsumptionNotFound
      | Some r \<Rightarrow>
          if \<not> validateConsumption (consumption.truncate r) then Inl ErrConsumptionIntegrity
          else if IsZero (cn_ConsumedAt r) \<or> \<not> cn_ConsumedAt r < cn_GrantExpiresAt r then Inl ErrConsumptionIntegrity
          else Inr r)"

section \<open>The ledger contract\<close>

text \<open>
  \<open>spent w\<close> are the pairs of grant identifier and nonce digest recorded in \<open>w\<close>; \<open>exec\<close> is any call
  that may change the ledger and \<open>consume c\<close> the consumption under the circumstances \<open>c\<close>.
\<close>

locale grant_ledger =
  fixes spent :: "'w \<Rightarrow> (string \<times> string) set"
    and exec :: "'op \<Rightarrow> 'w \<Rightarrow> 'w"
    and inv :: "'w \<Rightarrow> bool"
    and consume :: "'c \<Rightarrow> 'w consume"
    and consume_op :: "'c \<Rightarrow> consumption \<Rightarrow> 'op"
  assumes exec_inv: "inv w \<Longrightarrow> inv (exec op w)"
    and exec_mono: "inv w \<Longrightarrow> spent w \<subseteq> spent (exec op w)"
    and consume_exec: "exec (consume_op c x) w = snd (consume c x w)"
    and consume_spent: "inv w \<Longrightarrow> (g, n) \<in> spent w \<Longrightarrow> g = cn_GrantID x \<or> n = cn_NonceDigest x \<Longrightarrow>
      \<exists>e. consume c x w = (Inl e, w)"
    and consume_spends: "inv w \<Longrightarrow> consume c x w = (Inr r, w') \<Longrightarrow> (cn_GrantID x, cn_NonceDigest x) \<in> spent w'"
begin

lemma run_inv: "inv w \<Longrightarrow> inv (fold exec ops w)"
  by (induction ops arbitrary: w) (auto simp: exec_inv)

lemma run_mono: "inv w \<Longrightarrow> spent w \<subseteq> spent (fold exec ops w)"
proof (induction ops arbitrary: w)
  case (Cons op ops)
  then show ?case using exec_mono [of w op] exec_inv [of w op] by fastforce
qed simp

text \<open>A grant, and a nonce, is exchanged at most once.\<close>

lemma exchange_once:
  assumes "inv w" and "Authority_Exchange gc a (consume c) token grant request w = (Inr credential, w1)"
    and "eg_GrantID grant' = eg_GrantID grant \<or> eg_Nonce grant' = eg_Nonce grant"
  shows "\<exists>e. Authority_Exchange gc a' (consume c') token' grant' request' (fold exec ops w1) = (Inl e, fold exec ops w1)"
proof -
  obtain doc r where "consume c (grant_consumption gc grant doc (xr_Now request)) w = (Inr r, w1)"
    using assms(2) unfolding Authority_Exchange_def
    by (auto split: if_splits sum.splits option.splits prod.splits)
  then have w1: "(eg_GrantID grant, hex_EncodeToString (gc_sha256 gc (eg_Nonce grant))) \<in> spent w1" "inv w1"
    using consume_spends [OF assms(1)] exec_inv [OF assms(1)] consume_exec
    by (fastforce simp: grant_consumption_def, metis snd_conv)
  let ?w2 = "fold exec ops w1"
  have w2: "(eg_GrantID grant, hex_EncodeToString (gc_sha256 gc (eg_Nonce grant))) \<in> spent ?w2" "inv ?w2"
    using w1 run_mono run_inv by auto
  have "\<exists>e. consume c' (grant_consumption gc grant' doc' now) ?w2 = (Inl e, ?w2)" for doc' now
    by (rule consume_spent [OF w2(2,1)]) (use assms(3) in \<open>auto simp: grant_consumption_def\<close>)
  then show ?thesis unfolding Authority_Exchange_def
    by (auto split: option.split sum.split prod.split) (metis Inl_Inr_False prod.inject)+
qed

end

section \<open>Both ledgers implement it\<close>

definition mem_spent :: "memory_consumptions \<Rightarrow> (string \<times> string) set" where
  "mem_spent m = {(g, n). \<exists>r. mc_byGrant m g = Some r \<and> cn_NonceDigest r = n}"

definition mem_ledger_ok :: "memory_consumptions \<Rightarrow> bool" where
  "mem_ledger_ok m \<longleftrightarrow> (\<forall>g r. mc_byGrant m g = Some r \<longrightarrow> mc_byNonce m (cn_NonceDigest r) = Some g)"

definition pg_spent :: "consumption_record list \<Rightarrow> (string \<times> string) set" where
  "pg_spent ledger = (\<lambda>r. (cn_GrantID r, cn_NonceDigest r)) ` set ledger"

type_synonym pgc_env = "db_faults \<times> gotime \<times> gotime \<times> task_table \<times> consumption_record list"

fun pgc_consume :: "pgc_env \<Rightarrow> consumption_record list consume" where
  "pgc_consume (f, dbnow, consumedAt, tasks, seen) c ledger = PGC_Consume f dbnow consumedAt tasks seen c ledger"

fun pgc_exec :: "pgc_env \<times> consumption \<Rightarrow> consumption_record list \<Rightarrow> consumption_record list" where
  "pgc_exec (env, c) ledger = snd (pgc_consume env c ledger)"

lemma recorded_sel [simp]:
  "cn_GrantID (recorded t c) = cn_GrantID c" "cn_NonceDigest (recorded t c) = cn_NonceDigest c"
  "cn_TenantID (recorded t c) = cn_TenantID c" "cn_GrantExpiresAt (recorded t c) = cn_GrantExpiresAt c"
  "cn_RequestedAt (recorded t c) = cn_RequestedAt c" "cn_ConsumedAt (recorded t c) = t"
  "consumption.truncate (recorded t c) = c"
  by (simp_all add: recorded_def consumption.defs consumption_record.defs)

lemma stored_consumption_sel [simp]:
  "cn_GrantID (stored_consumption t c) = cn_GrantID c" "cn_NonceDigest (stored_consumption t c) = cn_NonceDigest c"
  by (simp_all add: stored_consumption_def)

interpretation memory_ledger: grant_ledger mem_spent "\<lambda>c m. snd (MemC_Consume c m)" mem_ledger_ok "\<lambda>_::unit. MemC_Consume" "\<lambda>_ c. c"
proof unfold_locales
  fix m c assume ok: "mem_ledger_ok m"
  then show "mem_ledger_ok (snd (MemC_Consume c m))"
    by (fastforce simp: MemC_Consume_def mem_ledger_ok_def Let_def)
  show "mem_spent m \<subseteq> mem_spent (snd (MemC_Consume c m))"
    by (auto simp: MemC_Consume_def mem_spent_def Let_def)
next
  fix m g n and c :: consumption assume "mem_ledger_ok m" "(g, n) \<in> mem_spent m" "g = cn_GrantID c \<or> n = cn_NonceDigest c"
  then have "mc_byGrant m (cn_GrantID c) \<noteq> None \<or> mc_byNonce m (cn_NonceDigest c) \<noteq> None"
    by (fastforce simp: mem_spent_def mem_ledger_ok_def)
  then show "\<exists>e. MemC_Consume c m = (Inl e, m)" by (auto simp: MemC_Consume_def)
next
  fix m c r m' assume "MemC_Consume c m = (Inr r, m')"
  then show "(cn_GrantID c, cn_NonceDigest c) \<in> mem_spent m'"
    by (auto simp: MemC_Consume_def mem_spent_def Let_def split: if_splits)
qed simp

lemma PGC_Consume_cases:
  assumes "PGC_Consume f dbnow consumedAt tasks seen c ledger = (a, ledger')"
  shows "(\<exists>e. a = Inl e) \<and> ledger' = ledger \<or>
    validateConsumption c \<and> \<not> consumed_in c ledger \<and> lockAndValidateTask CallOK dbnow tasks c = None \<and>
    consumption_validity (stored_consumption consumedAt c) \<and> ledger' = ledger @ [stored_consumption consumedAt c] \<and>
    a \<in> {Inl ErrGrantDatabase, Inr (recorded consumedAt c)}"
proof (cases "lockAndValidateTask (f 2) dbnow tasks c")
  case None
  then have "f 2 = CallOK" by (auto simp: lockAndValidateTask_def split: if_splits)
  with None show ?thesis using assms
    by (cases "f 6") (auto simp: PGC_Consume_def Let_def sql_write_def split: if_splits)
next
  case (Some e)
  then show ?thesis using assms by (auto simp: PGC_Consume_def split: if_splits)
qed

lemma pg_spent_consumed:
  "(\<exists>g n. (g, n) \<in> pg_spent ledger \<and> (g = cn_GrantID c \<or> n = cn_NonceDigest c)) = consumed_in c ledger"
  by (auto simp: pg_spent_def consumed_in_def)

interpretation durable_ledger: grant_ledger pg_spent pgc_exec "\<lambda>_. True" pgc_consume Pair
proof unfold_locales
  fix ledger and op :: "pgc_env \<times> consumption"
  obtain f dbnow consumedAt tasks seen c where op: "op = ((f, dbnow, consumedAt, tasks, seen), c)" by (metis prod.exhaust)
  show "pg_spent ledger \<subseteq> pg_spent (pgc_exec op ledger)"
    using PGC_Consume_cases [OF prod.collapse [symmetric], of f dbnow consumedAt tasks seen c ledger]
    by (auto simp: op pg_spent_def)
next
  fix ledger g n and c :: consumption and env :: pgc_env
  obtain f dbnow consumedAt tasks seen where env: "env = (f, dbnow, consumedAt, tasks, seen)" by (metis prod.exhaust)
  assume "(g, n) \<in> pg_spent ledger" "g = cn_GrantID c \<or> n = cn_NonceDigest c"
  then have "consumed_in c ledger" using pg_spent_consumed by blast
  then show "\<exists>e. pgc_consume env c ledger = (Inl e, ledger)"
    using PGC_Consume_cases [OF prod.collapse [symmetric], of f dbnow consumedAt tasks seen c ledger]
    by (auto simp: env) (metis prod.collapse)
next
  fix ledger c r ledger' and env :: pgc_env
  obtain f dbnow consumedAt tasks seen where env: "env = (f, dbnow, consumedAt, tasks, seen)" by (metis prod.exhaust)
  assume "pgc_consume env c ledger = (Inr r, ledger')"
  then show "(cn_GrantID c, cn_NonceDigest c) \<in> pg_spent ledger'"
    using PGC_Consume_cases [of f dbnow consumedAt tasks seen c ledger "Inr r" ledger'] by (auto simp: env pg_spent_def)
qed simp_all

section \<open>Guarantees\<close>

text \<open>
  C16. A grant is exchanged at most once across all replicas: after a successful exchange
  against the durable ledger, whatever consumptions follow, an exchange that presents the same
  grant identifier or the same nonce is refused and leaves the ledger as it is.
\<close>

theorem grant_exchanged_at_most_once:
  assumes "Authority_Exchange gc a (PGC_Consume f dbnow consumedAt tasks seen) token grant request ledger = (Inr credential, ledger1)"
    and "ledger2 = fold pgc_exec ops ledger1"
    and "eg_GrantID grant' = eg_GrantID grant \<or> eg_Nonce grant' = eg_Nonce grant"
  shows "\<exists>e. Authority_Exchange gc a' (PGC_Consume f' dbnow' consumedAt' tasks' seen') token' grant' request' ledger2 =
    (Inl e, ledger2)"
proof -
  have c: "PGC_Consume f dbnow consumedAt tasks seen = pgc_consume (f, dbnow, consumedAt, tasks, seen)" for f dbnow consumedAt tasks seen
    by (intro ext) simp
  show ?thesis using durable_ledger.exchange_once [OF TrueI assms(1) [unfolded c] assms(3)]
    unfolding assms(2) c by blast
qed

text \<open>
  C17. What an exchange proves: a credential is only issued for a grant with a valid signature,
  within its validity, presented by the collector, task, target, recipe and fencing token it
  names, when the task row is executing under that collector's unexpired lease with that fencing
  token and that grant recorded; the credential carries exactly those bindings and expires with
  the grant.
\<close>

theorem exchange_requires_live_attempt:
  assumes "Authority_Exchange gc a (PGC_Consume f dbnow consumedAt tasks seen) token grant request ledger = (Inr credential, ledger1)"
  shows "signature_valid gc a grant \<and> eg_NotBefore grant \<le> xr_Now request \<and> xr_Now request < eg_ExpiresAt grant \<and>
    xr_PresentingSPIFFEID request = eg_CollectorSPIFFEID grant \<and> au_fences a (eg_TaskID grant) = Inr (eg_FencingToken grant) \<and>
    (\<exists>r leaseExpiry. tasks (xr_TaskID request) = Some r \<and> tr_state r = TaskExecuting \<and> tr_tenant_id r = eg_TenantID grant \<and>
       COALESCE_empty (tr_lease_owner r) = xr_PresentingSPIFFEID request \<and> tr_lease_expiry r = Some leaseExpiry \<and>
       dbnow < leaseExpiry \<and> dbnow < eg_ExpiresAt grant \<and> tr_fencing_token r = xr_FencingToken request \<and>
       tr_target_id r = xr_TargetID request \<and> tr_recipe_id r = xr_RecipeID request \<and>
       tr_recipe_version r = xr_RecipeVersion request \<and> COALESCE_empty (tr_execution_grant_id r) = eg_GrantID grant) \<and>
    sc_GrantID credential = eg_GrantID grant \<and> sc_CollectorID credential = xr_PresentingSPIFFEID request \<and>
    sc_TargetID credential = xr_TargetID request \<and> sc_RecipeID credential = xr_RecipeID request \<and>
    sc_RecipeVersion credential = xr_RecipeVersion request \<and> sc_FencingToken credential = xr_FencingToken request \<and>
    sc_ExpiresAt credential = eg_ExpiresAt grant"
proof -
  obtain doc r tokenBytes where x: "signature_valid gc a grant" "eg_NotBefore grant \<le> xr_Now request" "xr_Now request < eg_ExpiresAt grant"
      "xr_PresentingSPIFFEID request = eg_CollectorSPIFFEID grant" "xr_TaskID request = eg_TaskID grant"
      "xr_TargetID request = eg_TargetID grant" "xr_RecipeID request = eg_RecipeID grant"
      "xr_RecipeVersion request = eg_RecipeVersion grant" "xr_FencingToken request = eg_FencingToken grant"
      "au_fences a (eg_TaskID grant) = Inr (eg_FencingToken grant)" "credential = grant_credential tokenBytes grant"
      "PGC_Consume f dbnow consumedAt tasks seen (grant_consumption gc grant doc (xr_Now request)) ledger = (Inr r, ledger1)"
    using assms unfolding Authority_Exchange_def
    by (auto simp: not_less split: if_splits sum.splits option.splits prod.splits)
  have "lockAndValidateTask CallOK dbnow tasks (grant_consumption gc grant doc (xr_Now request)) = None"
    using PGC_Consume_cases [OF x(12)] by auto
  then have "\<exists>r leaseExpiry. tasks (eg_TaskID grant) = Some r \<and> tr_state r = TaskExecuting \<and> tr_tenant_id r = eg_TenantID grant \<and>
       COALESCE_empty (tr_lease_owner r) = eg_CollectorSPIFFEID grant \<and> tr_lease_expiry r = Some leaseExpiry \<and>
       dbnow < leaseExpiry \<and> dbnow < eg_ExpiresAt grant \<and> tr_fencing_token r = eg_FencingToken grant \<and>
       tr_target_id r = eg_TargetID grant \<and> tr_recipe_id r = eg_RecipeID grant \<and>
       tr_recipe_version r = eg_RecipeVersion grant \<and> COALESCE_empty (tr_execution_grant_id r) = eg_GrantID grant"
    by (auto simp: lockAndValidateTask_def grant_consumption_def split: option.splits if_splits)
  then show ?thesis using x by (simp add: grant_credential_def)
qed

lemma Authority_Issue_ok:
  assumes "Authority_Issue gc a draft = Inr grant"
  obtains key payload where "sp_CurrentSigningKey (au_signing a) ''execution-grant'' = Inr key"
    "signingPayload gc grant = Some payload" "sp_Sign (au_signing a) (sk_Reference key) payload = Inr (eg_Signature grant)"
    "eg_SigningKeyRef grant = sk_Reference key" "eg_SignatureAlgorithm grant = sk_Algorithm key"
    "eg_Issuer grant = au_issuer a" "eg_Audience grant = au_audience a" "validateGrant grant"
  using assms that
  by (auto simp: Authority_Issue_def executionGrantSigningPurpose_def Let_def signingPayload_def validateGrant_def
      split: sum.splits if_splits option.splits)

lemma grant_consumption_valid:
  assumes "validateGrant grant" and "\<forall>s. length (gc_sha256 gc s) = 32" and "now \<noteq> 0" and "eg_ExpiresAt grant \<noteq> 0"
    and "list_all (\<lambda>s. length s \<le> 512) [eg_GrantID grant, eg_TenantID grant, eg_TaskID grant, eg_CollectorSPIFFEID grant,
      eg_TargetID grant, eg_RecipeID grant, eg_RecipeVersion grant]"
  shows "validateConsumption (grant_consumption gc grant doc now)"
proof -
  have "hex_EncodeToString (gc_sha256 gc s) \<noteq> ''''" for s
    using assms(2) hex_length [of "gc_sha256 gc s"] by (metis list.size(3) mult_eq_0_iff zero_neq_numeral)
  then show ?thesis using assms
    by (simp add: validateConsumption_def grant_consumption_def validateGrant_def hex_Decode_Encode IsZero_def not_less)
qed

text \<open>
  C18. Issue, rotate, exchange, look up: a grant issued with a keyring's current key is exchanged for its
  credential while it is valid, by the collector it names and as long as its fencing token is
  current, also after the signing key was rotated; the ledger then returns the consumption.
  (SHA-256 digests have 32 bytes; identifiers are at most 512 bytes long.)
\<close>

theorem issued_grant_exchanges:
  assumes "ed25519_ok ed private" and "NewEd25519Keyring ed reference private = Inr k" and "\<forall>s. length (gc_sha256 gc s) = 32"
    and "au_signing a = keyring_provider ed k" and "Authority_Issue gc a draft = Inr grant"
    and "gc_Marshal gc grant = Some doc"
    and "a' = a\<lparr>au_signing := keyring_provider ed (rotate_all ed later k)\<rparr>"
    and "au_fences a (eg_TaskID grant) = Inr (eg_FencingToken grant)"
    and "request = \<lparr>xr_PresentingSPIFFEID = eg_CollectorSPIFFEID grant, xr_TaskID = eg_TaskID grant, xr_TargetID = eg_TargetID grant,
      xr_RecipeID = eg_RecipeID grant, xr_RecipeVersion = eg_RecipeVersion grant, xr_FencingToken = eg_FencingToken grant, xr_Now = now\<rparr>"
    and "eg_NotBefore grant \<le> now" and "now < eg_ExpiresAt grant" and "now \<noteq> 0" and "eg_ExpiresAt grant \<noteq> 0"
    and "list_all (\<lambda>s. length s \<le> 512) [eg_GrantID grant, eg_TenantID grant, eg_TaskID grant, eg_CollectorSPIFFEID grant,
      eg_TargetID grant, eg_RecipeID grant, eg_RecipeVersion grant]"
    and "mc_byGrant m (eg_GrantID grant) = None"
    and "mc_byNonce m (hex_EncodeToString (gc_sha256 gc (eg_Nonce grant))) = None"
  shows "\<exists>m'. Authority_Exchange gc a' MemC_Consume (Some tokenBytes) grant request m = (Inr (grant_credential tokenBytes grant), m') \<and>
    MemC_Get (eg_TenantID grant) (eg_GrantID grant) m' = Inr (recorded now (grant_consumption gc grant doc now))"
proof -
  let ?c = "grant_consumption gc grant doc now"
  obtain key payload where i: "Keyring_CurrentSigningKey k ''execution-grant'' = Inr key" "signingPayload gc grant = Some payload"
      "Keyring_Sign ed k (sk_Reference key) payload = Inr (eg_Signature grant)"
      "eg_SigningKeyRef grant = sk_Reference key" "eg_SignatureAlgorithm grant = sk_Algorithm key"
      "eg_Issuer grant = au_issuer a" "eg_Audience grant = au_audience a" "validateGrant grant"
    using Authority_Issue_ok [OF assms(5)] assms(4) by (auto simp: keyring_provider_def)
  have "Keyring_Verify ed (rotate_all ed later k) (eg_SigningKeyRef grant) (eg_SignatureAlgorithm grant) payload (eg_Signature grant) = None"
    unfolding i(4,5) by (rule keyring_verifies [OF _ NewEd25519Keyring_ok [OF assms(2)] i(1,3)]) (simp add: NewEd25519Keyring_private [OF assms(2)] assms(1))
  then have sig: "signature_valid gc a' grant" by (simp add: signature_valid_def i(2) assms(7) keyring_provider_def)
  have "validateConsumption ?c" using grant_consumption_valid [OF i(8) assms(3,12,13,14)] .
  then have "MemC_Consume ?c m = (Inr (recorded now ?c), \<lparr>mc_byGrant = (mc_byGrant m)(eg_GrantID grant \<mapsto> recorded now ?c),
      mc_byNonce = (mc_byNonce m)(cn_NonceDigest ?c \<mapsto> eg_GrantID grant)\<rparr>)"
    using assms(11,15,16) by (simp add: MemC_Consume_def Let_def grant_consumption_def)
  moreover have "cn_TenantID (recorded now ?c) = eg_TenantID grant" by (simp add: grant_consumption_def)
  ultimately show ?thesis using sig i(6-8) assms(6-12)
    by (simp add: Authority_Exchange_def IsZero_def validateGrant_def MemC_Get_def not_less)
qed

text \<open>
  The durable ledger only grows, with distinct grant identifiers.
\<close>

lemma pgc_exec_appends:
  "\<exists>rs. pgc_exec op ledger = ledger @ rs \<and> (distinct (map cn_GrantID ledger) \<longrightarrow> distinct (map cn_GrantID (ledger @ rs)))"
proof -
  obtain f dbnow consumedAt tasks seen c where op: "op = ((f, dbnow, consumedAt, tasks, seen), c)" by (metis prod.exhaust)
  show ?thesis
    using PGC_Consume_cases [OF prod.collapse [symmetric], of f dbnow consumedAt tasks seen c ledger]
    by (auto simp: op consumed_in_def)
qed

lemma pgc_run_appends:
  "\<exists>rs. fold pgc_exec ops ledger = ledger @ rs \<and> (distinct (map cn_GrantID ledger) \<longrightarrow> distinct (map cn_GrantID (ledger @ rs)))"
proof (induction ops arbitrary: ledger)
  case (Cons op ops)
  obtain rs where rs: "pgc_exec op ledger = ledger @ rs"
      "distinct (map cn_GrantID ledger) \<longrightarrow> distinct (map cn_GrantID (ledger @ rs))"
    using pgc_exec_appends by blast
  obtain rs' where "fold pgc_exec ops (ledger @ rs) = (ledger @ rs) @ rs'"
      "distinct (map cn_GrantID (ledger @ rs)) \<longrightarrow> distinct (map cn_GrantID ((ledger @ rs) @ rs'))"
    using Cons.IH by blast
  then show ?case using rs
    by (intro exI [of _ "rs @ rs'"]) (simp del: distinct_append map_append)
qed (simp add: exI [of _ "[]"])

lemma find_distinct:
  "distinct (map cn_GrantID ledger) \<Longrightarrow> r \<in> set ledger \<Longrightarrow> cn_TenantID r = t \<Longrightarrow>
     find (\<lambda>x. cn_TenantID x = t \<and> cn_GrantID x = cn_GrantID r) ledger = Some r"
  by (induction ledger) (auto simp: image_iff)

text \<open>
  C19. The durable record of a consumption is permanent: once a consumption succeeded, looking
  its grant up returns that consumption at database resolution, whatever consumptions happen afterwards.
\<close>

theorem consumption_record_permanent:
  assumes "ledger = fold pgc_exec ops []" and "PGC_Consume f dbnow consumedAt tasks seen c ledger = (Inr r, ledger1)"
    and "1000 \<le> cn_RequestedAt c" and "consumedAt \<noteq> 0"
  shows "PGC_Get CallOK (cn_TenantID c) (cn_GrantID c) (fold pgc_exec later ledger1) = Inr (stored_consumption consumedAt c)"
proof -
  have v: "validateConsumption c" "consumption_validity (stored_consumption consumedAt c)"
      and l: "ledger1 = ledger @ [stored_consumption consumedAt c]" "\<not> consumed_in c ledger"
    using PGC_Consume_cases [OF assms(2)] by auto
  have "distinct (map cn_GrantID ledger)" using pgc_run_appends [of ops "[]"] assms(1) by auto
  then have "distinct (map cn_GrantID ledger1)" using l by (auto simp: consumed_in_def)
  then obtain rs where rs: "fold pgc_exec later ledger1 = ledger1 @ rs" "distinct (map cn_GrantID (ledger1 @ rs))"
    using pgc_run_appends [of later ledger1] by auto
  have t: "cn_TenantID (stored_consumption consumedAt c) = cn_TenantID c" by (simp add: stored_consumption_def)
  have "find (\<lambda>x. cn_TenantID x = cn_TenantID c \<and> cn_GrantID x = cn_GrantID c) (ledger1 @ rs) = Some (stored_consumption consumedAt c)"
    using find_distinct [OF rs(2), of "stored_consumption consumedAt c"] t l(1) by simp
  moreover have "0 < Truncate_us (cn_RequestedAt c)" using Truncate_us_pos assms(3) .
  moreover have "validateConsumption (consumption.truncate (stored_consumption consumedAt c))"
    using v calculation(2) by (auto simp: stored_consumption_def validateConsumption_def consumption_validity_def IsZero_def)
  moreover have "cn_TenantID c \<noteq> ''''" "cn_GrantID c \<noteq> ''''" using v(1) by (simp_all add: validateConsumption_def)
  ultimately show ?thesis using v(2) assms(4)
    by (simp add: PGC_Get_def rs(1) IsZero_def consumption_validity_def stored_consumption_def)
qed

section \<open>An example exchange\<close>

definition example_grant_codec :: grant_codec where
  "example_grant_codec = \<lparr>gc_sha256 = (\<lambda>s. take 32 (s @ replicate 32 CHR ''0'')), gc_Marshal = (\<lambda>g. Some (''grant:'' @ eg_GrantID g))\<rparr>"

definition example_authority :: authority where
  "example_authority = \<lparr>au_issuer = ''broker'', au_audience = ''collectors'', au_signing = keyring_provider example_ed25519 example_keyring,
     au_fences = (\<lambda>_. Inr 1)\<rparr>"

definition example_draft :: execution_grant where
  "example_draft = \<lparr>eg_GrantID = ''g'', eg_Nonce = ''n'', eg_TenantID = ''acme'', eg_CollectorSPIFFEID = ''c1'', eg_ResolutionID = ''r1'',
     eg_TaskID = ''t1'', eg_TargetSnapshotID = ''sn'', eg_TargetSnapshotDigest = ''sh'', eg_TargetID = ''sw1'', eg_RecipeID = ''rec'',
     eg_RecipeVersion = ''1'', eg_ParameterDigest = '''', eg_FencingToken = 1, eg_TriggerDecisionID = '''', eg_PlanningDecisionID = '''',
     eg_ExecutionDecisionID = '''', eg_ApprovalGrantID = '''', eg_Audience = '''', eg_NotBefore = 1000, eg_ExpiresAt = 50000,
     eg_MaximumDuration = 1, eg_MaximumResponseBytes = 1, eg_CredentialClass = ''ro'', eg_SingleUse = True, eg_Issuer = '''',
     eg_SignatureAlgorithm = '''', eg_SigningKeyRef = '''', eg_Signature = ''''\<rparr>"

definition example_grant :: execution_grant where
  "example_grant = example_draft\<lparr>eg_Issuer := ''broker'', eg_Audience := ''collectors'', eg_SignatureAlgorithm := ''Ed25519'',
     eg_SigningKeyRef := ''k1'', eg_Signature := example_private CHR ''a'' @ ''grant:g''\<rparr>"

definition example_exchange :: exchange_request where
  "example_exchange = \<lparr>xr_PresentingSPIFFEID = ''c1'', xr_TaskID = ''t1'', xr_TargetID = ''sw1'', xr_RecipeID = ''rec'',
     xr_RecipeVersion = ''1'', xr_FencingToken = 1, xr_Now = 20000\<rparr>"

definition example_executing :: task_table where
  "example_executing = [''t1'' \<mapsto> (new_task_row 0 example_task)\<lparr>tr_state := TaskExecuting, tr_lease_owner := Some ''c1'',
     tr_lease_expiry := Some 60000, tr_fencing_token := 1, tr_execution_grant_id := Some ''g''\<rparr>]"

definition example_consumption :: consumption where
  "example_consumption = grant_consumption example_grant_codec example_grant ''grant:g'' 20000"

lemmas example_grant_simps = example_grant_def example_draft_def example_authority_def keyring_provider_def
  example_keyring_def example_ed25519_def Ed25519Algorithm_def signingPayload_def example_grant_codec_def

lemma example_issue: "Authority_Issue example_grant_codec example_authority example_draft = Inr example_grant"
  by (simp add: Authority_Issue_def Let_def example_grant_simps Keyring_CurrentSigningKey_def executionGrantSigningPurpose_def
      validateGrant_def Keyring_Sign_def IsZero_def)

lemma example_sha: "\<forall>s. length (gc_sha256 example_grant_codec s) = 32"
  by (simp add: example_grant_codec_def min_def)

lemma example_consumption_valid: "validateConsumption example_consumption"
  unfolding example_consumption_def
  by (rule grant_consumption_valid [OF _ example_sha]) (simp_all add: example_grant_def example_draft_def validateGrant_def IsZero_def)

lemma example_consumption_sel:
  "cn_GrantID example_consumption = ''g''" "cn_TenantID example_consumption = ''acme''" "cn_TaskID example_consumption = ''t1''"
  "cn_CollectorSPIFFEID example_consumption = ''c1''" "cn_TargetID example_consumption = ''sw1''"
  "cn_RecipeID example_consumption = ''rec''" "cn_RecipeVersion example_consumption = ''1''"
  "cn_FencingToken example_consumption = 1" "cn_GrantExpiresAt example_consumption = 50000" "cn_RequestedAt example_consumption = 20000"
  by (simp_all add: example_consumption_def grant_consumption_def example_grant_def example_draft_def)

lemma example_consume:
  "PGC_Consume (\<lambda>_. CallOK) 21000 22000 example_executing [] example_consumption [] =
     (Inr (recorded 22000 example_consumption), [stored_consumption 22000 example_consumption])"
  by (simp add: PGC_Consume_def example_consumption_valid consumed_in_def lockAndValidateTask_def example_consumption_sel Let_def
      consumption_validity_def stored_consumption_def Truncate_us_def sql_write_def
      example_executing_def new_task_row_def example_task_def)

lemma example_grant_sel:
  "eg_Issuer example_grant = ''broker''" "eg_Audience example_grant = ''collectors''" "eg_NotBefore example_grant = 1000"
  "eg_ExpiresAt example_grant = 50000" "eg_SingleUse example_grant" "eg_CollectorSPIFFEID example_grant = ''c1''"
  "eg_TaskID example_grant = ''t1''" "eg_TargetID example_grant = ''sw1''" "eg_RecipeID example_grant = ''rec''"
  "eg_RecipeVersion example_grant = ''1''" "eg_FencingToken example_grant = 1" "eg_GrantID example_grant = ''g''"
  "eg_TenantID example_grant = ''acme''"
  by (simp_all add: example_grant_def example_draft_def)

lemma example_exchanged:
  "Authority_Exchange example_grant_codec example_authority (PGC_Consume (\<lambda>_. CallOK) 21000 22000 example_executing [])
     (Some ''tok'') example_grant example_exchange [] =
   (Inr (grant_credential ''tok'' example_grant), [stored_consumption 22000 example_consumption])"
proof -
  have v: "signature_valid example_grant_codec example_authority example_grant"
    by (simp add: signature_valid_def example_grant_simps Keyring_Verify_def example_private_def)
  have m: "gc_Marshal example_grant_codec example_grant = Some ''grant:g''" by (simp add: example_grant_simps)
  have a: "au_issuer example_authority = ''broker''" "au_audience example_authority = ''collectors''"
      "au_fences example_authority = (\<lambda>_. Inr 1)"
    by (simp_all add: example_authority_def)
  show ?thesis
    by (simp add: Authority_Exchange_def v m a example_grant_sel example_exchange_def IsZero_def
        example_consumption_def [symmetric] example_consume)
qed

theorem grant_exchanged_at_most_once_witness:
  "\<exists>e. Authority_Exchange example_grant_codec example_authority (PGC_Consume (\<lambda>_. CallOK) 23000 24000 example_executing [])
     (Some ''tok2'') example_grant example_exchange [stored_consumption 22000 example_consumption] =
     (Inl e, [stored_consumption 22000 example_consumption])"
  by (rule grant_exchanged_at_most_once [OF example_exchanged, of _ "[]"]) simp_all

theorem exchange_requires_live_attempt_witness:
  "\<exists>r. example_executing ''t1'' = Some r \<and> tr_state r = TaskExecuting \<and> tr_fencing_token r = 1"
  using exchange_requires_live_attempt [OF example_exchanged] by (auto simp: example_exchange_def)

theorem issued_grant_exchanges_witness:
  "\<exists>m'. Authority_Exchange example_grant_codec (example_authority\<lparr>au_signing := keyring_provider example_ed25519
       (rotate_all example_ed25519 [(''k2'', example_private CHR ''b'')] example_keyring)\<rparr>)
     MemC_Consume (Some ''tok'') example_grant example_exchange \<lparr>mc_byGrant = Map.empty, mc_byNonce = Map.empty\<rparr> =
     (Inr (grant_credential ''tok'' example_grant), m') \<and>
     MemC_Get (eg_TenantID example_grant) (eg_GrantID example_grant) m' = Inr (recorded 20000 example_consumption)"
proof -
  have s: "au_signing example_authority = keyring_provider example_ed25519 example_keyring" by (simp add: example_authority_def)
  have m: "gc_Marshal example_grant_codec example_grant = Some ''grant:g''" by (simp add: example_grant_simps)
  have f: "au_fences example_authority (eg_TaskID example_grant) = Inr (eg_FencingToken example_grant)"
    by (simp add: example_authority_def example_grant_sel)
  show ?thesis
    unfolding example_consumption_def
    by (rule issued_grant_exchanges [OF example_ed25519_ok example_keyring_new example_sha s example_issue m refl f])
      (simp_all add: example_exchange_def example_grant_sel)
qed

theorem consumption_record_permanent_witness:
  "PGC_Get CallOK ''acme'' ''g'' [stored_consumption 22000 example_consumption] = Inr (stored_consumption 22000 example_consumption)"
  using consumption_record_permanent [OF _ example_consume, of "[]" "[]"] by (simp add: example_consumption_sel)

end
