(* ===== verification/Approval.thy ===== *)
theory Approval
  imports Broker_Prelude
begin

text \<open>
  Approval grants of bounded use, \<^verbatim>\<open>internal/approval/approval.go\<close> (service and in-memory
  repository) and \<^verbatim>\<open>internal/approval/postgres_repository.go\<close> over the approval tables of
  \<^verbatim>\<open>migrations/000006_policy_approval.up.sql\<close>.  The locale \<open>approval_store\<close> is the contract of both
  repositories: a call changes nothing, adds an unused grant, or counts one use of a grant that has one left.
\<close>

record approval_grant =
  ag_GrantID :: string
  ag_TenantID :: string
  ag_RecipeID :: string
  ag_TargetSubsetHash :: string
  ag_MaxUses :: int
  ag_Used :: int
  ag_ExpiresAt :: gotime
  ag_CreatedBy :: string
  ag_PolicyDecisionID :: string
  ag_Version :: int
  ag_CreatedAt :: gotime

record approval_create =
  acr_GrantID :: string
  acr_TenantID :: string
  acr_RecipeID :: string
  acr_TargetSubsetHash :: string
  acr_MaxUses :: int
  acr_ExpiresAt :: gotime
  acr_CreatedBy :: string
  acr_PolicyDecisionID :: string

record approval_consume =
  aco_ConsumptionID :: string
  aco_GrantID :: string
  aco_TenantID :: string
  aco_RecipeID :: string
  aco_TargetSubsetHash :: string
  aco_TaskID :: string
  aco_ActorID :: string
  aco_Now :: gotime

datatype approval_error =
    ErrApprovalNotFound | ErrApprovalExhausted | ErrApprovalExpired | ErrApprovalBinding
  | ErrApprovalArgument | ErrApprovalExists | ErrApprovalDatabase

section \<open>The service\<close>

definition validateCreate :: "approval_create \<Rightarrow> bool" where
  "validateCreate request \<longleftrightarrow>
     \<not> (acr_GrantID request = '''' \<or> acr_TenantID request = '''' \<or> acr_RecipeID request = '''' \<or>
        acr_TargetSubsetHash request = '''' \<or> acr_MaxUses request \<le> 0 \<or> IsZero (acr_ExpiresAt request) \<or>
        acr_CreatedBy request = '''' \<or> acr_PolicyDecisionID request = '''')"

definition validateConsume :: "approval_consume \<Rightarrow> bool" where
  "validateConsume request \<longleftrightarrow>
     \<not> (aco_ConsumptionID request = '''' \<or> aco_GrantID request = '''' \<or> aco_TenantID request = '''' \<or>
        aco_RecipeID request = '''' \<or> aco_TargetSubsetHash request = '''' \<or> aco_TaskID request = '''' \<or>
        aco_ActorID request = '''' \<or> IsZero (aco_Now request))"

type_synonym 'w approval_result = "(approval_error + approval_grant) \<times> 'w"

definition approval_CreateContext ::
  "(approval_create \<Rightarrow> 'w \<Rightarrow> 'w approval_result) \<Rightarrow> approval_create \<Rightarrow> 'w \<Rightarrow> 'w approval_result" where
  "approval_CreateContext Create request w =
     (if \<not> validateCreate request then (Inl ErrApprovalArgument, w) else Create request w)"

definition approval_ConsumeContext ::
  "(approval_consume \<Rightarrow> 'w \<Rightarrow> 'w approval_result) \<Rightarrow> approval_consume \<Rightarrow> 'w \<Rightarrow> 'w approval_result" where
  "approval_ConsumeContext Consume request w =
     (if \<not> validateConsume request then (Inl ErrApprovalArgument, w) else Consume request w)"

section \<open>The in-memory repository\<close>

record memory_approvals =
  ma_grants :: "string \<rightharpoonup> approval_grant"
  ma_uses :: "string \<rightharpoonup> string"

definition new_grant :: "gotime \<Rightarrow> gotime \<Rightarrow> approval_create \<Rightarrow> approval_grant" where
  "new_grant expiresAt createdAt request =
     \<lparr>ag_GrantID = acr_GrantID request, ag_TenantID = acr_TenantID request, ag_RecipeID = acr_RecipeID request,
      ag_TargetSubsetHash = acr_TargetSubsetHash request, ag_MaxUses = acr_MaxUses request, ag_Used = 0,
      ag_ExpiresAt = expiresAt, ag_CreatedBy = acr_CreatedBy request,
      ag_PolicyDecisionID = acr_PolicyDecisionID request, ag_Version = 1, ag_CreatedAt = createdAt\<rparr>"

definition used_once :: "approval_grant \<Rightarrow> approval_grant" where
  "used_once grant = grant\<lparr>ag_Used := int64_inc (ag_Used grant), ag_Version := int64_inc (ag_Version grant)\<rparr>"

definition MemA_Create :: "gotime \<Rightarrow> approval_create \<Rightarrow> memory_approvals \<Rightarrow> memory_approvals approval_result" where
  "MemA_Create now request m =
     (if ma_grants m (acr_GrantID request) \<noteq> None then (Inl ErrApprovalExists, m)
      else let grant = new_grant (acr_ExpiresAt request) now request
           in (Inr grant, m\<lparr>ma_grants := (ma_grants m)(ag_GrantID grant \<mapsto> grant)\<rparr>))"

definition MemA_Get :: "string \<Rightarrow> string \<Rightarrow> memory_approvals \<Rightarrow> approval_error + approval_grant" where
  "MemA_Get tenantID grantID m =
     (case ma_grants m grantID of
        None \<Rightarrow> Inl ErrApprovalNotFound
      | Some grant \<Rightarrow> if ag_TenantID grant \<noteq> tenantID then Inl ErrApprovalNotFound else Inr grant)"

definition MemA_Consume :: "approval_consume \<Rightarrow> memory_approvals \<Rightarrow> memory_approvals approval_result" where
  "MemA_Consume request m =
     (case ma_grants m (aco_GrantID request) of
        None \<Rightarrow> (Inl ErrApprovalNotFound, m)
      | Some grant \<Rightarrow>
          if ag_TenantID grant \<noteq> aco_TenantID request then (Inl ErrApprovalNotFound, m)
          else (case ma_uses m (aco_ConsumptionID request) of
             Some existingGrant \<Rightarrow>
               if existingGrant = aco_GrantID request then (Inr grant, m) else (Inl ErrApprovalBinding, m)
           | None \<Rightarrow>
               if ag_RecipeID grant \<noteq> aco_RecipeID request \<or> ag_TargetSubsetHash grant \<noteq> aco_TargetSubsetHash request
               then (Inl ErrApprovalBinding, m)
               else if \<not> aco_Now request < ag_ExpiresAt grant then (Inl ErrApprovalExpired, m)
               else if ag_MaxUses grant \<le> ag_Used grant then (Inl ErrApprovalExhausted, m)
               else let grant = used_once grant
                    in (Inr grant, m\<lparr>ma_grants := (ma_grants m)(ag_GrantID grant \<mapsto> grant),
                                     ma_uses := (ma_uses m)(aco_ConsumptionID request \<mapsto> aco_GrantID request)\<rparr>)))"

definition MemA_ConsumeLegacy :: "string \<Rightarrow> memory_approvals \<Rightarrow> approval_error option \<times> memory_approvals" where
  "MemA_ConsumeLegacy grantID m =
     (case ma_grants m grantID of
        None \<Rightarrow> (Some ErrApprovalNotFound, m)
      | Some grant \<Rightarrow>
          if ag_MaxUses grant \<le> ag_Used grant then (Some ErrApprovalExhausted, m)
          else (None, m\<lparr>ma_grants := (ma_grants m)(grantID \<mapsto> used_once grant)\<rparr>))"

section \<open>The PostgreSQL repository\<close>

record approval_consumption =
  ac_consumption_id :: string
  ac_grant_id :: string
  ac_tenant_id :: string
  ac_task_id :: string
  ac_actor_id :: string
  ac_grant_version :: int

record approval_db =
  ad_grants :: "string \<rightharpoonup> approval_grant"
  ad_consumptions :: "approval_consumption list"

definition PGA_Create :: "db_call \<Rightarrow> gotime \<Rightarrow> approval_create \<Rightarrow> approval_db \<Rightarrow> approval_db approval_result" where
  "PGA_Create c dbnow request db =
     (case sql_write c db
        (if \<not> dbnow < Truncate_us (acr_ExpiresAt request) then Some (None, db)
         else if ad_grants db (acr_GrantID request) \<noteq> None \<or> acr_MaxUses request \<le> 0 \<or> int32_max < acr_MaxUses request then None
         else let grant = new_grant (Truncate_us (acr_ExpiresAt request)) dbnow request
              in Some (Some grant, db\<lparr>ad_grants := (ad_grants db)(acr_GrantID request \<mapsto> grant)\<rparr>)) of
       (None, db') \<Rightarrow> (Inl ErrApprovalDatabase, db')
     | (Some None, db') \<Rightarrow> (Inl ErrApprovalExpired, db')
     | (Some (Some grant), db') \<Rightarrow> (Inr grant, db'))"

definition select_grant :: "string \<Rightarrow> string \<Rightarrow> approval_db \<Rightarrow> approval_grant option" where
  "select_grant tenantID grantID db =
     (case ad_grants db grantID of
        None \<Rightarrow> None
      | Some grant \<Rightarrow> if ag_TenantID grant = tenantID then Some grant else None)"

definition PGA_Get :: "db_call \<Rightarrow> string \<Rightarrow> string \<Rightarrow> approval_db \<Rightarrow> approval_error + approval_grant" where
  "PGA_Get c tenantID grantID db =
     (if c \<noteq> CallOK then Inl ErrApprovalDatabase
      else case select_grant tenantID grantID db of None \<Rightarrow> Inl ErrApprovalNotFound | Some grant \<Rightarrow> Inr grant)"

definition existingConsumption ::
  "db_call \<Rightarrow> approval_consume \<Rightarrow> approval_consumption list \<Rightarrow> approval_error + bool" where
  "existingConsumption c request rows =
     (if c \<noteq> CallOK then Inl ErrApprovalDatabase
      else case find (\<lambda>r. ac_consumption_id r = aco_ConsumptionID request \<or>
          ac_grant_id r = aco_GrantID request \<and> ac_task_id r = aco_TaskID request) rows of
        None \<Rightarrow> Inr False
      | Some r \<Rightarrow>
          if ac_consumption_id r \<noteq> aco_ConsumptionID request \<or> ac_grant_id r \<noteq> aco_GrantID request \<or>
             ac_tenant_id r \<noteq> aco_TenantID request \<or> ac_task_id r \<noteq> aco_TaskID request
          then Inl ErrApprovalBinding else Inr True)"

definition PGA_Consume :: "db_faults \<Rightarrow> gotime \<Rightarrow> approval_consume \<Rightarrow> approval_db \<Rightarrow> approval_db approval_result" where
  "PGA_Consume f dbnow request db =
     (if f 0 \<noteq> CallOK \<or> f 1 \<noteq> CallOK then (Inl ErrApprovalDatabase, db)
      else case select_grant (aco_TenantID request) (aco_GrantID request) db of
        None \<Rightarrow> (Inl ErrApprovalNotFound, db)
      | Some grant \<Rightarrow>
          (case existingConsumption (f 2) request (ad_consumptions db) of
             Inl e \<Rightarrow> (Inl e, db)
           | Inr True \<Rightarrow> if f 3 \<noteq> CallOK then (Inl ErrApprovalDatabase, db) else (Inr grant, db)
           | Inr False \<Rightarrow>
               if ag_RecipeID grant \<noteq> aco_RecipeID request \<or> ag_TargetSubsetHash grant \<noteq> aco_TargetSubsetHash request
               then (Inl ErrApprovalBinding, db)
               else if \<not> dbnow < ag_ExpiresAt grant then (Inl ErrApprovalExpired, db)
               else if ag_MaxUses grant \<le> ag_Used grant then (Inl ErrApprovalExhausted, db)
               else let grant = used_once grant;
                        row = \<lparr>ac_consumption_id = aco_ConsumptionID request, ac_grant_id = aco_GrantID request,
                               ac_tenant_id = aco_TenantID request, ac_task_id = aco_TaskID request,
                               ac_actor_id = aco_ActorID request, ac_grant_version = ag_Version grant\<rparr>
                    in if f 3 \<noteq> CallOK \<or> ag_Version grant \<le> 0 \<or> f 4 \<noteq> CallOK then (Inl ErrApprovalDatabase, db)
                       else (case sql_write (f 5) db (Some ((), db\<lparr>
                           ad_grants := (ad_grants db)(aco_GrantID request \<mapsto> grant),
                           ad_consumptions := ad_consumptions db @ [row]\<rparr>)) of
                          (None, db') \<Rightarrow> (Inl ErrApprovalDatabase, db')
                        | (Some _, db') \<Rightarrow> (Inr grant, db'))))"

section \<open>The contract\<close>

inductive approval_step :: "(string \<rightharpoonup> approval_grant) \<Rightarrow> (string \<rightharpoonup> approval_grant) \<Rightarrow> bool" where
  create: "gs (ag_GrantID g) = None \<Longrightarrow> ag_Used g = 0 \<Longrightarrow> 0 < ag_MaxUses g \<Longrightarrow> ag_MaxUses g \<le> int64_max \<Longrightarrow>
    approval_step gs (gs(ag_GrantID g \<mapsto> g))"
| consume: "gs i = Some g \<Longrightarrow> ag_Used g < ag_MaxUses g \<Longrightarrow> approval_step gs (gs(i \<mapsto> used_once g))"

definition grant_ok :: "string \<Rightarrow> approval_grant \<Rightarrow> bool" where
  "grant_ok i g \<longleftrightarrow> ag_GrantID g = i \<and> 0 \<le> ag_Used g \<and> ag_Used g \<le> ag_MaxUses g \<and> ag_MaxUses g \<le> int64_max"

definition grants_ok :: "(string \<rightharpoonup> approval_grant) \<Rightarrow> bool" where
  "grants_ok gs \<longleftrightarrow> (\<forall>i g. gs i = Some g \<longrightarrow> grant_ok i g)"

text \<open>The part of a grant that no use changes.\<close>

definition grant_terms :: "approval_grant \<Rightarrow> approval_grant" where
  "grant_terms g = g\<lparr>ag_Used := 0, ag_Version := 0\<rparr>"

lemma int64_inc_less: "n < int64_max \<Longrightarrow> int64_inc n = n + 1"
  by (simp add: int64_inc_def)

lemma used_once_Used: "grant_ok i g \<Longrightarrow> ag_Used g < ag_MaxUses g \<Longrightarrow> ag_Used (used_once g) = ag_Used g + 1"
  by (simp add: used_once_def grant_ok_def int64_inc_less)

lemma used_once_terms [simp]: "grant_terms (used_once g) = grant_terms g"
  by (simp add: used_once_def grant_terms_def)

lemma used_once_sel [simp]:
  "ag_GrantID (used_once g) = ag_GrantID g" "ag_MaxUses (used_once g) = ag_MaxUses g" "ag_TenantID (used_once g) = ag_TenantID g"
  by (simp_all add: used_once_def)

lemma used_once_ok: "grant_ok i g \<Longrightarrow> ag_Used g < ag_MaxUses g \<Longrightarrow> grant_ok i (used_once g)"
  using used_once_Used [of i g] by (simp add: grant_ok_def)

lemma approval_step_ok: "approval_step gs gs' \<Longrightarrow> grants_ok gs \<Longrightarrow> grants_ok gs'"
  by (induction rule: approval_step.induct) (auto simp: grants_ok_def used_once_ok, simp add: grant_ok_def)

lemma approval_step_grant:
  assumes "approval_step gs gs'" and "gs i = Some g"
  shows "\<exists>g'. gs' i = Some g' \<and> (g' = g \<or> g' = used_once g \<and> ag_Used g < ag_MaxUses g)"
  using assms by (induction rule: approval_step.induct) auto

locale approval_store =
  fixes view :: "'w \<Rightarrow> string \<rightharpoonup> approval_grant"
    and exec :: "'op \<Rightarrow> 'w \<Rightarrow> 'w"
    and legal :: "'op \<Rightarrow> bool"
  assumes exec_step: "grants_ok (view w) \<Longrightarrow> legal op \<Longrightarrow> view (exec op w) = view w \<or> approval_step (view w) (view (exec op w))"
begin

lemma run_ok: "grants_ok (view w) \<Longrightarrow> list_all legal ops \<Longrightarrow> grants_ok (view (fold exec ops w))"
proof (induction ops arbitrary: w)
  case (Cons op ops)
  then have "grants_ok (view (exec op w))" using exec_step [of w op] approval_step_ok by auto
  with Cons show ?case by simp
qed simp

text \<open>Uses only grow, never past the limit, and the terms of a grant never change.\<close>

lemma run_grant:
  "grants_ok (view w) \<Longrightarrow> list_all legal ops \<Longrightarrow> view w i = Some g \<Longrightarrow>
     \<exists>g'. view (fold exec ops w) i = Some g' \<and> grant_terms g' = grant_terms g \<and> ag_Used g \<le> ag_Used g' \<and> ag_Used g' \<le> ag_MaxUses g"
proof (induction ops arbitrary: w g)
  case Nil
  then show ?case by (simp add: grants_ok_def grant_ok_def)
next
  case (Cons op ops)
  have ok: "grants_ok (view (exec op w))" using Cons.prems exec_step [of w op] approval_step_ok by auto
  have g: "grant_ok i g" using Cons.prems(1,3) by (simp add: grants_ok_def)
  obtain g1 where g1: "view (exec op w) i = Some g1" "g1 = g \<or> g1 = used_once g \<and> ag_Used g < ag_MaxUses g"
    using exec_step [of w op] Cons.prems approval_step_grant [of "view w" "view (exec op w)" i g] by auto
  have "grant_terms g1 = grant_terms g" "ag_Used g \<le> ag_Used g1" "ag_MaxUses g1 = ag_MaxUses g"
    using g1(2) used_once_Used [OF g] by auto
  then show ?case using Cons.IH [OF ok _ g1(1)] Cons.prems(2) by fastforce
qed

end

section \<open>Both repositories implement it\<close>

datatype mem_approval_op =
    MemApprove gotime approval_create
  | MemUse approval_consume
  | MemUseLegacy string

fun mem_approval_exec :: "mem_approval_op \<Rightarrow> memory_approvals \<Rightarrow> memory_approvals" where
  "mem_approval_exec (MemApprove now request) m = snd (approval_CreateContext (MemA_Create now) request m)"
| "mem_approval_exec (MemUse request) m = snd (approval_ConsumeContext MemA_Consume request m)"
| "mem_approval_exec (MemUseLegacy grantID) m = snd (MemA_ConsumeLegacy grantID m)"

text \<open>\<^verbatim>\<open>MaxUses\<close> is a Go \<^verbatim>\<open>int\<close>.\<close>

fun mem_approval_legal :: "mem_approval_op \<Rightarrow> bool" where
  "mem_approval_legal (MemApprove now request) = (acr_MaxUses request \<le> int64_max)"
| "mem_approval_legal _ = True"

datatype pg_approval_op =
    PgApprove db_call gotime approval_create
  | PgUse db_faults gotime approval_consume

fun pg_approval_exec :: "pg_approval_op \<Rightarrow> approval_db \<Rightarrow> approval_db" where
  "pg_approval_exec (PgApprove c dbnow request) db = snd (approval_CreateContext (PGA_Create c dbnow) request db)"
| "pg_approval_exec (PgUse f dbnow request) db = snd (approval_ConsumeContext (PGA_Consume f dbnow) request db)"

lemma MemA_Consume_step:
  assumes "grants_ok (ma_grants m)"
  shows "ma_grants (snd (MemA_Consume request m)) = ma_grants m \<or> approval_step (ma_grants m) (ma_grants (snd (MemA_Consume request m)))"
proof (cases "ma_grants m (aco_GrantID request)")
  case (Some g)
  then have "ag_GrantID g = aco_GrantID request" using assms by (simp add: grants_ok_def grant_ok_def)
  then show ?thesis using approval_step.consume [of "ma_grants m" "aco_GrantID request" g] Some
    by (auto simp: MemA_Consume_def Let_def split: option.splits)
qed (simp add: MemA_Consume_def)

interpretation local_approvals: approval_store ma_grants mem_approval_exec mem_approval_legal
proof
  fix m :: memory_approvals and op assume ok: "grants_ok (ma_grants m)" and legal: "mem_approval_legal op"
  show "ma_grants (mem_approval_exec op m) = ma_grants m \<or> approval_step (ma_grants m) (ma_grants (mem_approval_exec op m))"
  proof (cases op)
    case (MemApprove now request)
    then show ?thesis using legal approval_step.create [of "ma_grants m" "new_grant (acr_ExpiresAt request) now request"]
      by (auto simp: approval_CreateContext_def MemA_Create_def validateCreate_def Let_def new_grant_def)
  next
    case (MemUse request)
    then show ?thesis using MemA_Consume_step [OF ok, of request] by (simp add: approval_ConsumeContext_def)
  next
    case (MemUseLegacy i)
    then show ?thesis using approval_step.consume [of "ma_grants m" i]
      by (auto simp: MemA_ConsumeLegacy_def split: option.splits)
  qed
qed

lemma PGA_Create_cases:
  "snd (PGA_Create c dbnow request db) = db \<or>
   ad_grants db (acr_GrantID request) = None \<and> 0 < acr_MaxUses request \<and> acr_MaxUses request \<le> int32_max \<and>
   snd (PGA_Create c dbnow request db) = db\<lparr>ad_grants := (ad_grants db)(acr_GrantID request \<mapsto>
     new_grant (Truncate_us (acr_ExpiresAt request)) dbnow request)\<rparr>"
  by (cases c) (auto simp: PGA_Create_def sql_write_def Let_def)

definition use_row :: "approval_consume \<Rightarrow> approval_grant \<Rightarrow> approval_consumption" where
  "use_row request g = \<lparr>ac_consumption_id = aco_ConsumptionID request, ac_grant_id = aco_GrantID request,
     ac_tenant_id = aco_TenantID request, ac_task_id = aco_TaskID request, ac_actor_id = aco_ActorID request,
     ac_grant_version = ag_Version g\<rparr>"

text \<open>What a committed use did.\<close>

definition used_in :: "approval_consume \<Rightarrow> approval_grant \<Rightarrow> approval_db \<Rightarrow> approval_db \<Rightarrow> bool" where
  "used_in request g db db' \<longleftrightarrow>
     ad_grants db (aco_GrantID request) = Some g \<and> ag_TenantID g = aco_TenantID request \<and> ag_Used g < ag_MaxUses g \<and>
     (\<forall>r \<in> set (ad_consumptions db). ac_consumption_id r \<noteq> aco_ConsumptionID request \<and>
        \<not> (ac_grant_id r = aco_GrantID request \<and> ac_task_id r = aco_TaskID request)) \<and>
     db' = db\<lparr>ad_grants := (ad_grants db)(aco_GrantID request \<mapsto> used_once g),
       ad_consumptions := ad_consumptions db @ [use_row request (used_once g)]\<rparr>"

lemma PGA_Consume_cases:
  assumes "PGA_Consume f dbnow request db = (a, db')"
  shows "db' = db \<or> (\<exists>g. used_in request g db db' \<and> a \<in> {Inr (used_once g), Inl ErrApprovalDatabase})"
proof (cases "db' = db")
  case False
  then obtain g where g: "select_grant (aco_TenantID request) (aco_GrantID request) db = Some g"
      "existingConsumption (f 2) request (ad_consumptions db) = Inr False" "ag_Used g < ag_MaxUses g"
      "db' = db\<lparr>ad_grants := (ad_grants db)(aco_GrantID request \<mapsto> used_once g),
        ad_consumptions := ad_consumptions db @ [use_row request (used_once g)]\<rparr>"
      "a \<in> {Inr (used_once g), Inl ErrApprovalDatabase}"
    using assms unfolding PGA_Consume_def
    by (cases "f 5") (auto simp: Let_def sql_write_def use_row_def split: if_splits option.splits sum.splits bool.splits)
  have "used_in request g db db'"
    using g by (auto simp: used_in_def select_grant_def existingConsumption_def find_None_iff split: option.splits if_splits)
  then show ?thesis using g(5) by blast
qed simp

interpretation durable_approvals: approval_store ad_grants pg_approval_exec "\<lambda>_. True"
proof
  fix db :: approval_db and op assume ok: "grants_ok (ad_grants db)"
  show "ad_grants (pg_approval_exec op db) = ad_grants db \<or> approval_step (ad_grants db) (ad_grants (pg_approval_exec op db))"
  proof (cases op)
    case (PgApprove c dbnow request)
    have "int32_max \<le> int64_max" by (simp add: int32_max_def int64_max_def)
    then show ?thesis using PgApprove PGA_Create_cases [of c dbnow request db]
        approval_step.create [of "ad_grants db" "new_grant (Truncate_us (acr_ExpiresAt request)) dbnow request"]
      by (auto simp: approval_CreateContext_def new_grant_def)
  next
    case (PgUse f dbnow request)
    then show ?thesis using PGA_Consume_cases [OF prod.collapse [symmetric], of f dbnow request db] approval_step.consume
      by (auto simp: approval_ConsumeContext_def used_in_def)
  qed
qed

section \<open>Guarantees of the durable repository\<close>

definition empty_approvals :: approval_db where
  "empty_approvals = \<lparr>ad_grants = Map.empty, ad_consumptions = []\<rparr>"

definition uses_of :: "string \<Rightarrow> approval_db \<Rightarrow> approval_consumption list" where
  "uses_of i db = filter (\<lambda>r. ac_grant_id r = i) (ad_consumptions db)"

definition uses_counted :: "approval_db \<Rightarrow> bool" where
  "uses_counted db \<longleftrightarrow>
     (\<forall>i g. ad_grants db i = Some g \<longrightarrow> ag_Used g = int (length (uses_of i db))) \<and>
     (\<forall>r \<in> set (ad_consumptions db). ad_grants db (ac_grant_id r) \<noteq> None) \<and>
     distinct (map ac_consumption_id (ad_consumptions db)) \<and>
     distinct (map (\<lambda>r. (ac_grant_id r, ac_task_id r)) (ad_consumptions db))"

lemma used_in_counted:
  assumes "used_in request g db db'" and "uses_counted db" and "grants_ok (ad_grants db)"
  shows "uses_counted db'"
proof -
  have g: "ad_grants db (aco_GrantID request) = Some g" "ag_Used g < ag_MaxUses g"
    and db': "db' = db\<lparr>ad_grants := (ad_grants db)(aco_GrantID request \<mapsto> used_once g),
       ad_consumptions := ad_consumptions db @ [use_row request (used_once g)]\<rparr>"
    and new: "aco_ConsumptionID request \<notin> ac_consumption_id ` set (ad_consumptions db)"
      "(aco_GrantID request, aco_TaskID request) \<notin> (\<lambda>r. (ac_grant_id r, ac_task_id r)) ` set (ad_consumptions db)"
    using assms(1) by (auto simp: used_in_def)
  have "ag_Used (used_once g) = ag_Used g + 1"
    using used_once_Used [of "aco_GrantID request" g] g assms(3) by (simp add: grants_ok_def)
  then show ?thesis using assms(2) g(1) new
    by (auto simp: uses_counted_def db' uses_of_def use_row_def)
qed

lemma created_counted:
  assumes "uses_counted db" and "ad_grants db (ag_GrantID g) = None" and "ag_Used g = 0"
  shows "uses_counted (db\<lparr>ad_grants := (ad_grants db)(ag_GrantID g \<mapsto> g)\<rparr>)"
proof -
  have "filter (\<lambda>r. ac_grant_id r = ag_GrantID g) (ad_consumptions db) = []"
    using assms(1,2) by (auto simp: uses_counted_def filter_empty_conv)
  then show ?thesis using assms by (auto simp: uses_counted_def uses_of_def)
qed

lemma pg_approval_exec_counted:
  assumes "uses_counted db" and "grants_ok (ad_grants db)"
  shows "uses_counted (pg_approval_exec op db)"
proof (cases op)
  case (PgApprove c dbnow request)
  then show ?thesis using PGA_Create_cases [of c dbnow request db] assms(1)
      created_counted [of db "new_grant (Truncate_us (acr_ExpiresAt request)) dbnow request"]
    by (auto simp: approval_CreateContext_def new_grant_def)
next
  case (PgUse f dbnow request)
  then show ?thesis using PGA_Consume_cases [OF prod.collapse [symmetric], of f dbnow request db] used_in_counted assms
    by (auto simp: approval_ConsumeContext_def)
qed

lemma pg_approval_run:
  "uses_counted db \<Longrightarrow> grants_ok (ad_grants db) \<Longrightarrow>
     uses_counted (fold pg_approval_exec ops db) \<and> grants_ok (ad_grants (fold pg_approval_exec ops db))"
proof (induction ops arbitrary: db)
  case (Cons op ops)
  have "grants_ok (ad_grants (pg_approval_exec op db))"
    using durable_approvals.run_ok [of db "[op]"] Cons.prems(2) by simp
  then show ?case using Cons.IH pg_approval_exec_counted [OF Cons.prems] by simp
qed simp

lemma empty_approvals_ok: "uses_counted empty_approvals" "grants_ok (ad_grants empty_approvals)"
  by (simp_all add: empty_approvals_def uses_counted_def grants_ok_def)

text \<open>
  C20. An approval is never overused: in every reachable database the use counter of a grant is the number of
  its recorded consumptions, these are for pairwise different tasks, and there are at most the approved number of
  them, under every interleaving, driver error and lost reply.
\<close>

theorem approval_never_overused:
  assumes "db = fold pg_approval_exec ops empty_approvals" and "ad_grants db i = Some g"
  shows "ag_Used g = int (length (uses_of i db)) \<and> int (length (uses_of i db)) \<le> ag_MaxUses g \<and>
    distinct (map ac_task_id (uses_of i db))"
proof -
  have ok: "uses_counted db" "grants_ok (ad_grants db)"
    using pg_approval_run [OF empty_approvals_ok, of ops] assms(1) by auto
  have "distinct (map (\<lambda>r. (ac_grant_id r, ac_task_id r)) (uses_of i db))"
    using ok(1) by (simp add: uses_counted_def uses_of_def distinct_map_filter)
  moreover have "map (\<lambda>r. (ac_grant_id r, ac_task_id r)) (uses_of i db) = map (Pair i) (map ac_task_id (uses_of i db))"
    by (auto simp: uses_of_def)
  ultimately have "distinct (map ac_task_id (uses_of i db))" by (metis distinct_map)
  then show ?thesis using ok assms(2) by (auto simp: uses_counted_def grants_ok_def grant_ok_def)
qed

lemma used_row_kept:
  assumes "uses_counted db" and "grants_ok (ad_grants db)" and "r \<in> set (ad_consumptions db)"
  shows "r \<in> set (ad_consumptions (fold pg_approval_exec ops db))"
  using assms
proof (induction ops arbitrary: db)
  case (Cons op ops)
  have "r \<in> set (ad_consumptions (pg_approval_exec op db))"
  proof (cases op)
    case (PgApprove c dbnow request)
    then show ?thesis using PGA_Create_cases [of c dbnow request db] Cons.prems(3)
      by (auto simp: approval_CreateContext_def)
  next
    case (PgUse f dbnow request)
    then show ?thesis
      using PGA_Consume_cases [OF prod.collapse [symmetric], of f dbnow request db] Cons.prems(3)
      by (auto simp: approval_ConsumeContext_def used_in_def)
  qed
  then show ?case using Cons.IH pg_approval_run [OF Cons.prems(1,2), of "[op]"] by simp
qed simp

lemma existingConsumption_recorded:
  assumes "uses_counted db" and "r \<in> set (ad_consumptions db)"
    and "ac_consumption_id r = aco_ConsumptionID request" and "ac_grant_id r = aco_GrantID request"
    and "ac_tenant_id r = aco_TenantID request" and "ac_task_id r = aco_TaskID request"
  shows "existingConsumption CallOK request (ad_consumptions db) = Inr True"
proof -
  let ?P = "\<lambda>x. ac_consumption_id x = aco_ConsumptionID request \<or> ac_grant_id x = aco_GrantID request \<and> ac_task_id x = aco_TaskID request"
  obtain x where x: "find ?P (ad_consumptions db) = Some x"
    using assms(2-4,6) by (cases "find ?P (ad_consumptions db)") (auto simp: find_None_iff)
  then have m: "x \<in> set (ad_consumptions db)" "?P x" by (auto simp: find_Some_iff)
  have "inj_on ac_consumption_id (set (ad_consumptions db))"
    and "inj_on (\<lambda>r. (ac_grant_id r, ac_task_id r)) (set (ad_consumptions db))"
    using assms(1) by (simp_all add: uses_counted_def distinct_map)
  then have "x = r" using m assms(2-4,6) unfolding inj_on_def by auto
  then show ?thesis using x assms(3-6) by (simp add: existingConsumption_def)
qed

text \<open>
  A use is counted once per task: after a consumption that committed (also when its reply was lost),
  whatever follows, repeating it never counts again; it returns the current grant, or fails with a
  database error and can be repeated.
\<close>

lemma approval_use_idempotent:
  assumes "db = fold pg_approval_exec ops empty_approvals" and "PGA_Consume f dbnow request db = (a, db1)" and "db1 \<noteq> db"
    and "db2 = fold pg_approval_exec later db1"
  shows "\<exists>g. ad_grants db2 (aco_GrantID request) = Some g \<and>
    PGA_Consume f' dbnow' request db2 \<in> {(Inr g, db2), (Inl ErrApprovalDatabase, db2)} \<and>
    ((\<forall>k. f' k = CallOK) \<longrightarrow> PGA_Consume f' dbnow' request db2 = (Inr g, db2))"
proof -
  have ok: "uses_counted db" "grants_ok (ad_grants db)"
    using pg_approval_run [OF empty_approvals_ok, of ops] assms(1) by auto
  obtain g where g: "used_in request g db db1" using PGA_Consume_cases [OF assms(2)] assms(3) by auto
  have ok1: "uses_counted db1" using used_in_counted [OF g ok] .
  have "approval_step (ad_grants db) (ad_grants db1)"
    using approval_step.consume [of "ad_grants db" "aco_GrantID request" g] g by (auto simp: used_in_def)
  then have ok1': "grants_ok (ad_grants db1)" using ok(2) by (rule approval_step_ok)
  have r: "use_row request (used_once g) \<in> set (ad_consumptions db2)"
    unfolding assms(4) by (rule used_row_kept [OF ok1 ok1']) (use g in \<open>simp add: used_in_def\<close>)
  have "ad_grants db1 (aco_GrantID request) = Some (used_once g)" using g by (simp add: used_in_def)
  then obtain g2 where g2: "ad_grants db2 (aco_GrantID request) = Some g2" "grant_terms g2 = grant_terms (used_once g)"
    using durable_approvals.run_grant [OF ok1', of later "aco_GrantID request" "used_once g"] assms(4)
    by (auto simp: list_all_iff)
  have "ag_TenantID g2 = aco_TenantID request"
    using arg_cong [OF g2(2), of ag_TenantID] g by (simp add: grant_terms_def used_in_def)
  then have s: "select_grant (aco_TenantID request) (aco_GrantID request) db2 = Some g2" using g2(1) by (simp add: select_grant_def)
  have ok2: "uses_counted db2" using pg_approval_run [OF ok1 ok1', of later] assms(4) by simp
  have e: "existingConsumption CallOK request (ad_consumptions db2) = Inr True"
    by (rule existingConsumption_recorded [OF ok2 r]) (simp_all add: use_row_def)
  show ?thesis
  proof (intro exI conjI impI)
    show "ad_grants db2 (aco_GrantID request) = Some g2" by (rule g2(1))
    show "PGA_Consume f' dbnow' request db2 \<in> {(Inr g2, db2), (Inl ErrApprovalDatabase, db2)}"
      using s e by (cases "f' 2 = CallOK") (auto simp: PGA_Consume_def existingConsumption_def [of "f' 2"])
    show "PGA_Consume f' dbnow' request db2 = (Inr g2, db2)" if "\<forall>k. f' k = CallOK"
      using s e that by (simp add: PGA_Consume_def)
  qed
qed

definition example_approve :: approval_create where
  "example_approve = \<lparr>acr_GrantID = ''g'', acr_TenantID = ''acme'', acr_RecipeID = ''rec'', acr_TargetSubsetHash = ''h'',
     acr_MaxUses = 1, acr_ExpiresAt = 90000, acr_CreatedBy = ''bob'', acr_PolicyDecisionID = ''d''\<rparr>"

definition example_use :: approval_consume where
  "example_use = \<lparr>aco_ConsumptionID = ''u1'', aco_GrantID = ''g'', aco_TenantID = ''acme'', aco_RecipeID = ''rec'',
     aco_TargetSubsetHash = ''h'', aco_TaskID = ''t1'', aco_ActorID = ''c1'', aco_Now = 5000\<rparr>"

definition example_lost :: db_faults where
  "example_lost k = (if k = 5 then CallReplyLost else CallOK)"

definition example_approvals :: "pg_approval_op list" where
  "example_approvals = [PgApprove CallOK 1000 example_approve]"

lemma example_grant_used:
  "map_option ag_Used (ad_grants (fold pg_approval_exec (example_approvals @ [PgUse example_lost 2000 example_use]) empty_approvals) ''g'') = Some 1"
  by code_simp

theorem approval_never_overused_witness:
  "length (uses_of ''g'' (fold pg_approval_exec (example_approvals @ [PgUse example_lost 2000 example_use]) empty_approvals)) = 1"
proof -
  obtain g where "ad_grants (fold pg_approval_exec (example_approvals @ [PgUse example_lost 2000 example_use]) empty_approvals) ''g'' = Some g"
      "ag_Used g = 1" using example_grant_used by auto
  from approval_never_overused [OF refl this(1)] this(2) show ?thesis by simp
qed

end
