(* ===== verification/Policy.thy ===== *)
theory Policy
  imports Key_Provider
begin

text \<open>
  Policy decisions: the built-in evaluator \<^verbatim>\<open>internal/policy/policy.go\<close>, signed bundles and
  the engine \<^verbatim>\<open>internal/policy/bundle.go\<close>, and the PostgreSQL repository
  \<^verbatim>\<open>internal/policy/postgres_repository.go\<close> over the policy tables of
  \<^verbatim>\<open>migrations/000006_policy_approval.up.sql\<close>.

  \<open>policy_codec\<close> holds SHA-256, the JSON encodings and what the \<^verbatim>\<open>jsonb\<close> column does to a document.
\<close>

section \<open>The built-in evaluator\<close>

record decision =
  de_Allow :: bool
  de_RequiresApproval :: bool
  de_DecisionID :: string
  de_Denials :: "string list"
  de_Obligations :: "string \<rightharpoonup> string"

datatype policy_error =
    ErrNoActiveBundle | ErrNoMatchingRule | ErrPolicyArgument | ErrUnsupportedRecipe | ErrPolicyEncoding
  | ErrPolicyDigest | ErrPolicySignature | ErrPolicyKey | ErrPolicyRandom | ErrPolicyExists | ErrPolicyScope | ErrPolicyDatabase

definition Evaluator_Evaluate :: "string \<Rightarrow> string \<Rightarrow> policy_error + decision" where
  "Evaluator_Evaluate recipeID targetClass =
     (if recipeID = '''' then Inl ErrPolicyArgument
      else let d = \<lparr>de_Allow = False, de_RequiresApproval = False, de_DecisionID = ''decision-'' @ recipeID, de_Denials = [],
             de_Obligations = [''max_duration_ms'' \<mapsto> ''10000'', ''max_response_bytes'' \<mapsto> ''1048576'']\<rparr>
      in if recipeID = ''cached_openconfig_interfaces'' then Inr (d\<lparr>de_Allow := True\<rparr>)
         else if recipeID = ''gnmi_interface_get''
         then (if targetClass = ''production_core''
               then Inr (d\<lparr>de_Denials := [''production_core targets require approval''], de_RequiresApproval := True\<rparr>)
               else Inr (d\<lparr>de_Allow := True\<rparr>))
         else if recipeID = ''vendor_cli_show_interface''
         then (if targetClass = ''production_core''
               then Inr (d\<lparr>de_Allow := True, de_RequiresApproval := True\<rparr>)
               else Inr (d\<lparr>de_Denials := [''cli recipe only permitted for production_core targets'']\<rparr>))
         else Inl ErrUnsupportedRecipe)"

section \<open>Bundles and the engine\<close>

datatype phase = PhaseTrigger | PhaseCandidate | PhaseExecution | PhaseDisclosure | PhaseOther string

record rule =
  rl_RecipeID :: string
  rl_TargetClass :: string
  rl_Allow :: bool
  rl_RequiresApproval :: bool
  rl_Denials :: "string list"
  rl_Obligations :: "string \<rightharpoonup> string"

record policy_bundle =
  bu_BundleID :: string
  bu_Version :: int
  bu_Scope :: string
  bu_IssuedAt :: gotime
  bu_Rules :: "rule list"
  bu_SigningKeyRef :: string
  bu_SignatureAlgorithm :: string
  bu_Signature :: string

record evaluation_request =
  er_TenantID :: string
  er_ActorID :: string
  er_Phase :: phase
  er_Scope :: string
  er_RecipeID :: string
  er_TargetClass :: string
  er_Attributes :: "string \<rightharpoonup> string"

record decision_record =
  dr_DecisionID :: string
  dr_TenantID :: string
  dr_ActorID :: string
  dr_Phase :: phase
  dr_Scope :: string
  dr_RecipeID :: string
  dr_TargetClass :: string
  dr_InputDigest :: string
  dr_BundleID :: string
  dr_BundleVersion :: int
  dr_BundleDigest :: string
  dr_Allow :: bool
  dr_RequiresApproval :: bool
  dr_Denials :: "string list"
  dr_Obligations :: "string \<rightharpoonup> string"
  dr_EvaluatedAt :: gotime

record policy_codec =
  pc_sha256 :: "string \<Rightarrow> string"
  pc_MarshalBundle :: "policy_bundle \<Rightarrow> string option"
  pc_UnmarshalBundle :: "string \<Rightarrow> policy_bundle option"
  pc_MarshalRequest :: "evaluation_request \<Rightarrow> string option"
  pc_MarshalDecision :: "decision_record \<Rightarrow> bool"
  pc_jsonb :: "string \<Rightarrow> string option"

definition validateBundleContents :: "policy_bundle \<Rightarrow> bool" where
  "validateBundleContents b \<longleftrightarrow>
     \<not> (bu_BundleID b = '''' \<or> bu_Version b \<le> 0 \<or> bu_Scope b = '''' \<or> IsZero (bu_IssuedAt b) \<or> length (bu_Rules b) = 0) \<and>
     list_all (\<lambda>rule. \<not> (rl_RecipeID rule = '''' \<or> rl_TargetClass rule = '''' \<or> \<not> rl_Allow rule \<and> length (rl_Denials rule) = 0)) (bu_Rules b)"

definition validateSignedBundle :: "policy_bundle \<Rightarrow> bool" where
  "validateSignedBundle b \<longleftrightarrow>
     validateBundleContents b \<and> \<not> (bu_SigningKeyRef b = '''' \<or> bu_SignatureAlgorithm b = '''' \<or> length (bu_Signature b) = 0)"

definition validateEvaluationRequest :: "evaluation_request \<Rightarrow> bool" where
  "validateEvaluationRequest request \<longleftrightarrow>
     \<not> (er_TenantID request = '''' \<or> er_ActorID request = '''' \<or> er_Scope request = '''' \<or> er_RecipeID request = '''' \<or>
        er_TargetClass request = '''') \<and>
     er_Phase request \<in> {PhaseTrigger, PhaseCandidate, PhaseExecution, PhaseDisclosure}"

fun matchingRule :: "rule list \<Rightarrow> string \<Rightarrow> string \<Rightarrow> policy_error + rule" where
  "matchingRule [] recipeID targetClass = Inl ErrNoMatchingRule"
| "matchingRule (rule # rules) recipeID targetClass =
     (if rl_RecipeID rule = recipeID \<and> rl_TargetClass rule = targetClass then Inr rule
      else matchingRule rules recipeID targetClass)"

definition bundleSigningPayload :: "policy_codec \<Rightarrow> policy_bundle \<Rightarrow> string option" where
  "bundleSigningPayload pc b = pc_MarshalBundle pc (b\<lparr>bu_Signature := ''''\<rparr>)"

definition evaluationDigest :: "policy_codec \<Rightarrow> evaluation_request \<Rightarrow> string option" where
  "evaluationDigest pc request = map_option (\<lambda>payload. hex_EncodeToString (pc_sha256 pc payload)) (pc_MarshalRequest pc request)"

definition SignBundle :: "policy_codec \<Rightarrow> signing_provider \<Rightarrow> policy_bundle \<Rightarrow> policy_error + policy_bundle" where
  "SignBundle pc signing b =
     (if \<not> validateBundleContents b then Inl ErrPolicyArgument
      else case sp_CurrentSigningKey signing ''policy-bundle'' of
        Inl _ \<Rightarrow> Inl ErrPolicyKey
      | Inr key \<Rightarrow>
          let b = b\<lparr>bu_SigningKeyRef := sk_Reference key, bu_SignatureAlgorithm := sk_Algorithm key\<rparr>
          in (case bundleSigningPayload pc b of
             None \<Rightarrow> Inl ErrPolicyEncoding
           | Some payload \<Rightarrow>
               (case sp_Sign signing (sk_Reference key) payload of
                  Inl _ \<Rightarrow> Inl ErrPolicyKey
                | Inr signature \<Rightarrow> Inr (b\<lparr>bu_Signature := signature\<rparr>))))"

definition decision_of :: "string \<Rightarrow> gotime \<Rightarrow> string \<Rightarrow> string \<Rightarrow> evaluation_request \<Rightarrow> policy_bundle \<Rightarrow> rule \<Rightarrow> decision_record" where
  "decision_of decisionID evaluatedAt inputDigest bundleDigest request b rule =
     \<lparr>dr_DecisionID = decisionID, dr_TenantID = er_TenantID request, dr_ActorID = er_ActorID request,
      dr_Phase = er_Phase request, dr_Scope = er_Scope request, dr_RecipeID = er_RecipeID request,
      dr_TargetClass = er_TargetClass request, dr_InputDigest = inputDigest, dr_BundleID = bu_BundleID b,
      dr_BundleVersion = bu_Version b, dr_BundleDigest = bundleDigest, dr_Allow = rl_Allow rule,
      dr_RequiresApproval = rl_RequiresApproval rule, dr_Denials = rl_Denials rule,
      dr_Obligations = rl_Obligations rule, dr_EvaluatedAt = evaluatedAt\<rparr>"

text \<open>\<open>random\<close> are the sixteen bytes of \<^verbatim>\<open>newDecisionID\<close>, \<open>None\<close> the failure of the generator.\<close>

definition newDecisionID :: "string option \<Rightarrow> policy_error + string" where
  "newDecisionID random =
     (case random of None \<Rightarrow> Inl ErrPolicyRandom | Some bytes \<Rightarrow> Inr (''decision-'' @ hex_EncodeToString bytes))"

type_synonym 'w load_bundle = "string \<Rightarrow> 'w \<Rightarrow> policy_error + policy_bundle \<times> string"
type_synonym 'w record_decision = "decision_record \<Rightarrow> 'w \<Rightarrow> policy_error option \<times> 'w"

definition BundleEngine_Evaluate ::
  "policy_codec \<Rightarrow> signing_provider \<Rightarrow> 'w load_bundle \<Rightarrow> 'w record_decision \<Rightarrow> gotime \<Rightarrow> string option
   \<Rightarrow> evaluation_request \<Rightarrow> 'w \<Rightarrow> (policy_error + decision_record) \<times> 'w" where
  "BundleEngine_Evaluate pc verifier LoadActiveBundle RecordDecision now random request w =
     (if \<not> validateEvaluationRequest request then (Inl ErrPolicyArgument, w)
      else case LoadActiveBundle (er_Scope request) w of
        Inl e \<Rightarrow> (Inl e, w)
      | Inr (b, storedDigest) \<Rightarrow>
          if \<not> validateSignedBundle b then (Inl ErrPolicyArgument, w)
          else (case bundleSigningPayload pc b of
             None \<Rightarrow> (Inl ErrPolicyEncoding, w)
           | Some payload \<Rightarrow>
               let bundleDigest = hex_EncodeToString (pc_sha256 pc payload)
               in if bundleDigest \<noteq> storedDigest then (Inl ErrPolicyDigest, w)
                  else if sp_Verify verifier (bu_SigningKeyRef b) (bu_SignatureAlgorithm b) payload (bu_Signature b) \<noteq> None
                  then (Inl ErrPolicySignature, w)
                  else (case matchingRule (bu_Rules b) (er_RecipeID request) (er_TargetClass request) of
                     Inl e \<Rightarrow> (Inl e, w)
                   | Inr rule \<Rightarrow>
                       (case evaluationDigest pc request of
                          None \<Rightarrow> (Inl ErrPolicyEncoding, w)
                        | Some inputDigest \<Rightarrow>
                            (case newDecisionID random of
                               Inl e \<Rightarrow> (Inl e, w)
                             | Inr decisionID \<Rightarrow>
                                 let r = decision_of decisionID now inputDigest bundleDigest request b rule
                                 in (case RecordDecision r w of
                                    (Some e, w') \<Rightarrow> (Inl e, w')
                                  | (None, w') \<Rightarrow> (Inr r, w')))))))"

section \<open>The PostgreSQL repository\<close>

record bundle_row =
  br_scope :: string
  br_document :: string
  br_document_digest :: string

record policy_db =
  pd_bundles :: "string \<times> int \<rightharpoonup> bundle_row"
  pd_activations :: "string \<rightharpoonup> string \<times> int"
  pd_activation_events :: "(string \<times> string \<times> int \<times> string) list"
  pd_decisions :: "string \<rightharpoonup> decision_record"

definition PGP_StoreBundle :: "db_faults \<Rightarrow> policy_codec \<Rightarrow> policy_bundle \<Rightarrow> policy_db \<Rightarrow> (policy_error + string) \<times> policy_db" where
  "PGP_StoreBundle f pc b db =
     (if \<not> validateSignedBundle b then (Inl ErrPolicyArgument, db)
      else case (pc_MarshalBundle pc b, bundleSigningPayload pc b) of
        (Some document, Some payload) \<Rightarrow>
          let digest = hex_EncodeToString (pc_sha256 pc payload); key = (bu_BundleID b, bu_Version b)
          in (case sql_write (f 0) db (case pc_jsonb pc document of
                 None \<Rightarrow> None
               | Some stored \<Rightarrow>
                   if pd_bundles db key \<noteq> None then Some (0 :: nat, db)
                   else Some (1, db\<lparr>pd_bundles := (pd_bundles db)(key \<mapsto>
                          \<lparr>br_scope = bu_Scope b, br_document = stored, br_document_digest = digest\<rparr>)\<rparr>)) of
                (None, db') \<Rightarrow> (Inl ErrPolicyDatabase, db')
              | (Some rows, db') \<Rightarrow>
                  if f 1 \<noteq> CallOK then (Inl ErrPolicyDatabase, db')
                  else if rows \<noteq> 1 then (Inl ErrPolicyExists, db') else (Inr digest, db'))
      | _ \<Rightarrow> (Inl ErrPolicyEncoding, db))"

definition PGP_ActivateBundle ::
  "db_faults \<Rightarrow> string \<Rightarrow> string \<Rightarrow> int \<Rightarrow> string \<Rightarrow> policy_db \<Rightarrow> policy_error option \<times> policy_db" where
  "PGP_ActivateBundle f scope bundleID version actorID db =
     (if scope = '''' \<or> bundleID = '''' \<or> version \<le> 0 \<or> actorID = '''' then (Some ErrPolicyArgument, db)
      else if f 0 \<noteq> CallOK \<or> f 1 \<noteq> CallOK then (Some ErrPolicyDatabase, db)
      else case pd_bundles db (bundleID, version) of
        None \<Rightarrow> (Some ErrNoActiveBundle, db)
      | Some row \<Rightarrow>
          if br_scope row \<noteq> scope then (Some ErrPolicyScope, db)
          else if f 2 \<noteq> CallOK \<or> f 3 \<noteq> CallOK then (Some ErrPolicyDatabase, db)
          else (case sql_write (f 4) db (Some ((), db\<lparr>
              pd_activations := (pd_activations db)(scope \<mapsto> (bundleID, version)),
              pd_activation_events := pd_activation_events db @ [(scope, bundleID, version, actorID)]\<rparr>)) of
             (None, db') \<Rightarrow> (Some ErrPolicyDatabase, db')
           | (Some _, db') \<Rightarrow> (None, db')))"

definition PGP_LoadActiveBundle :: "db_call \<Rightarrow> policy_codec \<Rightarrow> policy_db load_bundle" where
  "PGP_LoadActiveBundle c pc scope db =
     (if scope = '''' then Inl ErrPolicyArgument
      else if c \<noteq> CallOK then Inl ErrPolicyDatabase
      else case Option.bind (pd_activations db scope) (pd_bundles db) of
        None \<Rightarrow> Inl ErrNoActiveBundle
      | Some row \<Rightarrow>
          (case pc_UnmarshalBundle pc (br_document row) of
             None \<Rightarrow> Inl ErrPolicyEncoding
           | Some b \<Rightarrow> Inr (b, br_document_digest row)))"

definition PGP_RecordDecision :: "db_call \<Rightarrow> policy_codec \<Rightarrow> policy_db record_decision" where
  "PGP_RecordDecision c pc r db =
     (if \<not> pc_MarshalDecision pc r then (Some ErrPolicyEncoding, db)
      else case sql_write c db
          (if pd_decisions db (dr_DecisionID r) \<noteq> None \<or> pd_bundles db (dr_BundleID r, dr_BundleVersion r) = None then None
           else Some ((), db\<lparr>pd_decisions := (pd_decisions db)(dr_DecisionID r \<mapsto> r\<lparr>dr_EvaluatedAt := Truncate_us (dr_EvaluatedAt r)\<rparr>)\<rparr>)) of
        (None, db') \<Rightarrow> (Some ErrPolicyDatabase, db')
      | (Some _, db') \<Rightarrow> (None, db'))"

section \<open>Decisions come from the active, signed bundle\<close>

definition recorded_decision :: "decision_record \<Rightarrow> decision_record" where
  "recorded_decision r = r\<lparr>dr_EvaluatedAt := Truncate_us (dr_EvaluatedAt r)\<rparr>"

lemma PGP_RecordDecision_cases:
  assumes "PGP_RecordDecision c pc r db = (a, db')"
  shows "db' = db \<and> a \<noteq> None \<or>
    pd_decisions db (dr_DecisionID r) = None \<and> pd_bundles db (dr_BundleID r, dr_BundleVersion r) \<noteq> None \<and>
    db' = db\<lparr>pd_decisions := (pd_decisions db)(dr_DecisionID r \<mapsto> recorded_decision r)\<rparr> \<and> a \<in> {None, Some ErrPolicyDatabase}"
  using assms by (cases c) (auto simp: PGP_RecordDecision_def sql_write_def recorded_decision_def split: if_splits)


text \<open>The checks an evaluation has passed before it records anything.\<close>

definition governed ::
  "policy_codec \<Rightarrow> signing_provider \<Rightarrow> evaluation_request \<Rightarrow> policy_bundle \<Rightarrow> string \<Rightarrow> rule \<Rightarrow> bool" where
  "governed pc verifier request b storedDigest rule \<longleftrightarrow>
     validateEvaluationRequest request \<and> validateSignedBundle b \<and>
     (\<exists>payload. bundleSigningPayload pc b = Some payload \<and> hex_EncodeToString (pc_sha256 pc payload) = storedDigest \<and>
        sp_Verify verifier (bu_SigningKeyRef b) (bu_SignatureAlgorithm b) payload (bu_Signature b) = None) \<and>
     matchingRule (bu_Rules b) (er_RecipeID request) (er_TargetClass request) = Inr rule"

lemma BundleEngine_Evaluate_cases:
  assumes "BundleEngine_Evaluate pc verifier load recordd now random request w = (a, w')"
  shows "(\<exists>e. a = Inl e) \<and> w' = w \<or>
    (\<exists>b digest rule i d. load (er_Scope request) w = Inr (b, digest) \<and> governed pc verifier request b digest rule \<and>
       newDecisionID random = Inr i \<and> evaluationDigest pc request = Some d \<and>
       (case recordd (decision_of i now d digest request b rule) w of
          (Some e, w1) \<Rightarrow> a = Inl e \<and> w' = w1
        | (None, w1) \<Rightarrow> a = Inr (decision_of i now d digest request b rule) \<and> w' = w1))"
  using assms unfolding BundleEngine_Evaluate_def Let_def governed_def
  by (auto split: if_splits sum.splits option.splits prod.splits)





section \<open>Policy history\<close>

datatype policy_op =
    PolicyStore db_faults policy_codec policy_bundle
  | PolicyActivate db_faults string string int string
  | PolicyEvaluate db_call db_call policy_codec signing_provider gotime "string option" evaluation_request

fun policy_exec :: "policy_op \<Rightarrow> policy_db \<Rightarrow> policy_db" where
  "policy_exec (PolicyStore f pc b) db = snd (PGP_StoreBundle f pc b db)"
| "policy_exec (PolicyActivate f scope bundleID version actorID) db = snd (PGP_ActivateBundle f scope bundleID version actorID db)"
| "policy_exec (PolicyEvaluate c c' pc verifier now random request) db =
     snd (BundleEngine_Evaluate pc verifier (PGP_LoadActiveBundle c pc) (PGP_RecordDecision c' pc) now random request db)"

definition empty_policy :: policy_db where
  "empty_policy = \<lparr>pd_bundles = Map.empty, pd_activations = Map.empty, pd_activation_events = [], pd_decisions = Map.empty\<rparr>"

definition policy_ok :: "policy_db \<Rightarrow> bool" where
  "policy_ok db \<longleftrightarrow>
     (\<forall>scope i v. pd_activations db scope = Some (i, v) \<longrightarrow>
        (\<exists>row actor. pd_bundles db (i, v) = Some row \<and> br_scope row = scope \<and> actor \<noteq> '''' \<and>
           (scope, i, v, actor) \<in> set (pd_activation_events db))) \<and>
     (\<forall>d r. pd_decisions db d = Some r \<longrightarrow> pd_bundles db (dr_BundleID r, dr_BundleVersion r) \<noteq> None)"

definition policy_grows :: "policy_db \<Rightarrow> policy_db \<Rightarrow> bool" where
  "policy_grows db db' \<longleftrightarrow> pd_bundles db \<subseteq>\<^sub>m pd_bundles db' \<and> pd_decisions db \<subseteq>\<^sub>m pd_decisions db' \<and>
     (\<exists>es. pd_activation_events db' = pd_activation_events db @ es)"

lemma PGP_StoreBundle_cases:
  "snd (PGP_StoreBundle f pc b db) = db \<or>
   (\<exists>row. pd_bundles db (bu_BundleID b, bu_Version b) = None \<and> br_scope row = bu_Scope b \<and>
      snd (PGP_StoreBundle f pc b db) = db\<lparr>pd_bundles := (pd_bundles db)((bu_BundleID b, bu_Version b) \<mapsto> row)\<rparr>)"
  by (cases "f 0") (auto simp: PGP_StoreBundle_def Let_def sql_write_def split: option.splits,
    (metis bundle_row.select_convs(1))+)

lemma PGP_ActivateBundle_cases:
  "snd (PGP_ActivateBundle f scope i v actor db) = db \<or>
   (\<exists>row. pd_bundles db (i, v) = Some row \<and> br_scope row = scope \<and> actor \<noteq> '''' \<and>
      snd (PGP_ActivateBundle f scope i v actor db) = db\<lparr>pd_activations := (pd_activations db)(scope \<mapsto> (i, v)),
        pd_activation_events := pd_activation_events db @ [(scope, i, v, actor)]\<rparr>)"
  by (cases "f 4") (auto simp: PGP_ActivateBundle_def sql_write_def split: option.splits)

lemma Evaluate_db_cases:
  "snd (BundleEngine_Evaluate pc verifier (PGP_LoadActiveBundle c pc) (PGP_RecordDecision c' pc) now random request db) = db \<or>
   (\<exists>r. pd_decisions db (dr_DecisionID r) = None \<and> pd_bundles db (dr_BundleID r, dr_BundleVersion r) \<noteq> None \<and>
      snd (BundleEngine_Evaluate pc verifier (PGP_LoadActiveBundle c pc) (PGP_RecordDecision c' pc) now random request db) =
        db\<lparr>pd_decisions := (pd_decisions db)(dr_DecisionID r \<mapsto> recorded_decision r)\<rparr>)"
proof -
  obtain a db' where e: "BundleEngine_Evaluate pc verifier (PGP_LoadActiveBundle c pc) (PGP_RecordDecision c' pc) now random request db = (a, db')"
    by fastforce
  then show ?thesis using BundleEngine_Evaluate_cases [OF e] PGP_RecordDecision_cases
    by (fastforce split: prod.splits option.splits)
qed

lemma policy_exec_ok:
  assumes "policy_ok db"
  shows "policy_ok (policy_exec op db) \<and> policy_grows db (policy_exec op db)"
proof (cases op)
  case (PolicyStore f pc b)
  then show ?thesis using PGP_StoreBundle_cases [of f pc b db] assms
    by (auto simp: policy_ok_def policy_grows_def map_le_def) (metis option.distinct(1))+
next
  case (PolicyActivate f scope i v actor)
  then show ?thesis using PGP_ActivateBundle_cases [of f scope i v actor db] assms
    by (auto simp: policy_ok_def policy_grows_def split: if_splits)
next
  case (PolicyEvaluate c c' pc verifier now random request)
  then show ?thesis using Evaluate_db_cases [of pc verifier c c' now random request db] assms
    by (auto simp: policy_ok_def policy_grows_def map_le_def recorded_decision_def split: if_splits)
qed

lemma map_le_Some: "m \<subseteq>\<^sub>m m' \<Longrightarrow> m x = Some y \<Longrightarrow> m' x = Some y"
  by (metis domI map_le_def)

lemma policy_grows_trans: "policy_grows a b \<Longrightarrow> policy_grows b c \<Longrightarrow> policy_grows a c"
  unfolding policy_grows_def by (metis append.assoc map_le_trans)

lemma policy_run:
  "policy_ok db \<Longrightarrow> policy_ok (fold policy_exec ops db) \<and> policy_grows db (fold policy_exec ops db)"
proof (induction ops arbitrary: db)
  case Nil
  then show ?case by (simp add: policy_grows_def)
next
  case (Cons op ops)
  then show ?case using policy_exec_ok [OF Cons.prems, of op] policy_grows_trans by auto
qed

lemma empty_policy_ok: "policy_ok empty_policy"
  by (simp add: policy_ok_def empty_policy_def)

text \<open>
  C22. Policy history is append-only and complete: along every run, stored bundles and recorded decisions
  never change and activation events are only appended; whatever is active in a scope is a stored
  bundle of that scope whose activation was recorded with an actor, and every decision refers to a stored
  bundle.
\<close>

theorem policy_history_append_only:
  assumes "db = fold policy_exec ops empty_policy" and "db' = fold policy_exec later db"
  shows "pd_bundles db \<subseteq>\<^sub>m pd_bundles db' \<and> pd_decisions db \<subseteq>\<^sub>m pd_decisions db' \<and>
    (\<exists>es. pd_activation_events db' = pd_activation_events db @ es) \<and>
    (\<forall>scope i v. pd_activations db' scope = Some (i, v) \<longrightarrow>
       (\<exists>row actor. pd_bundles db' (i, v) = Some row \<and> br_scope row = scope \<and> actor \<noteq> '''' \<and>
          (scope, i, v, actor) \<in> set (pd_activation_events db'))) \<and>
    (\<forall>d r. pd_decisions db' d = Some r \<longrightarrow> pd_bundles db' (dr_BundleID r, dr_BundleVersion r) \<noteq> None)"
proof -
  have "policy_ok db" using policy_run [OF empty_policy_ok] assms(1) by simp
  then show ?thesis using policy_run [of db later] assms(2) by (simp add: policy_grows_def policy_ok_def)
qed

section \<open>A stored and activated bundle governs its scope\<close>

lemma SignBundle_ok:
  assumes "SignBundle pc (keyring_provider ed k) draft = Inr b"
  obtains key payload where "Keyring_CurrentSigningKey k ''policy-bundle'' = Inr key" "bundleSigningPayload pc b = Some payload"
    "Keyring_Sign ed k (sk_Reference key) payload = Inr (bu_Signature b)"
    "bu_SigningKeyRef b = sk_Reference key" "bu_SignatureAlgorithm b = sk_Algorithm key" "bu_Rules b = bu_Rules draft"
    "validateBundleContents b"
  using assms that
  by (auto simp: SignBundle_def keyring_provider_def Let_def bundleSigningPayload_def validateBundleContents_def
      split: sum.splits if_splits option.splits)

lemma Keyring_current_nonempty:
  "Keyring_CurrentSigningKey k purpose = Inr key \<Longrightarrow> sk_Reference key \<noteq> '''' \<and> sk_Algorithm key \<noteq> ''''"
  by (auto simp: Keyring_CurrentSigningKey_def Ed25519Algorithm_def split: if_splits)

lemma PGP_StoreBundle_ok:
  assumes "PGP_StoreBundle f pc b db = (Inr digest, db1)"
  obtains document stored payload where "pc_MarshalBundle pc b = Some document" "pc_jsonb pc document = Some stored"
    "bundleSigningPayload pc b = Some payload" "digest = hex_EncodeToString (pc_sha256 pc payload)" "validateSignedBundle b"
    "pd_bundles db1 (bu_BundleID b, bu_Version b) = Some \<lparr>br_scope = bu_Scope b, br_document = stored, br_document_digest = digest\<rparr>"
  using assms that
  by (auto simp: PGP_StoreBundle_def Let_def sql_write_Some split: if_splits option.splits prod.splits)

text \<open>
  C23. Sign, store, activate, evaluate: once a bundle signed by a keyring is stored and activated in its
  scope, an evaluation in that scope decides by the bundle's first matching rule and records the decision,
  also after other bundles were stored, other decisions taken and the signing key rotated.  (JSON
  decodes what it encoded, also through \<^verbatim>\<open>jsonb\<close>.)
\<close>

theorem activated_bundle_governs:
  assumes "ed25519_ok ed private" and "NewEd25519Keyring ed reference private = Inr k"
    and "SignBundle pc (keyring_provider ed k) draft = Inr b"
    and "\<And>document stored. pc_MarshalBundle pc b = Some document \<Longrightarrow> pc_jsonb pc document = Some stored \<Longrightarrow> pc_UnmarshalBundle pc stored = Some b"
    and "db = fold policy_exec ops empty_policy" and "PGP_StoreBundle f pc b db = (Inr digest, db1)"
    and "db2 = fold policy_exec ops1 db1" and "PGP_ActivateBundle f' (bu_Scope b) (bu_BundleID b) (bu_Version b) actor db2 = (None, db3)"
    and "db4 = fold policy_exec ops2 db3" and "pd_activations db4 (bu_Scope b) = pd_activations db3 (bu_Scope b)"
    and "validateEvaluationRequest request" and "er_Scope request = bu_Scope b"
    and "matchingRule (bu_Rules draft) (er_RecipeID request) (er_TargetClass request) = Inr rule"
    and "evaluationDigest pc request = Some inputDigest" and "newDecisionID random = Inr decisionID"
    and "pd_decisions db4 decisionID = None" and "\<And>r. pc_MarshalDecision pc r"
  shows "\<exists>r db5. BundleEngine_Evaluate pc (keyring_provider ed (rotate_all ed later k)) (PGP_LoadActiveBundle CallOK pc)
      (PGP_RecordDecision CallOK pc) now random request db4 = (Inr r, db5) \<and>
    dr_Allow r = rl_Allow rule \<and> dr_RequiresApproval r = rl_RequiresApproval rule \<and> dr_BundleDigest r = digest \<and>
    pd_decisions db5 decisionID = Some (recorded_decision r)"
proof -
  let ?key = "(bu_BundleID b, bu_Version b)"
  obtain key payload where s: "Keyring_CurrentSigningKey k ''policy-bundle'' = Inr key" "bundleSigningPayload pc b = Some payload"
    "Keyring_Sign ed k (sk_Reference key) payload = Inr (bu_Signature b)"
    "bu_SigningKeyRef b = sk_Reference key" "bu_SignatureAlgorithm b = sk_Algorithm key" "bu_Rules b = bu_Rules draft"
    using SignBundle_ok [OF assms(3)] by metis
  obtain document stored payload' where st: "pc_MarshalBundle pc b = Some document" "pc_jsonb pc document = Some stored"
    "bundleSigningPayload pc b = Some payload'" "digest = hex_EncodeToString (pc_sha256 pc payload')" "validateSignedBundle b"
    "pd_bundles db1 ?key = Some \<lparr>br_scope = bu_Scope b, br_document = stored, br_document_digest = digest\<rparr>"
    using PGP_StoreBundle_ok [OF assms(6)] .
  have ok: "policy_ok db" using policy_run [OF empty_policy_ok] assms(5) by simp
  have ok1: "policy_ok db1" using policy_exec_ok [OF ok, of "PolicyStore f pc b"] assms(6) by simp
  have ok2: "policy_ok db2" "policy_grows db1 db2" using policy_run [OF ok1, of ops1] assms(7) by auto
  have ok3: "policy_ok db3" "policy_grows db2 db3"
    using policy_exec_ok [OF ok2(1), of "PolicyActivate f' (bu_Scope b) (bu_BundleID b) (bu_Version b) actor"] assms(8) by auto
  have "policy_grows db1 db4" using policy_run [OF ok3(1), of ops2] assms(9) ok2(2) ok3(2) policy_grows_trans by blast
  then have row: "pd_bundles db4 ?key = Some \<lparr>br_scope = bu_Scope b, br_document = stored, br_document_digest = digest\<rparr>"
    using st(6) map_le_Some by (fastforce simp: policy_grows_def)
  have "pd_activations db3 (bu_Scope b) = Some ?key"
    using assms(8) by (auto simp: PGP_ActivateBundle_def sql_write_Some split: if_splits option.splits prod.splits)
  then have act: "pd_activations db4 (bu_Scope b) = Some ?key" using assms(10) by simp
  have scope: "bu_Scope b \<noteq> ''''" using st(5) by (simp add: validateSignedBundle_def validateBundleContents_def)
  have load: "PGP_LoadActiveBundle CallOK pc (bu_Scope b) db4 = Inr (b, digest)"
    using act row assms(4) [OF st(1,2)] scope by (simp add: PGP_LoadActiveBundle_def)
  have "Keyring_Verify ed (rotate_all ed later k) (bu_SigningKeyRef b) (bu_SignatureAlgorithm b) payload (bu_Signature b) = None"
    unfolding s(4,5) by (rule keyring_verifies [OF _ NewEd25519Keyring_ok [OF assms(2)] s(1,3)]) (simp add: NewEd25519Keyring_private [OF assms(2)] assms(1))
  then show ?thesis using assms(11-17) load st(3-5) s(2,6) row
    by (simp add: BundleEngine_Evaluate_def Let_def keyring_provider_def PGP_RecordDecision_def decision_of_def
        sql_write_def recorded_decision_def)
qed

section \<open>An example bundle\<close>

definition example_rule :: rule where
  "example_rule = \<lparr>rl_RecipeID = ''rec'', rl_TargetClass = ''lab'', rl_Allow = True, rl_RequiresApproval = False, rl_Denials = [], rl_Obligations = Map.empty\<rparr>"

definition example_draft_bundle :: policy_bundle where
  "example_draft_bundle = \<lparr>bu_BundleID = ''b1'', bu_Version = 1, bu_Scope = ''s'', bu_IssuedAt = 1, bu_Rules = [example_rule],
     bu_SigningKeyRef = '''', bu_SignatureAlgorithm = '''', bu_Signature = ''''\<rparr>"

definition example_bundle :: policy_bundle where
  "example_bundle = example_draft_bundle\<lparr>bu_SigningKeyRef := ''k1'', bu_SignatureAlgorithm := ''Ed25519'',
     bu_Signature := example_private CHR ''a'' @ ''{}''\<rparr>"

definition example_policy_codec :: policy_codec where
  "example_policy_codec = \<lparr>pc_sha256 = (\<lambda>_. ''H''), pc_MarshalBundle = (\<lambda>_. Some ''{}''), pc_UnmarshalBundle = (\<lambda>_. Some example_bundle),
     pc_MarshalRequest = (\<lambda>_. Some ''{}''), pc_MarshalDecision = (\<lambda>_. True), pc_jsonb = Some\<rparr>"

definition example_evaluation :: evaluation_request where
  "example_evaluation = \<lparr>er_TenantID = ''acme'', er_ActorID = ''alice'', er_Phase = PhaseExecution, er_Scope = ''s'',
     er_RecipeID = ''rec'', er_TargetClass = ''lab'', er_Attributes = Map.empty\<rparr>"

definition example_stored :: policy_db where
  "example_stored = empty_policy\<lparr>pd_bundles := [(''b1'', 1) \<mapsto> \<lparr>br_scope = ''s'', br_document = ''{}'', br_document_digest = ''48''\<rparr>]\<rparr>"

definition example_active :: policy_db where
  "example_active = example_stored\<lparr>pd_activations := [''s'' \<mapsto> (''b1'', 1)], pd_activation_events := [(''s'', ''b1'', 1, ''alice'')]\<rparr>"

lemma example_private_ne: "example_private c @ x \<noteq> ''''"
  by (simp add: example_private_def)

lemma example_signed:
  "SignBundle example_policy_codec (keyring_provider example_ed25519 example_keyring) example_draft_bundle = Inr example_bundle"
  by (simp add: SignBundle_def Let_def example_bundle_def example_draft_bundle_def validateBundleContents_def example_rule_def
      keyring_provider_def Keyring_CurrentSigningKey_def Keyring_Sign_def bundleSigningPayload_def example_policy_codec_def
      example_keyring_def example_ed25519_def Ed25519Algorithm_def IsZero_def)

lemma example_store:
  "PGP_StoreBundle (\<lambda>_. CallOK) example_policy_codec example_bundle empty_policy = (Inr ''48'', example_stored)"
  by (simp add: PGP_StoreBundle_def Let_def example_bundle_def example_draft_bundle_def validateSignedBundle_def
      validateBundleContents_def example_rule_def bundleSigningPayload_def example_policy_codec_def IsZero_def sql_write_def
      example_stored_def empty_policy_def hex_EncodeToString_def hex_digit_def)

lemma example_activate:
  "PGP_ActivateBundle (\<lambda>_. CallOK) ''s'' ''b1'' 1 ''alice'' example_stored = (None, example_active)"
  by (simp add: PGP_ActivateBundle_def example_stored_def example_active_def sql_write_def empty_policy_def)

lemma example_bundle_sel: "bu_Scope example_bundle = ''s''" "bu_BundleID example_bundle = ''b1''" "bu_Version example_bundle = 1"
  by (simp_all add: example_bundle_def example_draft_bundle_def)

theorem activated_bundle_governs_witness:
  "\<exists>r db5. BundleEngine_Evaluate example_policy_codec
      (keyring_provider example_ed25519 (rotate_all example_ed25519 [(''k2'', example_private CHR ''b'')] example_keyring))
      (PGP_LoadActiveBundle CallOK example_policy_codec) (PGP_RecordDecision CallOK example_policy_codec) 5000 (Some ''x'')
      example_evaluation example_active = (Inr r, db5) \<and> dr_Allow r"
proof -
  have f: "empty_policy = fold policy_exec [] empty_policy" "example_stored = fold policy_exec [] example_stored"
    "example_active = fold policy_exec [] example_active" by simp_all
  have a: "PGP_ActivateBundle (\<lambda>_. CallOK) (bu_Scope example_bundle) (bu_BundleID example_bundle) (bu_Version example_bundle) ''alice''
      example_stored = (None, example_active)" by (simp add: example_bundle_sel example_activate)
  have u: "pc_UnmarshalBundle example_policy_codec d = Some example_bundle" for d by (simp add: example_policy_codec_def)
  have m: "matchingRule (bu_Rules example_draft_bundle) (er_RecipeID example_evaluation) (er_TargetClass example_evaluation) = Inr example_rule"
    by (simp add: example_draft_bundle_def example_evaluation_def example_rule_def)
  have d: "evaluationDigest example_policy_codec example_evaluation = Some ''48''" "newDecisionID (Some ''x'') = Inr ''decision-78''"
    by (simp_all add: evaluationDigest_def example_policy_codec_def newDecisionID_def hex_EncodeToString_def hex_digit_def)
  have n: "pd_decisions example_active ''decision-78'' = None" by (simp add: example_active_def example_stored_def empty_policy_def)
  have v: "validateEvaluationRequest example_evaluation" "er_Scope example_evaluation = bu_Scope example_bundle"
    by (simp_all add: validateEvaluationRequest_def example_evaluation_def example_bundle_sel)
  have p: "pc_MarshalDecision example_policy_codec r" for r by (simp add: example_policy_codec_def)
  from activated_bundle_governs [OF example_ed25519_ok example_keyring_new example_signed u f(1) example_store f(2) a f(3) refl v m d n p]
  show ?thesis by (fastforce simp: example_rule_def)
qed



theorem policy_history_append_only_witness:
  "\<exists>row. pd_bundles (fold policy_exec [PolicyStore (\<lambda>_. CallOK) example_policy_codec example_bundle,
     PolicyActivate (\<lambda>_. CallOK) ''s'' ''b1'' 1 ''alice''] empty_policy) (''b1'', 1) = Some row \<and> br_scope row = ''s''"
proof -
  define db where db: "db = fold policy_exec [PolicyStore (\<lambda>_. CallOK) example_policy_codec example_bundle,
     PolicyActivate (\<lambda>_. CallOK) ''s'' ''b1'' 1 ''alice''] empty_policy"
  have "pd_activations db ''s'' = Some (''b1'', 1)" by (simp add: db example_store example_activate example_active_def)
  then have "\<exists>row. pd_bundles db (''b1'', 1) = Some row \<and> br_scope row = ''s''"
    using policy_history_append_only [OF db, of db "[]"] by simp blast
  then show ?thesis by (simp only: db)
qed

section \<open>The built-in evaluator fails closed\<close>

text \<open>
  The built-in evaluator knows three recipes and refuses every other one with an error; a decision is a denial
  exactly when it has reasons, live recipes against production core targets always need
  approval, and every decision carries the duration and size limits.
\<close>

lemma builtin_evaluator_fails_closed:
  "case Evaluator_Evaluate recipeID targetClass of
     Inl e \<Rightarrow> recipeID \<notin> {''cached_openconfig_interfaces'', ''gnmi_interface_get'', ''vendor_cli_show_interface''} \<and>
       e = (if recipeID = '''' then ErrPolicyArgument else ErrUnsupportedRecipe)
   | Inr d \<Rightarrow> recipeID \<in> {''cached_openconfig_interfaces'', ''gnmi_interface_get'', ''vendor_cli_show_interface''} \<and>
       (de_Allow d \<longleftrightarrow> de_Denials d = []) \<and>
       (targetClass = ''production_core'' \<and> recipeID \<noteq> ''cached_openconfig_interfaces'' \<longrightarrow> de_RequiresApproval d) \<and>
       dom (de_Obligations d) = {''max_duration_ms'', ''max_response_bytes''}"
  by (auto simp: Evaluator_Evaluate_def Let_def)

end
