(* ===== verification/Outbox_Text.thy ===== *)
theory Outbox_Text
  imports Utf8 "HOL-Library.Sublist"
begin

text \<open>
  The error text the outbox stores: \<^verbatim>\<open>boundedError\<close> of \<^verbatim>\<open>internal/outbox/postgres_store.go\<close>, with
  the two standard functions it calls, \<^verbatim>\<open>utf8.ValidString\<close> and \<^verbatim>\<open>strings.ToValidUTF8\<close> with the
  replacement U+FFFD (every maximal run of bytes that start no rune becomes one replacement).
\<close>

definition bad_start :: "string \<Rightarrow> bool" where
  "bad_start s \<longleftrightarrow> DecodeRune s = (RuneError, 1)"

function valid_utf8 :: "string \<Rightarrow> bool" where
  "valid_utf8 s =
     (if s = [] then True
      else if bad_start s then False
      else valid_utf8 (drop (snd (DecodeRune s)) s))"
  by pat_completeness auto
termination
  by (relation "measure length") (auto intro!: diff_less DecodeRune_size)

function to_valid :: "bool \<Rightarrow> string \<Rightarrow> string" where
  "to_valid invalid s =
     (if s = [] then []
      else if bad_start s then (if invalid then [] else encode_valid RuneError) @ to_valid True (drop 1 s)
      else take (snd (DecodeRune s)) s @ to_valid False (drop (snd (DecodeRune s)) s))"
  by pat_completeness auto
termination
  by (relation "measure (\<lambda>(_, s). length s)") (auto intro!: diff_less DecodeRune_size)

declare valid_utf8.simps [simp del] to_valid.simps [simp del]

definition ToValidUTF8 :: "string \<Rightarrow> string" where
  "ToValidUTF8 s = to_valid False s"

lemma valid_utf8_Nil [simp]: "valid_utf8 []"
  by (simp add: valid_utf8.simps)

text \<open>The loop that drops trailing bytes until the text is valid.\<close>

function trim_valid :: "string \<Rightarrow> string" where
  "trim_valid s = (if valid_utf8 s then s else trim_valid (butlast s))"
  by pat_completeness auto
termination
proof (relation "measure length")
  fix s assume "\<not> valid_utf8 s"
  then have "s \<noteq> []" by auto
  then show "(butlast s, s) \<in> measure length" by simp
qed simp

declare trim_valid.simps [simp del]

definition maximumStoredErrorBytes :: nat where
  "maximumStoredErrorBytes = 2048"

definition outbox_boundedError :: "string \<Rightarrow> string" where
  "outbox_boundedError failure =
     (let failure = ToValidUTF8 failure
      in if length failure \<le> maximumStoredErrorBytes then failure
         else trim_valid (take maximumStoredErrorBytes failure))"

text \<open>A rune is decoded from its own bytes alone.\<close>

lemma decode2_take:
  "decode2 b cs \<noteq> (RuneError, 1) \<Longrightarrow> 1 \<le> k \<Longrightarrow> decode2 b (take k cs @ t) = decode2 b cs"
  by (cases k) (auto simp: decode2_def split: list.splits)

lemma decode3_take:
  "decode3 b cs \<noteq> (RuneError, 1) \<Longrightarrow> 2 \<le> k \<Longrightarrow> decode3 b (take k cs @ t) = decode3 b cs"
proof -
  assume v: "decode3 b cs \<noteq> (RuneError, 1)" and "2 \<le> k"
  then obtain j where k: "k = Suc (Suc j)" using that [of "k - 2"] by simp
  obtain c1 c2 r where "cs = c1 # c2 # r" using v by (auto simp: decode3_def split: list.splits)
  then show ?thesis by (simp add: decode3_def k)
qed

lemma decode4_take:
  "decode4 b cs \<noteq> (RuneError, 1) \<Longrightarrow> 3 \<le> k \<Longrightarrow> decode4 b (take k cs @ t) = decode4 b cs"
proof -
  assume v: "decode4 b cs \<noteq> (RuneError, 1)" and "3 \<le> k"
  then obtain j where k: "k = Suc (Suc (Suc j))" using that [of "k - 3"] by simp
  obtain c1 c2 c3 r where "cs = c1 # c2 # c3 # r" using v by (auto simp: decode4_def split: list.splits)
  then show ?thesis by (simp add: decode4_def k)
qed

lemma decode_width:
  "decode2 b cs \<noteq> (RuneError, 1) \<Longrightarrow> snd (decode2 b cs) = 2"
  "decode3 b cs \<noteq> (RuneError, 1) \<Longrightarrow> snd (decode3 b cs) = 3"
  "decode4 b cs \<noteq> (RuneError, 1) \<Longrightarrow> snd (decode4 b cs) = 4"
  by (auto simp: decode2_def decode3_def decode4_def split: list.splits if_splits)

lemma DecodeRune_take:
  assumes "s \<noteq> []" and "\<not> bad_start s" and "snd (DecodeRune s) \<le> k"
  shows "DecodeRune (take k s @ t) = DecodeRune s"
proof (cases s)
  case (Cons c cs)
  then obtain j where k: "k = Suc j" using assms DecodeRune_size [of s] by (cases k) auto
  show ?thesis
    using assms decode2_take [of "of_char c" cs j t] decode3_take [of "of_char c" cs j t]
      decode4_take [of "of_char c" cs j t] decode_width [of "of_char c" cs]
    by (auto simp: Cons k bad_start_def Let_def split: if_splits)
qed (use assms in simp)

lemma DecodeRune_width: "snd (DecodeRune s) \<le> 4"
  by (cases s) (auto simp: Let_def decode2_def decode3_def decode4_def split: list.splits)

lemma rune_bytes:
  assumes "s \<noteq> []" and "\<not> bad_start s"
  shows "DecodeRune (take (snd (DecodeRune s)) s @ t) = DecodeRune s"
    and "\<not> bad_start (take (snd (DecodeRune s)) s @ t)"
  using DecodeRune_take [OF assms order_refl, of t] assms(2) by (simp_all add: bad_start_def)

lemma rune_append:
  assumes "s \<noteq> []" and "\<not> bad_start s"
  shows "DecodeRune (s @ t) = DecodeRune s" and "\<not> bad_start (s @ t)"
  using DecodeRune_take [OF assms DecodeRune_size_le, of t] assms(2) by (simp_all add: bad_start_def)

lemma valid_utf8_append: "valid_utf8 s \<Longrightarrow> valid_utf8 t \<Longrightarrow> valid_utf8 (s @ t)"
proof (induction s rule: valid_utf8.induct)
  case (1 s)
  show ?case
  proof (cases "s = []")
    case False
    then have b: "\<not> bad_start s" and v: "valid_utf8 (drop (snd (DecodeRune s)) s)"
      using "1.prems"(1) valid_utf8.simps [of s] by (auto split: if_splits)
    have "valid_utf8 (drop (snd (DecodeRune s)) s @ t)" using "1.IH" False b v "1.prems"(2) by blast
    then show ?thesis
      using False b rune_append [OF False b, of t] DecodeRune_size_le [of s]
      by (subst valid_utf8.simps) simp
  qed (use "1.prems" in simp)
qed

lemma valid_utf8_rune:
  assumes "s \<noteq> []" and "\<not> bad_start s"
  shows "valid_utf8 (take (snd (DecodeRune s)) s)"
  using rune_bytes [OF assms, of "[]"] by (subst valid_utf8.simps) simp

lemma valid_utf8_replacement: "valid_utf8 (encode_valid RuneError)"
proof -
  have "DecodeRune (encode_valid RuneError) = (RuneError, length (encode_valid RuneError))"
    using DecodeRune_encode [of RuneError "[]"] by (simp add: valid_rune_def RuneError_def)
  then show ?thesis
    by (subst valid_utf8.simps) (simp add: bad_start_def length_encode_valid RuneError_def)
qed

lemma to_valid_valid: "valid_utf8 (to_valid i s)"
proof (induction i s rule: to_valid.induct)
  case (1 i s)
  then show ?case
    using valid_utf8_rune [of s] valid_utf8_replacement
    by (subst to_valid.simps) (auto intro!: valid_utf8_append)
qed

lemma to_valid_id: "valid_utf8 s \<Longrightarrow> to_valid i s = s"
proof (induction i s rule: to_valid.induct)
  case (1 i s)
  then show ?case
    using valid_utf8.simps [of s] by (subst to_valid.simps) (auto split: if_splits)
qed

text \<open>A valid text cut anywhere is valid at most three bytes earlier.\<close>

lemma valid_cut:
  "valid_utf8 s \<Longrightarrow> k \<le> length s \<Longrightarrow> \<exists>j. k \<le> j + 3 \<and> j \<le> k \<and> valid_utf8 (take j s)"
proof (induction s arbitrary: k rule: valid_utf8.induct)
  case (1 s)
  define n where "n = snd (DecodeRune s)"
  show ?case
  proof (cases "n \<le> k \<and> s \<noteq> []")
    case True
    then have b: "s \<noteq> []" "\<not> bad_start s" and v: "valid_utf8 (drop n s)"
      using "1.prems"(1) valid_utf8.simps [of s] by (auto simp: n_def split: if_splits)
    have "k - n \<le> length (drop n s)" using "1.prems"(2) by simp
    then obtain j where j: "k - n \<le> j + 3" "j \<le> k - n" "valid_utf8 (take j (drop n s))"
      using "1.IH" [OF b v [unfolded n_def], of "k - n"] unfolding n_def by blast
    have "valid_utf8 (take (n + j) s)"
      unfolding take_add using valid_utf8_append [OF valid_utf8_rune [OF b]] j(3) n_def by simp
    then show ?thesis using j True by (intro exI [of _ "n + j"]) auto
  next
    case False
    then have "k \<le> 3" using DecodeRune_width [of s] "1.prems"(2) by (auto simp: n_def)
    then show ?thesis by (intro exI [of _ 0]) simp
  qed
qed

lemma trim_valid_spec:
  "valid_utf8 (trim_valid s) \<and> prefix (trim_valid s) s
   \<and> (j \<le> length s \<longrightarrow> valid_utf8 (take j s) \<longrightarrow> j \<le> length (trim_valid s))"
proof (induction s rule: trim_valid.induct)
  case (1 s)
  show ?case
  proof (cases "valid_utf8 s")
    case True
    then show ?thesis by (subst (1 2 3) trim_valid.simps) simp
  next
    case False
    have t: "trim_valid s = trim_valid (butlast s)" using False by (subst trim_valid.simps) simp
    have p: "prefix (butlast s) s" by (rule prefixeq_butlast)
    have j: "j \<le> length s \<Longrightarrow> valid_utf8 (take j s) \<Longrightarrow> j \<le> length (butlast s) \<and> take j (butlast s) = take j s"
      using False by (cases "j = length s") (auto simp: take_butlast)
    show ?thesis
      using "1" [OF False] p j unfolding t by (metis prefix_order.trans)
  qed
qed

text \<open>
  C24. The error text stored with a failed delivery is valid UTF-8 of at most 2048 bytes for every
  input, the loop that cuts it ends, it is a prefix of the sanitised message that loses at most the
  three bytes of a split rune, and bounding it again changes nothing.
\<close>

theorem stored_error_bounded:
  "length (outbox_boundedError e) \<le> maximumStoredErrorBytes
   \<and> valid_utf8 (outbox_boundedError e)
   \<and> prefix (outbox_boundedError e) (ToValidUTF8 e)
   \<and> min (length (ToValidUTF8 e)) (maximumStoredErrorBytes - 3) \<le> length (outbox_boundedError e)
   \<and> outbox_boundedError (outbox_boundedError e) = outbox_boundedError e"
proof -
  define T where "T = ToValidUTF8 e"
  define m where "m = maximumStoredErrorBytes"
  have v: "valid_utf8 T" by (simp add: T_def ToValidUTF8_def to_valid_valid)
  have again: "outbox_boundedError b = b" if "valid_utf8 b" "length b \<le> m" for b
    using that by (simp add: outbox_boundedError_def ToValidUTF8_def to_valid_id m_def)
  show ?thesis
  proof (cases "length T \<le> m")
    case True
    then have "outbox_boundedError e = T" by (simp add: outbox_boundedError_def T_def m_def)
    then show ?thesis using True v again unfolding m_def [symmetric] T_def [symmetric] by simp
  next
    case False
    define b where "b = trim_valid (take m T)"
    have e: "outbox_boundedError e = b"
      using False by (simp add: outbox_boundedError_def T_def m_def b_def Let_def)
    obtain j where j: "m \<le> j + 3" "j \<le> m" "valid_utf8 (take j T)"
      using valid_cut [OF v, of m] False by auto
    have s: "valid_utf8 b" "prefix b (take m T)" "j \<le> length b"
      using trim_valid_spec [of "take m T" j] j False by (simp_all add: b_def min_def)
    have "prefix b T" using s(2) take_is_prefix prefix_order.trans by blast
    moreover have "length b \<le> m" using prefix_length_le [OF s(2)] by simp
    ultimately show ?thesis
      using s(1,3) j(1) again unfolding e m_def [symmetric] T_def [symmetric] by simp
  qed
qed

end
