(* ===== verification/Outbox_Delivery.thy ===== *)
theory Outbox_Delivery
  imports Outbox_Event Outbox_Text "HOL-Library.Word" "HOL-Library.Multiset"
begin

text \<open>
  Delivery of recorded events: the durable store (\<^verbatim>\<open>internal/outbox/postgres_store.go\<close>,
  \<^verbatim>\<open>store.go\<close>), the counters (\<^verbatim>\<open>metrics.go\<close>), the dispatcher (\<^verbatim>\<open>dispatcher.go\<close>) and the
  loop around it (\<^verbatim>\<open>runner.go\<close>).

  The table \<^verbatim>\<open>broker_outbox\<close> is the list of its committed rows.  A claim takes the set of rows that
  concurrent transactions hold locked (\<^verbatim>\<open>SKIP LOCKED\<close>) and the order in which \<^verbatim>\<open>RETURNING\<close>
  delivers rows, which PostgreSQL leaves open, as arguments.  The publisher is a function on a world
  of its own.  The dispatcher sees the store only through the record of its four operations; the
  locale \<open>delivery_ledger\<close> states what it relies on.
\<close>

section \<open>The store\<close>

record outbox_row =
  ob_sequence :: int
  ob_event :: outbox_event
  ob_published_at :: "gotime option"
  ob_attempts :: int
  ob_last_error :: "string option"
  ob_available_at :: gotime
  ob_lease_owner :: "string option"
  ob_lease_expires_at :: "gotime option"
  ob_dead_lettered_at :: "gotime option"

record outbox_record =
  rc_Event :: outbox_event
  rc_Sequence :: int
  rc_Attempts :: int

datatype delivery_error = ErrDeliveryLeaseLost | ErrDeliveryInput | ErrDeliveryDatabase

type_synonym outbox_table = "outbox_row list"

text \<open>A row as the workflow transactions insert it: the delivery columns have their defaults.\<close>

definition new_outbox_row :: "int \<Rightarrow> gotime \<Rightarrow> outbox_event \<Rightarrow> outbox_row" where
  "new_outbox_row sequence now event =
     \<lparr>ob_sequence = sequence, ob_event = event, ob_published_at = None, ob_attempts = 0, ob_last_error = None,
      ob_available_at = now, ob_lease_owner = None, ob_lease_expires_at = None, ob_dead_lettered_at = None\<rparr>"

definition undelivered :: "outbox_row \<Rightarrow> bool" where
  "undelivered r \<longleftrightarrow> ob_published_at r = None \<and> ob_dead_lettered_at r = None"

definition claimable :: "gotime \<Rightarrow> outbox_row \<Rightarrow> bool" where
  "claimable now r \<longleftrightarrow>
     undelivered r \<and> ob_available_at r \<le> now \<and>
     (case ob_lease_expires_at r of None \<Rightarrow> True | Some e \<Rightarrow> e \<le> now)"

definition claim_rows :: "gotime \<Rightarrow> int \<Rightarrow> (int \<Rightarrow> bool) \<Rightarrow> outbox_table \<Rightarrow> outbox_row list" where
  "claim_rows now limit locked rows =
     take (nat limit) (filter (\<lambda>r. claimable now r \<and> \<not> locked (ob_sequence r)) (sort_key ob_sequence rows))"

definition leased_row :: "string \<Rightarrow> gotime \<Rightarrow> outbox_row \<Rightarrow> outbox_row" where
  "leased_row owner expires r =
     r\<lparr>ob_lease_owner := Some owner, ob_lease_expires_at := Some expires, ob_attempts := ob_attempts r + 1\<rparr>"

definition claimed_record :: "outbox_row \<Rightarrow> outbox_record" where
  "claimed_record r = \<lparr>rc_Event = ob_event r, rc_Sequence = ob_sequence r, rc_Attempts = ob_attempts r\<rparr>"

definition update_rows :: "(outbox_row \<Rightarrow> bool) \<Rightarrow> (outbox_row \<Rightarrow> outbox_row) \<Rightarrow> outbox_table \<Rightarrow> outbox_table" where
  "update_rows p u rows = map (\<lambda>r. if p r then u r else r) rows"

definition claim_stmt ::
  "(int \<Rightarrow> bool) \<Rightarrow> string \<Rightarrow> int \<Rightarrow> gotime \<Rightarrow> gotime \<Rightarrow> outbox_table \<Rightarrow> (outbox_record list \<times> outbox_table) option" where
  "claim_stmt locked owner limit now expires rows =
     (let chosen = claim_rows now limit locked rows;
          picked = (\<lambda>r. ob_sequence r \<in> set (map ob_sequence chosen))
      in if \<exists>r\<in>set chosen. integer_inc (ob_attempts r) = None then None
         else Some (map (claimed_record \<circ> leased_row owner expires) chosen,
                    update_rows picked (leased_row owner expires) rows))"

definition PGO_Claim ::
  "db_faults \<Rightarrow> (int \<Rightarrow> bool) \<Rightarrow> (outbox_record list \<Rightarrow> outbox_record list)
   \<Rightarrow> string \<Rightarrow> int \<Rightarrow> gotime \<Rightarrow> duration \<Rightarrow> outbox_table \<Rightarrow> (delivery_error + outbox_record list) \<times> outbox_table" where
  "PGO_Claim f locked arrange owner limit now lease rows =
     (if owner = '''' \<or> limit \<le> 0 \<or> IsZero now \<or> lease \<le> 0 then (Inl ErrDeliveryInput, rows)
      else if f 0 \<noteq> CallOK then (Inl ErrDeliveryDatabase, rows)
      else case claim_stmt locked owner limit (Truncate_us now) (Truncate_us (now + lease)) rows of
        None \<Rightarrow> (Inl ErrDeliveryDatabase, rows)
      | Some (records, rows') \<Rightarrow>
          if f 1 \<noteq> CallOK \<or> f 2 \<noteq> CallOK then (Inl ErrDeliveryDatabase, rows)
          else (case sql_write (f 3) rows (Some ((), rows')) of
                  (None, d) \<Rightarrow> (Inl ErrDeliveryDatabase, d)
                | (Some _, d) \<Rightarrow> (Inr (arrange records), d)))"

definition validateLeaseUpdate :: "int \<Rightarrow> string \<Rightarrow> gotime \<Rightarrow> bool" where
  "validateLeaseUpdate sequence owner at \<longleftrightarrow> 0 < sequence \<and> owner \<noteq> '''' \<and> \<not> IsZero at"

definition requireUpdatedLease :: "db_call \<Rightarrow> nat \<Rightarrow> delivery_error option" where
  "requireUpdatedLease inspect updated =
     (if inspect \<noteq> CallOK then Some ErrDeliveryDatabase
      else if updated \<noteq> 1 then Some ErrDeliveryLeaseLost
      else None)"

definition leased_to :: "int \<Rightarrow> string \<Rightarrow> gotime \<Rightarrow> outbox_row \<Rightarrow> bool" where
  "leased_to sequence owner at r \<longleftrightarrow>
     ob_sequence r = sequence \<and> ob_lease_owner r = Some owner \<and>
     (case ob_lease_expires_at r of None \<Rightarrow> False | Some e \<Rightarrow> at < e) \<and> undelivered r"

definition updateLease ::
  "db_faults \<Rightarrow> int \<Rightarrow> string \<Rightarrow> gotime \<Rightarrow> (outbox_row \<Rightarrow> outbox_row) \<Rightarrow> outbox_table
   \<Rightarrow> delivery_error option \<times> outbox_table" where
  "updateLease f sequence owner at u rows =
     (if \<not> validateLeaseUpdate sequence owner at then (Some ErrDeliveryInput, rows)
      else let p = leased_to sequence owner (Truncate_us at)
           in case sql_write (f 0) rows (Some (length (filter p rows), update_rows p u rows)) of
                (None, d) \<Rightarrow> (Some ErrDeliveryDatabase, d)
              | (Some updated, d) \<Rightarrow> (requireUpdatedLease (f 1) updated, d))"

definition published_row :: "gotime \<Rightarrow> outbox_row \<Rightarrow> outbox_row" where
  "published_row at r =
     r\<lparr>ob_published_at := Some at, ob_lease_owner := None, ob_lease_expires_at := None, ob_last_error := None\<rparr>"

definition PGO_MarkPublished ::
  "db_faults \<Rightarrow> int \<Rightarrow> string \<Rightarrow> gotime \<Rightarrow> outbox_table \<Rightarrow> delivery_error option \<times> outbox_table" where
  "PGO_MarkPublished f sequence owner publishedAt rows =
     updateLease f sequence owner publishedAt (published_row (Truncate_us publishedAt)) rows"

definition retried_row :: "gotime \<Rightarrow> string \<Rightarrow> outbox_row \<Rightarrow> outbox_row" where
  "retried_row availableAt failure r =
     r\<lparr>ob_available_at := availableAt, ob_last_error := Some failure, ob_lease_owner := None, ob_lease_expires_at := None\<rparr>"

definition PGO_Retry ::
  "db_faults \<Rightarrow> int \<Rightarrow> string \<Rightarrow> gotime \<Rightarrow> gotime \<Rightarrow> string \<Rightarrow> outbox_table \<Rightarrow> delivery_error option \<times> outbox_table" where
  "PGO_Retry f sequence owner failedAt availableAt failure rows =
     (if \<not> validateLeaseUpdate sequence owner failedAt \<or> availableAt < failedAt then (Some ErrDeliveryInput, rows)
      else updateLease f sequence owner failedAt
             (retried_row (Truncate_us availableAt) (outbox_boundedError failure)) rows)"

definition dead_row :: "gotime \<Rightarrow> string \<Rightarrow> outbox_row \<Rightarrow> outbox_row" where
  "dead_row failedAt failure r =
     r\<lparr>ob_dead_lettered_at := Some failedAt, ob_last_error := Some failure, ob_lease_owner := None, ob_lease_expires_at := None\<rparr>"

definition PGO_DeadLetter ::
  "db_faults \<Rightarrow> int \<Rightarrow> string \<Rightarrow> gotime \<Rightarrow> string \<Rightarrow> outbox_table \<Rightarrow> delivery_error option \<times> outbox_table" where
  "PGO_DeadLetter f sequence owner failedAt failure rows =
     updateLease f sequence owner failedAt (dead_row (Truncate_us failedAt) (outbox_boundedError failure)) rows"

section \<open>The counters\<close>

record metrics =
  mt_claimed :: "64 word"
  mt_published :: "64 word"
  mt_retried :: "64 word"
  mt_deadLettered :: "64 word"
  mt_failures :: "64 word"

text \<open>The counters of a dispatcher may be absent (a nil pointer), and then nothing is recorded.\<close>

definition Metrics_recordClaimed :: "nat \<Rightarrow> metrics option \<Rightarrow> metrics option" where
  "Metrics_recordClaimed n m = (if 0 < n then map_option (\<lambda>m. m\<lparr>mt_claimed := mt_claimed m + of_nat n\<rparr>) m else m)"

definition Metrics_recordPublished :: "metrics option \<Rightarrow> metrics option" where
  "Metrics_recordPublished = map_option (\<lambda>m. m\<lparr>mt_published := mt_published m + 1\<rparr>)"

definition Metrics_recordRetried :: "metrics option \<Rightarrow> metrics option" where
  "Metrics_recordRetried = map_option (\<lambda>m. m\<lparr>mt_retried := mt_retried m + 1\<rparr>)"

definition Metrics_recordDeadLettered :: "metrics option \<Rightarrow> metrics option" where
  "Metrics_recordDeadLettered = map_option (\<lambda>m. m\<lparr>mt_deadLettered := mt_deadLettered m + 1\<rparr>)"

definition Metrics_recordFailure :: "metrics option \<Rightarrow> metrics option" where
  "Metrics_recordFailure = map_option (\<lambda>m. m\<lparr>mt_failures := mt_failures m + 1\<rparr>)"

definition Metrics_Snapshot :: "metrics option \<Rightarrow> metrics" where
  "Metrics_Snapshot m =
     (case m of
        None \<Rightarrow> \<lparr>mt_claimed = 0, mt_published = 0, mt_retried = 0, mt_deadLettered = 0, mt_failures = 0\<rparr>
      | Some m \<Rightarrow> m)"

section \<open>The dispatcher\<close>

record 'w delivery_store =
  ds_Claim :: "string \<Rightarrow> int \<Rightarrow> gotime \<Rightarrow> duration \<Rightarrow> 'w \<Rightarrow> (delivery_error + outbox_record list) \<times> 'w"
  ds_MarkPublished :: "int \<Rightarrow> string \<Rightarrow> gotime \<Rightarrow> 'w \<Rightarrow> delivery_error option \<times> 'w"
  ds_Retry :: "int \<Rightarrow> string \<Rightarrow> gotime \<Rightarrow> gotime \<Rightarrow> string \<Rightarrow> 'w \<Rightarrow> delivery_error option \<times> 'w"
  ds_DeadLetter :: "int \<Rightarrow> string \<Rightarrow> gotime \<Rightarrow> string \<Rightarrow> 'w \<Rightarrow> delivery_error option \<times> 'w"

type_synonym 'p publisher = "outbox_event \<Rightarrow> 'p \<Rightarrow> string option \<times> 'p"

record dispatcher =
  di_WorkerID :: string
  di_BatchSize :: int
  di_MaxAttempts :: int
  di_Lease :: duration
  di_RetryDelay :: "int \<Rightarrow> duration"

datatype dispatch_failure =
    InvalidDispatcher
  | PublishFailed string string
  | StoreFailed delivery_error

definition Dispatcher_validate :: "dispatcher \<Rightarrow> bool" where
  "Dispatcher_validate d \<longleftrightarrow>
     di_WorkerID d \<noteq> '''' \<and> 0 < di_BatchSize d \<and> 0 < di_MaxAttempts d \<and> 0 < di_Lease d"

text \<open>What a pass carries along: the counters, the joined errors, the store and the publisher.\<close>

record ('w, 'p) dispatch_state =
  dp_metrics :: "metrics option"
  dp_failures :: "dispatch_failure list"
  dp_store :: 'w
  dp_publisher :: 'p

definition store_failed :: "delivery_error \<Rightarrow> 'w \<Rightarrow> ('w, 'p) dispatch_state \<Rightarrow> ('w, 'p) dispatch_state" where
  "store_failed e w s =
     s\<lparr>dp_metrics := Metrics_recordFailure (dp_metrics s), dp_failures := dp_failures s @ [StoreFailed e], dp_store := w\<rparr>"

text \<open>Every store call is followed by its counter, or by the record of its failure.\<close>

definition settle ::
  "delivery_error option \<times> 'w \<Rightarrow> (metrics option \<Rightarrow> metrics option) \<Rightarrow> ('w, 'p) dispatch_state \<Rightarrow> ('w, 'p) dispatch_state" where
  "settle answer count_it s =
     (case answer of
        (Some e, w) \<Rightarrow> store_failed e w s
      | (None, w) \<Rightarrow> s\<lparr>dp_metrics := count_it (dp_metrics s), dp_store := w\<rparr>)"

text \<open>One round of the loop over the claimed records; the clock is read once, after publication.\<close>

definition dispatch_record ::
  "dispatcher \<Rightarrow> 'w delivery_store \<Rightarrow> gotime \<Rightarrow> 'p publisher \<Rightarrow> outbox_record
   \<Rightarrow> ('w, 'p) dispatch_state \<Rightarrow> ('w, 'p) dispatch_state" where
  "dispatch_record d store now publish record s =
     (case publish (rc_Event record) (dp_publisher s) of
        (Some failure, p) \<Rightarrow>
          let s = s\<lparr>dp_metrics := Metrics_recordFailure (dp_metrics s),
                    dp_failures := dp_failures s @ [PublishFailed (oe_ID (rc_Event record)) failure],
                    dp_publisher := p\<rparr>
          in if di_MaxAttempts d \<le> rc_Attempts record
             then settle (ds_DeadLetter store (rc_Sequence record) (di_WorkerID d) now failure (dp_store s))
                    Metrics_recordDeadLettered s
             else settle (ds_Retry store (rc_Sequence record) (di_WorkerID d) now
                           (now + di_RetryDelay d (rc_Attempts record)) failure (dp_store s))
                    Metrics_recordRetried s
      | (None, p) \<Rightarrow>
          let s = s\<lparr>dp_publisher := p\<rparr>
          in settle (ds_MarkPublished store (rc_Sequence record) (di_WorkerID d) now (dp_store s))
               Metrics_recordPublished s)"

text \<open>The store and the clock are indexed by the call: each database call may fail in its own way.\<close>

fun dispatch_records ::
  "dispatcher \<Rightarrow> (nat \<Rightarrow> 'w delivery_store) \<Rightarrow> (nat \<Rightarrow> gotime) \<Rightarrow> 'p publisher \<Rightarrow> nat \<Rightarrow> outbox_record list
   \<Rightarrow> ('w, 'p) dispatch_state \<Rightarrow> ('w, 'p) dispatch_state" where
  "dispatch_records d store clock publish k [] s = s"
| "dispatch_records d store clock publish k (record # records) s =
     dispatch_records d store clock publish (Suc k) records
       (dispatch_record d (store k) (clock k) publish record s)"

definition Dispatcher_RunOnce ::
  "dispatcher \<Rightarrow> (nat \<Rightarrow> 'w delivery_store) \<Rightarrow> (nat \<Rightarrow> gotime) \<Rightarrow> 'p publisher \<Rightarrow> metrics option \<Rightarrow> 'w \<Rightarrow> 'p
   \<Rightarrow> nat \<times> ('w, 'p) dispatch_state" where
  "Dispatcher_RunOnce d store clock publish m w p =
     (let s = \<lparr>dp_metrics = m, dp_failures = [], dp_store = w, dp_publisher = p\<rparr>
      in if \<not> Dispatcher_validate d then (0, s\<lparr>dp_failures := [InvalidDispatcher]\<rparr>)
         else case ds_Claim (store 0) (di_WorkerID d) (di_BatchSize d) (clock 0) (di_Lease d) w of
           (Inl e, w) \<Rightarrow> (0, store_failed e w s)
         | (Inr records, w) \<Rightarrow>
             (length records,
              dispatch_records d store clock publish 1 records
                (s\<lparr>dp_metrics := Metrics_recordClaimed (length records) m, dp_store := w\<rparr>)))"

section \<open>The delivery loop\<close>

record runner =
  ru_Dispatcher :: dispatcher
  ru_PollInterval :: duration
  ru_FailureDelay :: duration

text \<open>
  What the loop observes of its context in the \<open>k\<close>-th round: whether it is cancelled when the round
  starts, when the error is about to be reported, after the pass, and whether the wait ends by
  cancellation.  A round leaves the pass's state and, in \<open>reported\<close>, the calls of \<^verbatim>\<open>OnError\<close>.
\<close>

record run_context =
  cx_start :: bool
  cx_report :: bool
  cx_after :: bool
  cx_wait :: "duration \<Rightarrow> bool"

record ('w, 'p) run_state =
  rs_metrics :: "metrics option"
  rs_store :: 'w
  rs_publisher :: 'p
  rs_reported :: "dispatch_failure list list"

definition run_pass ::
  "runner \<Rightarrow> (nat \<Rightarrow> 'w delivery_store) \<Rightarrow> (nat \<Rightarrow> gotime) \<Rightarrow> 'p publisher \<Rightarrow> run_context
   \<Rightarrow> ('w, 'p) run_state \<Rightarrow> nat \<times> dispatch_failure list \<times> ('w, 'p) run_state" where
  "run_pass r store clock publish cx s =
     (let (n, s') = Dispatcher_RunOnce (ru_Dispatcher r) store clock publish (rs_metrics s) (rs_store s) (rs_publisher s)
      in (n, dp_failures s',
          \<lparr>rs_metrics = dp_metrics s', rs_store = dp_store s', rs_publisher = dp_publisher s',
           rs_reported = rs_reported s @ (if dp_failures s' \<noteq> [] \<and> \<not> cx_report cx then [dp_failures s'] else [])\<rparr>))"

partial_function (option) run_loop ::
  "runner \<Rightarrow> (nat \<Rightarrow> nat \<Rightarrow> 'w delivery_store) \<Rightarrow> (nat \<Rightarrow> nat \<Rightarrow> gotime) \<Rightarrow> 'p publisher \<Rightarrow> (nat \<Rightarrow> run_context)
   \<Rightarrow> nat \<Rightarrow> ('w, 'p) run_state \<Rightarrow> (nat \<times> ('w, 'p) run_state) option" where
  "run_loop r store clock publish cx k s =
     (if cx_start (cx k) then Some (k, s)
      else let (n, failures, s') = run_pass r (store k) (clock k) publish (cx k) s
           in if cx_after (cx k) then Some (Suc k, s')
              else if failures = [] \<and> int n = di_BatchSize (ru_Dispatcher r) then
                run_loop r store clock publish cx (Suc k) s'
              else if cx_wait (cx k) (if failures \<noteq> [] then ru_FailureDelay r else ru_PollInterval r) then
                Some (Suc k, s')
              else run_loop r store clock publish cx (Suc k) s')"

definition Runner_Run ::
  "runner \<Rightarrow> (nat \<Rightarrow> nat \<Rightarrow> 'w delivery_store) \<Rightarrow> (nat \<Rightarrow> nat \<Rightarrow> gotime) \<Rightarrow> 'p publisher \<Rightarrow> (nat \<Rightarrow> run_context)
   \<Rightarrow> ('w, 'p) run_state \<Rightarrow> (unit + nat \<times> ('w, 'p) run_state) option" where
  "Runner_Run r store clock publish cx s =
     (if \<not> Dispatcher_validate (ru_Dispatcher r) \<or> ru_PollInterval r \<le> 0 \<or> ru_FailureDelay r \<le> 0 then Some (Inl ())
      else map_option Inr (run_loop r store clock publish cx 0 s))"

section \<open>What one call may do to a row\<close>

lemmas row_updates = leased_row_def published_row_def retried_row_def dead_row_def

inductive row_delivery :: "outbox_row \<Rightarrow> outbox_row \<Rightarrow> bool" where
  same: "row_delivery r r"
| claim: "claimable now r \<Longrightarrow> ob_attempts r < int32_max \<Longrightarrow> now \<le> e \<Longrightarrow> row_delivery r (leased_row owner e r)"
| publish: "leased_to (ob_sequence r) owner at r \<Longrightarrow> row_delivery r (published_row at r)"
| retry: "leased_to (ob_sequence r) owner at r \<Longrightarrow> at \<le> t \<Longrightarrow> row_delivery r (retried_row t failure r)"
| dead: "leased_to (ob_sequence r) owner at r \<Longrightarrow> row_delivery r (dead_row at failure r)"

definition table_delivery :: "outbox_table \<Rightarrow> outbox_table \<Rightarrow> bool" where
  "table_delivery rows rows' \<longleftrightarrow> list_all2 row_delivery rows rows'"

definition outbox_row_ok :: "outbox_row \<Rightarrow> bool" where
  "outbox_row_ok r \<longleftrightarrow>
     0 < ob_sequence r \<and> (ob_lease_owner r = None \<longleftrightarrow> ob_lease_expires_at r = None) \<and>
     0 \<le> ob_attempts r \<and> ob_attempts r \<le> int32_max \<and>
     (ob_published_at r = None \<or> ob_dead_lettered_at r = None) \<and>
     (\<not> undelivered r \<longrightarrow> ob_lease_owner r = None)"

definition outbox_ok :: "outbox_table \<Rightarrow> bool" where
  "outbox_ok rows \<longleftrightarrow> distinct (map ob_sequence rows) \<and> list_all outbox_row_ok rows"

lemma outbox_distinct:
  "outbox_ok rows \<Longrightarrow> r \<in> set rows \<Longrightarrow> r' \<in> set rows \<Longrightarrow> ob_sequence r = ob_sequence r' \<Longrightarrow> r = r'"
  by (auto simp: outbox_ok_def distinct_map dest: inj_onD)

lemma row_delivery_fixed:
  "row_delivery r r' \<Longrightarrow> ob_sequence r' = ob_sequence r \<and> ob_event r' = ob_event r"
  by (induction rule: row_delivery.induct) (simp_all add: row_updates)

lemma row_delivery_ok: "row_delivery r r' \<Longrightarrow> outbox_row_ok r \<Longrightarrow> outbox_row_ok r'"
  by (induction rule: row_delivery.induct)
    (auto simp: row_updates outbox_row_ok_def claimable_def leased_to_def undelivered_def)

text \<open>Published and dead-lettered rows are beyond the reach of the dispatchers.\<close>

lemma row_delivery_final: "row_delivery r r' \<Longrightarrow> \<not> undelivered r \<Longrightarrow> r' = r"
  by (induction rule: row_delivery.induct) (auto simp: claimable_def leased_to_def)

lemma table_delivery_refl [simp]: "table_delivery rows rows"
  by (simp add: table_delivery_def list_all2_same row_delivery.same)

lemma table_delivery_fixed:
  assumes "table_delivery rows rows'"
  shows "map ob_sequence rows' = map ob_sequence rows" and "map ob_event rows' = map ob_event rows"
  using assms unfolding table_delivery_def
  by (induction rule: list_all2_induct) (auto dest: row_delivery_fixed)

lemma table_delivery_ok:
  assumes "table_delivery rows rows'" and "outbox_ok rows"
  shows "outbox_ok rows'"
proof -
  have "list_all outbox_row_ok rows'" if "list_all outbox_row_ok rows"
    using assms(1) that unfolding table_delivery_def
    by (induction rule: list_all2_induct) (auto intro: row_delivery_ok)
  then show ?thesis using assms(2) table_delivery_fixed(1) [OF assms(1)] by (simp add: outbox_ok_def)
qed

lemma table_delivery_row:
  assumes "table_delivery rows rows'" and "r' \<in> set rows'"
  obtains r where "r \<in> set rows" and "row_delivery r r'"
  using assms unfolding table_delivery_def by (metis list_all2_conv_all_nth in_set_conv_nth)

lemma table_delivery_row_fwd:
  assumes "table_delivery rows rows'" and "r \<in> set rows"
  obtains r' where "r' \<in> set rows'" and "row_delivery r r'"
  using assms unfolding table_delivery_def by (metis list_all2_conv_all_nth in_set_conv_nth)

lemma update_rows_delivery:
  assumes "\<And>r. r \<in> set rows \<Longrightarrow> p r \<Longrightarrow> row_delivery r (u r)"
  shows "table_delivery rows (update_rows p u rows)"
  using assms by (auto simp: table_delivery_def update_rows_def list.rel_map intro!: list.rel_refl_strong row_delivery.same)

lemma claim_rows_claimable:
  "r \<in> set (claim_rows now limit locked rows) \<Longrightarrow> r \<in> set rows \<and> claimable now r \<and> \<not> locked (ob_sequence r)"
  unfolding claim_rows_def by (auto dest: in_set_takeD)

lemma claim_stmt_Some:
  assumes "claim_stmt locked owner limit now e rows = Some (records, rows')" and "outbox_ok rows"
  shows "records = map (claimed_record \<circ> leased_row owner e) (claim_rows now limit locked rows)"
    and "rows' = update_rows (\<lambda>r. r \<in> set (claim_rows now limit locked rows)) (leased_row owner e) rows"
    and "r \<in> set (claim_rows now limit locked rows) \<Longrightarrow> ob_attempts r \<noteq> int32_max"
proof -
  let ?c = "claim_rows now limit locked rows"
  have c: "ob_sequence r \<in> set (map ob_sequence ?c) \<longleftrightarrow> r \<in> set ?c" if "r \<in> set rows" for r
    using that claim_rows_claimable [of _ now limit locked rows] outbox_distinct [OF assms(2)]
    by (metis (no_types, lifting) image_iff list.set_map)
  have "rows' = update_rows (\<lambda>r. ob_sequence r \<in> set (map ob_sequence ?c)) (leased_row owner e) rows"
    using assms(1) unfolding claim_stmt_def Let_def by (auto split: if_splits)
  then show "rows' = update_rows (\<lambda>r. r \<in> set ?c) (leased_row owner e) rows"
    using c unfolding update_rows_def by (auto simp del: set_map)
  show "records = map (claimed_record \<circ> leased_row owner e) ?c"
    using assms(1) by (auto simp: claim_stmt_def Let_def split: if_splits)
  show "ob_attempts r \<noteq> int32_max" if "r \<in> set ?c"
    using assms(1) that by (auto simp: claim_stmt_def Let_def integer_inc_def split: if_splits)
qed

lemma claim_stmt_delivery:
  assumes "claim_stmt locked owner limit now e rows = Some (records, rows')" and "outbox_ok rows" and "now \<le> e"
  shows "table_delivery rows rows'"
  unfolding claim_stmt_Some(2) [OF assms(1,2)]
proof (rule update_rows_delivery)
  fix r assume r: "r \<in> set rows" "r \<in> set (claim_rows now limit locked rows)"
  then have "ob_attempts r < int32_max"
    using claim_stmt_Some(3) [OF assms(1,2)] assms(2) by (force simp: outbox_ok_def list_all_iff outbox_row_ok_def)
  then show "row_delivery r (leased_row owner e r)"
    using claim_rows_claimable [OF r(2)] assms(3) by (auto intro: row_delivery.claim)
qed

text \<open>A claim returns exactly the rows it leased, and it leases only claimable rows.\<close>

lemma PGO_Claim_cases:
  assumes "PGO_Claim f locked arrange owner limit now lease rows = (x, rows')"
  shows "(rows' = rows \<or> (\<exists>records. claim_stmt locked owner limit (Truncate_us now) (Truncate_us (now + lease)) rows
            = Some (records, rows') \<and> 0 < lease \<and> owner \<noteq> ''''))
       \<and> (\<forall>got. x = Inr got \<longrightarrow> (\<exists>records. claim_stmt locked owner limit (Truncate_us now) (Truncate_us (now + lease)) rows
            = Some (records, rows') \<and> got = arrange records \<and> 0 < lease \<and> owner \<noteq> ''''))"
  using assms
  by (auto simp: PGO_Claim_def sql_write_def split: if_splits option.splits prod.splits db_call.splits)

lemma PGO_Claim_delivery:
  assumes "PGO_Claim f locked arrange owner limit now lease rows = (x, rows')" and "outbox_ok rows"
  shows "table_delivery rows rows'"
proof -
  have "0 < lease \<Longrightarrow> Truncate_us now \<le> Truncate_us (now + lease)" by (rule Truncate_us_mono) simp
  then show ?thesis using PGO_Claim_cases [OF assms(1)] claim_stmt_delivery [OF _ assms(2)] by auto
qed

lemma updateLease_cases:
  assumes "updateLease f sequence owner at u rows = (x, rows')"
  shows "rows' = rows \<or> rows' = update_rows (leased_to sequence owner (Truncate_us at)) u rows"
    and "x = None \<Longrightarrow> rows' = update_rows (leased_to sequence owner (Truncate_us at)) u rows
           \<and> length (filter (leased_to sequence owner (Truncate_us at)) rows) = 1"
  using assms
  by (auto simp: updateLease_def requireUpdatedLease_def Let_def sql_write_def
      split: if_splits option.splits prod.splits db_call.splits)

lemma updateLease_delivery:
  assumes "updateLease f sequence owner at u rows = (x, rows')"
    and "\<And>r. leased_to (ob_sequence r) owner (Truncate_us at) r \<Longrightarrow> row_delivery r (u r)"
  shows "table_delivery rows rows'"
  using updateLease_cases(1) [OF assms(1)] assms(2)
  by (auto intro!: update_rows_delivery) (auto simp: leased_to_def)

lemma PGO_MarkPublished_delivery:
  "PGO_MarkPublished f sequence owner at rows = (x, rows') \<Longrightarrow> table_delivery rows rows'"
  unfolding PGO_MarkPublished_def by (erule updateLease_delivery) (rule row_delivery.publish)

lemma PGO_Retry_delivery:
  "PGO_Retry f sequence owner failedAt t failure rows = (x, rows') \<Longrightarrow> table_delivery rows rows'"
  unfolding PGO_Retry_def
  by (auto split: if_splits elim!: updateLease_delivery intro!: row_delivery.retry Truncate_us_mono)

lemma PGO_DeadLetter_delivery:
  "PGO_DeadLetter f sequence owner at failure rows = (x, rows') \<Longrightarrow> table_delivery rows rows'"
  unfolding PGO_DeadLetter_def by (erule updateLease_delivery) (rule row_delivery.dead)

section \<open>The account of a pass\<close>

text \<open>A publisher with a record of the events it was handed.\<close>

definition observed :: "'p publisher \<Rightarrow> ('p \<times> outbox_event list) publisher" where
  "observed publish event p = (case publish event (fst p) of (x, q) \<Rightarrow> (x, q, snd p @ [event]))"

definition tally :: "metrics \<Rightarrow> nat \<Rightarrow> nat \<Rightarrow> nat \<Rightarrow> nat \<Rightarrow> nat \<Rightarrow> metrics" where
  "tally m claimed published retried dead failures =
     \<lparr>mt_claimed = mt_claimed m + of_nat claimed, mt_published = mt_published m + of_nat published,
      mt_retried = mt_retried m + of_nat retried, mt_deadLettered = mt_deadLettered m + of_nat dead,
      mt_failures = mt_failures m + of_nat failures\<rparr>"

fun refused_call :: "dispatch_failure \<Rightarrow> bool" where
  "refused_call (StoreFailed _) = True"
| "refused_call _ = False"

definition balanced :: "metrics \<Rightarrow> nat \<Rightarrow> nat \<Rightarrow> ('w, 'p) dispatch_state \<Rightarrow> bool" where
  "balanced m claimed handled s \<longleftrightarrow>
     (\<exists>published retried dead.
        dp_metrics s = Some (tally m claimed published retried dead (length (dp_failures s))) \<and>
        published + retried + dead + length (filter refused_call (dp_failures s)) = handled)"

lemma tally_record:
  "Metrics_recordFailure (Some (tally m c p r dl f)) = Some (tally m c p r dl (Suc f))"
  "Metrics_recordPublished (Some (tally m c p r dl f)) = Some (tally m c (Suc p) r dl f)"
  "Metrics_recordRetried (Some (tally m c p r dl f)) = Some (tally m c p (Suc r) dl f)"
  "Metrics_recordDeadLettered (Some (tally m c p r dl f)) = Some (tally m c p r (Suc dl) f)"
  by (simp_all add: tally_def Metrics_recordFailure_def Metrics_recordPublished_def Metrics_recordRetried_def Metrics_recordDeadLettered_def)

lemma balancedI:
  "dp_metrics s = Some (tally m c p r dl (length (dp_failures s))) \<Longrightarrow>
   p + r + dl + length (filter refused_call (dp_failures s)) = n \<Longrightarrow> balanced m c n s"
  by (auto simp: balanced_def)

lemma balancedE:
  assumes "balanced m c n s"
  obtains p r dl where "dp_metrics s = Some (tally m c p r dl (length (dp_failures s)))"
    and "p + r + dl + length (filter refused_call (dp_failures s)) = n"
  using assms by (auto simp: balanced_def)

lemma balanced_publisher: "balanced m c n s \<Longrightarrow> balanced m c n (s\<lparr>dp_publisher := p\<rparr>)"
  by (simp add: balanced_def)

lemma balanced_unpublished:
  "balanced m c n s \<Longrightarrow>
   balanced m c n (s\<lparr>dp_metrics := Metrics_recordFailure (dp_metrics s), dp_failures := dp_failures s @ [PublishFailed i e]\<rparr>)"
  by (erule balancedE) (rule balancedI, simp_all add: tally_record)

lemma balanced_failed: "balanced m c n s \<Longrightarrow> balanced m c (Suc n) (store_failed e w s)"
  by (erule balancedE) (rule balancedI, simp_all add: store_failed_def tally_record)

lemma balanced_settle:
  assumes "balanced m c n s"
    and "\<And>p r dl f. \<exists>p' r' dl'. p' + r' + dl' = Suc (p + r + dl)
           \<and> count_it (Some (tally m c p r dl f)) = Some (tally m c p' r' dl' f)"
  shows "balanced m c (Suc n) (settle answer count_it s)"
proof -
  obtain p r dl where s: "dp_metrics s = Some (tally m c p r dl (length (dp_failures s)))"
    "p + r + dl + length (filter refused_call (dp_failures s)) = n"
    using assms(1) by (rule balancedE)
  obtain p' r' dl' where t: "p' + r' + dl' = Suc (p + r + dl)"
    "count_it (dp_metrics s) = Some (tally m c p' r' dl' (length (dp_failures s)))"
    using assms(2) s(1) by metis
  have "balanced m c (Suc n) (s\<lparr>dp_metrics := count_it (dp_metrics s), dp_store := w\<rparr>)" for w
    using s(2) t by (intro balancedI [where p = p' and r = r' and dl = dl']) simp_all
  then show ?thesis
    using balanced_failed [OF assms(1)] by (simp add: settle_def split: prod.split option.split)
qed

lemma counted_once:
  "\<exists>p' r' dl'. p' + r' + dl' = Suc (p + r + dl) \<and> Metrics_recordPublished (Some (tally m c p r dl f)) = Some (tally m c p' r' dl' f)"
  "\<exists>p' r' dl'. p' + r' + dl' = Suc (p + r + dl) \<and> Metrics_recordRetried (Some (tally m c p r dl f)) = Some (tally m c p' r' dl' f)"
  "\<exists>p' r' dl'. p' + r' + dl' = Suc (p + r + dl) \<and> Metrics_recordDeadLettered (Some (tally m c p r dl f)) = Some (tally m c p' r' dl' f)"
  unfolding tally_record by (metis add_Suc add_Suc_right)+

lemma dispatch_record_balanced:
  assumes "balanced m c n s"
  shows "balanced m c (Suc n) (dispatch_record d store now publish record s)"
  unfolding dispatch_record_def Let_def
  by (auto split: prod.split option.split
      intro!: balanced_settle counted_once balanced_unpublished balanced_publisher assms)

lemma dispatch_records_balanced:
  "balanced m c n s \<Longrightarrow>
   balanced m c (n + length records) (dispatch_records d store clock publish k records s)"
proof (induction records arbitrary: k n s)
  case (Cons x records)
  show ?case using Cons.IH [OF dispatch_record_balanced [OF Cons.prems]] by simp
qed simp

lemma dispatch_record_observed:
  "snd (dp_publisher (dispatch_record d store now (observed publish) record s))
   = snd (dp_publisher s) @ [rc_Event record]"
  by (auto simp: dispatch_record_def observed_def settle_def store_failed_def Let_def split: prod.splits option.splits)

lemma dispatch_records_observed:
  "snd (dp_publisher (dispatch_records d store clock (observed publish) k records s))
   = snd (dp_publisher s) @ map rc_Event records"
  by (induction records arbitrary: k s) (simp_all add: dispatch_record_observed)

text \<open>
  A pass of the dispatcher hands every claimed record to the publisher exactly once and in
  claim order, whatever the publisher and the store answer on the way, and its counters account
  for it: each record ends as published, retried, dead-lettered or as one refused store call, and
  the failure counter grows by the number of joined errors (all counters modulo \<open>2 ^ 64\<close>).
\<close>

lemma dispatcher_pass_accounting:
  assumes "Dispatcher_validate d"
    and "ds_Claim (store 0) (di_WorkerID d) (di_BatchSize d) (clock 0) (di_Lease d) w = (Inr records, w')"
    and "Dispatcher_RunOnce d store clock (observed publish) (Some m) w (p, []) = (n, s)"
  shows "n = length records \<and> snd (dp_publisher s) = map rc_Event records
    \<and> (\<exists>published retried dead.
         Metrics_Snapshot (dp_metrics s)
           = \<lparr>mt_claimed = mt_claimed m + of_nat n, mt_published = mt_published m + of_nat published,
              mt_retried = mt_retried m + of_nat retried, mt_deadLettered = mt_deadLettered m + of_nat dead,
              mt_failures = mt_failures m + of_nat (length (dp_failures s))\<rparr>
         \<and> published + retried + dead + length (filter refused_call (dp_failures s)) = n)"
proof -
  let ?s = "\<lparr>dp_metrics = Metrics_recordClaimed (length records) (Some m), dp_failures = [], dp_store = w',
             dp_publisher = (p, [])\<rparr>"
  have s: "n = length records" "s = dispatch_records d store clock (observed publish) 1 records ?s"
    using assms by (auto simp: Dispatcher_RunOnce_def)
  have "dp_metrics ?s = Some (tally m n 0 0 0 0)" using s(1) by (simp add: Metrics_recordClaimed_def tally_def)
  then have "balanced m n 0 ?s" by (auto intro: balancedI [where p = 0 and r = 0 and dl = 0])
  then have "balanced m n n s"
    unfolding s(2) using dispatch_records_balanced [of m n 0 ?s records] s(1) by simp
  then obtain a b c where t: "dp_metrics s = Some (tally m n a b c (length (dp_failures s)))"
    "a + b + c + length (filter refused_call (dp_failures s)) = n"
    by (rule balancedE)
  have "snd (dp_publisher s) = map rc_Event records" unfolding s(2) by (simp add: dispatch_records_observed)
  moreover have "Metrics_Snapshot (dp_metrics s) = tally m n a b c (length (dp_failures s))"
    using t(1) by (simp add: Metrics_Snapshot_def)
  ultimately show ?thesis using s(1) t(2) unfolding tally_def by blast
qed

section \<open>The loop ends on cancellation\<close>

lemma run_loop_stops:
  assumes "cx_start (cx n)" and "k \<le> n"
  shows "\<exists>j s'. run_loop r store clock publish cx k s = Some (j, s') \<and> k \<le> j \<and> j \<le> n"
  using assms(2)
proof (induction "n - k" arbitrary: k s)
  case 0
  then show ?case using assms(1) by (subst run_loop.simps) auto
next
  case (Suc d)
  then have k: "d = n - Suc k" "Suc k \<le> n" by auto
  obtain m fs s' where p: "run_pass r (store k) (clock k) publish (cx k) s = (m, fs, s')"
    by (cases "run_pass r (store k) (clock k) publish (cx k) s")
  have "\<exists>j s''. run_loop r store clock publish cx (Suc k) s' = Some (j, s'') \<and> k \<le> j \<and> j \<le> n"
    using Suc.hyps(1) [OF k] by (meson Suc_leD)
  then show ?case using k(2) by (subst run_loop.simps) (simp add: p)
qed

text \<open>
  A correctly configured delivery loop returns as soon as its context is cancelled: if the
  context is cancelled when round \<open>n\<close> would start, \<^verbatim>\<open>Run\<close> returns after at most \<open>n\<close> passes,
  whatever the passes and the waits in between do.
\<close>

lemma delivery_loop_returns:
  assumes "Dispatcher_validate (ru_Dispatcher r)" and "0 < ru_PollInterval r" and "0 < ru_FailureDelay r"
    and "cx_start (cx n)"
  shows "\<exists>k s'. Runner_Run r store clock publish cx s = Some (Inr (k, s')) \<and> k \<le> n"
  using run_loop_stops [of cx n 0 r store clock publish s] assms
  by (auto simp: Runner_Run_def)

section \<open>A healthy pass delivers\<close>

definition pg_delivery_store ::
  "db_faults \<Rightarrow> (int \<Rightarrow> bool) \<Rightarrow> (outbox_record list \<Rightarrow> outbox_record list) \<Rightarrow> outbox_table delivery_store" where
  "pg_delivery_store f locked arrange =
     \<lparr>ds_Claim = PGO_Claim f locked arrange, ds_MarkPublished = PGO_MarkPublished f,
      ds_Retry = PGO_Retry f, ds_DeadLetter = PGO_DeadLetter f\<rparr>"

definition awaits :: "string \<Rightarrow> gotime \<Rightarrow> outbox_table \<Rightarrow> outbox_record \<Rightarrow> bool" where
  "awaits owner e rows record \<longleftrightarrow>
     (\<exists>r\<in>set rows. ob_sequence r = rc_Sequence record \<and> ob_lease_owner r = Some owner \<and>
        ob_lease_expires_at r = Some e \<and> undelivered r)"

definition delivered_in :: "outbox_table \<Rightarrow> int \<Rightarrow> bool" where
  "delivered_in rows sequence \<longleftrightarrow> (\<exists>r\<in>set rows. ob_sequence r = sequence \<and> ob_published_at r \<noteq> None)"

lemma delivered_in_kept:
  assumes "table_delivery rows rows'" and "delivered_in rows q"
  shows "delivered_in rows' q"
proof -
  obtain r where r: "r \<in> set rows" "ob_sequence r = q" "ob_published_at r \<noteq> None"
    using assms(2) by (auto simp: delivered_in_def)
  obtain r' where "r' \<in> set rows'" "row_delivery r r'" using table_delivery_row_fwd [OF assms(1) r(1)] .
  moreover have "r' = r" if "row_delivery r r'" using row_delivery_final [OF that] r(3) by (simp add: undelivered_def)
  ultimately show ?thesis using r by (auto simp: delivered_in_def)
qed

lemma single_match:
  assumes "distinct (map f xs)" and "x \<in> set xs" and "P x" and "\<And>y. P y \<Longrightarrow> f y = f x"
  shows "length (filter P xs) = 1"
proof -
  have "y = x" if "y \<in> set xs" "P y" for y
    using assms(1,2) assms(4) [OF that(2)] that(1) by (simp add: distinct_map inj_on_def)
  then have "set (filter P xs) = {x}" unfolding set_filter using assms(2,3) by blast
  moreover have "distinct (filter P xs)" using assms(1) by (simp add: distinct_map)
  ultimately show ?thesis using distinct_card [of "filter P xs"] by simp
qed

lemma mark_awaiting:
  assumes ok: "outbox_ok rows" and a: "awaits w e rows x" and "w \<noteq> ''''" and "at \<noteq> 0" and "Truncate_us at < e"
  shows "\<exists>rows'. PGO_MarkPublished (\<lambda>_. CallOK) (rc_Sequence x) w at rows = (None, rows')
    \<and> table_delivery rows rows' \<and> delivered_in rows' (rc_Sequence x)
    \<and> (\<forall>y. rc_Sequence y \<noteq> rc_Sequence x \<longrightarrow> awaits w e rows y \<longrightarrow> awaits w e rows' y)"
proof -
  let ?p = "leased_to (rc_Sequence x) w (Truncate_us at)"
  let ?rows = "update_rows ?p (published_row (Truncate_us at)) rows"
  obtain r where r: "r \<in> set rows" "ob_sequence r = rc_Sequence x" "?p r"
    using a assms(5) by (auto simp: awaits_def leased_to_def)
  have "0 < rc_Sequence x" using ok r(1,2) by (force simp: outbox_ok_def list_all_iff outbox_row_ok_def)
  moreover have "length (filter ?p rows) = 1"
    using ok r by (intro single_match [of ob_sequence _ r]) (auto simp: outbox_ok_def leased_to_def)
  ultimately have m: "PGO_MarkPublished (\<lambda>_. CallOK) (rc_Sequence x) w at rows = (None, ?rows)"
    using assms(3,4)
    by (simp add: PGO_MarkPublished_def updateLease_def validateLeaseUpdate_def requireUpdatedLease_def
        sql_write_def IsZero_def Let_def)
  have "published_row (Truncate_us at) r \<in> set ?rows" using r by (force simp: update_rows_def)
  then have "delivered_in ?rows (rc_Sequence x)"
    unfolding delivered_in_def by (rule rev_bexI) (simp add: published_row_def r(2))
  moreover have "awaits w e ?rows y" if y: "rc_Sequence y \<noteq> rc_Sequence x" "awaits w e rows y" for y
  proof -
    obtain q where q: "q \<in> set rows" "ob_sequence q = rc_Sequence y" "ob_lease_owner q = Some w"
      "ob_lease_expires_at q = Some e" "undelivered q" using y(2) by (auto simp: awaits_def)
    then have "q \<in> set ?rows" using y(1) by (force simp: update_rows_def leased_to_def)
    then show ?thesis using q by (auto simp: awaits_def)
  qed
  ultimately show ?thesis using m PGO_MarkPublished_delivery [OF m] by blast
qed

lemma dispatch_records_deliver:
  assumes "\<And>e p. fst (publish e p) = None" and "di_WorkerID d \<noteq> ''''"
    and "\<And>k. 0 < k \<Longrightarrow> clock k \<noteq> 0 \<and> Truncate_us (clock k) < e"
  shows "0 < k \<Longrightarrow> outbox_ok (dp_store s) \<Longrightarrow> distinct (map rc_Sequence records) \<Longrightarrow>
    (\<And>x. x \<in> set records \<Longrightarrow> awaits (di_WorkerID d) e (dp_store s) x) \<Longrightarrow>
    (let s' = dispatch_records d (\<lambda>_. pg_delivery_store (\<lambda>_. CallOK) locked arrange) clock publish k records s
     in dp_failures s' = dp_failures s
        \<and> (\<forall>q. delivered_in (dp_store s) q \<or> q \<in> rc_Sequence ` set records \<longrightarrow> delivered_in (dp_store s') q))"
proof (induction records arbitrary: k s)
  case Nil
  then show ?case by simp
next
  case (Cons x xs)
  let ?store = "pg_delivery_store (\<lambda>_. CallOK) locked arrange"
  obtain rows' where m: "PGO_MarkPublished (\<lambda>_. CallOK) (rc_Sequence x) (di_WorkerID d) (clock k) (dp_store s) = (None, rows')"
    "table_delivery (dp_store s) rows'" "delivered_in rows' (rc_Sequence x)"
    "\<And>y. rc_Sequence y \<noteq> rc_Sequence x \<Longrightarrow> awaits (di_WorkerID d) e (dp_store s) y \<Longrightarrow> awaits (di_WorkerID d) e rows' y"
    using mark_awaiting [OF Cons.prems(2), of "di_WorkerID d" e x "clock k"] Cons.prems(4) [of x] assms(2) assms(3) [OF Cons.prems(1)]
    by auto
  define s1 where "s1 = dispatch_record d ?store (clock k) publish x s"
  have s1: "dp_store s1 = rows'" "dp_failures s1 = dp_failures s"
    using assms(1) [of "rc_Event x" "dp_publisher s"] m(1)
    by (auto simp: s1_def dispatch_record_def settle_def pg_delivery_store_def Let_def split: prod.splits)
  have aw: "awaits (di_WorkerID d) e (dp_store s1) y" if "y \<in> set xs" for y
    using m(4) [of y] Cons.prems(3,4) that unfolding s1(1) by (force simp: image_iff)
  have "outbox_ok (dp_store s1)" "distinct (map rc_Sequence xs)"
    using table_delivery_ok [OF m(2) Cons.prems(2)] s1(1) Cons.prems(3) by simp_all
  note ih = Cons.IH [of "Suc k" s1, OF _ this aw]
  show ?case
    using ih delivered_in_kept [OF m(2)] m(3) s1 by (auto simp: Let_def s1_def [symmetric])
qed

text \<open>The oldest rows are the ones a bounded claim takes.\<close>

lemma take_sorted:
  fixes f :: "'a \<Rightarrow> 'b::linorder"
  assumes "sorted (map f xs)" and "distinct xs" and "x \<in> set xs" and "card {y \<in> set xs. f y \<le> f x} \<le> n"
  shows "x \<in> set (take n xs)"
proof -
  obtain i where i: "i < length xs" "xs ! i = x" using assms(3) by (auto simp: in_set_conv_nth)
  have "set (take (Suc i) xs) \<subseteq> {y \<in> set xs. f y \<le> f x}"
  proof
    fix y assume "y \<in> set (take (Suc i) xs)"
    then obtain j where j: "j \<le> i" "j < length xs" "y = xs ! j"
      by (auto simp: in_set_conv_nth less_Suc_eq_le)
    then show "y \<in> {y \<in> set xs. f y \<le> f x}" using sorted_nth_mono [OF assms(1) j(1)] i by auto
  qed
  then have "card (set (take (Suc i) xs)) \<le> n"
    using card_mono [of "{y \<in> set xs. f y \<le> f x}" "set (take (Suc i) xs)"] assms(4) by auto
  then have "i < n" using distinct_card [of "take (Suc i) xs"] assms(2) i(1) by (simp split: if_splits)
  then show ?thesis using i by (auto simp: in_set_conv_nth intro!: exI [of _ i])
qed

lemma claim_rows_oldest:
  assumes "outbox_ok rows" and "r \<in> set rows" and "claimable now r"
    and "card {q \<in> set rows. claimable now q \<and> ob_sequence q \<le> ob_sequence r} \<le> nat limit"
  shows "r \<in> set (claim_rows now limit (\<lambda>_. False) rows)"
proof -
  let ?ys = "filter (claimable now) (sort_key ob_sequence rows)"
  have "sorted (map ob_sequence (filter (claimable now) (sort_key ob_sequence rows)))"
    by (rule sorted_filter) simp
  moreover have "distinct ?ys" using assms(1) by (simp add: outbox_ok_def distinct_map)
  moreover have "{y \<in> set ?ys. ob_sequence y \<le> ob_sequence r}
      = {q \<in> set rows. claimable now q \<and> ob_sequence q \<le> ob_sequence r}" by auto
  ultimately show ?thesis using take_sorted [of ob_sequence ?ys r "nat limit"] assms by (simp add: claim_rows_def)
qed

lemma claim_stmt_succeeds:
  assumes "outbox_ok rows" and "\<And>q. q \<in> set rows \<Longrightarrow> ob_attempts q < int32_max"
  obtains records rows' where "claim_stmt locked owner limit now e rows = Some (records, rows')"
proof -
  have "integer_inc (ob_attempts q) \<noteq> None" if "q \<in> set (claim_rows now limit locked rows)" for q
    using claim_rows_claimable [OF that] assms(2) [of q] by (simp add: integer_inc_def)
  then show ?thesis using that unfolding claim_stmt_def Let_def by (metis (no_types, lifting))
qed

lemma claim_stmt_awaits:
  assumes "claim_stmt locked owner limit now e rows = Some (records, rows')" and "outbox_ok rows"
    and "x \<in> set records"
  shows "awaits owner e rows' x"
proof -
  let ?c = "claim_rows now limit locked rows"
  obtain r where r: "r \<in> set ?c" "x = claimed_record (leased_row owner e r)"
    using assms(3) claim_stmt_Some(1) [OF assms(1,2)] by auto
  have "leased_row owner e r \<in> set rows'"
    using r(1) claim_rows_claimable [OF r(1)] claim_stmt_Some(2) [OF assms(1,2)] by (force simp: update_rows_def)
  then show ?thesis
    unfolding awaits_def using claim_rows_claimable [OF r(1)]
    by (rule_tac rev_bexI) (auto simp: r(2) claimed_record_def leased_row_def claimable_def undelivered_def)
qed

lemma claim_rows_distinct:
  assumes "outbox_ok rows"
  shows "distinct (map ob_sequence (claim_rows now limit locked rows))"
proof -
  have "mset (map ob_sequence (sort_key ob_sequence rows)) = mset (map ob_sequence rows)" by simp
  then have "distinct (map ob_sequence (sort_key ob_sequence rows))"
    using assms by (metis outbox_ok_def mset_eq_imp_distinct_iff)
  then show ?thesis unfolding claim_rows_def by (simp add: distinct_map_filter take_map [symmetric])
qed

text \<open>
  C25. An available event is delivered: in a healthy pass (the publisher accepts, the database
  answers, no row is locked, and the lease outlasts the batch) every claimable event among the
  oldest \<^verbatim>\<open>BatchSize\<close> ones ends the pass published, and the pass reports no failure.  The order in
  which PostgreSQL returns the claimed rows does not matter.
\<close>

theorem healthy_pass_delivers:
  assumes "outbox_ok rows" and "Dispatcher_validate d"
    and "\<And>e p. fst (publish e p) = None"
    and "\<And>xs. mset (arrange xs) = mset xs"
    and "clock 0 \<noteq> 0"
    and "\<And>k. 0 < k \<Longrightarrow> clock k \<noteq> 0 \<and> Truncate_us (clock k) < Truncate_us (clock 0 + di_Lease d)"
    and "\<And>q. q \<in> set rows \<Longrightarrow> ob_attempts q < int32_max"
    and "r \<in> set rows" and "claimable (Truncate_us (clock 0)) r"
    and "card {q \<in> set rows. claimable (Truncate_us (clock 0)) q \<and> ob_sequence q \<le> ob_sequence r} \<le> nat (di_BatchSize d)"
    and "Dispatcher_RunOnce d (\<lambda>_. pg_delivery_store (\<lambda>_. CallOK) (\<lambda>_. False) arrange) clock publish m rows p = (n, s)"
  shows "dp_failures s = [] \<and> delivered_in (dp_store s) (ob_sequence r)"
proof -
  let ?now = "Truncate_us (clock 0)" and ?e = "Truncate_us (clock 0 + di_Lease d)"
  let ?store = "pg_delivery_store (\<lambda>_. CallOK) (\<lambda>_. False) arrange"
  obtain records rows' where c: "claim_stmt (\<lambda>_. False) (di_WorkerID d) (di_BatchSize d) ?now ?e rows = Some (records, rows')"
    using claim_stmt_succeeds [OF assms(1,7)] by blast
  have d: "di_WorkerID d \<noteq> ''''" "0 < di_BatchSize d" "0 < di_Lease d" using assms(2) by (simp_all add: Dispatcher_validate_def)
  have claim: "PGO_Claim (\<lambda>_. CallOK) (\<lambda>_. False) arrange (di_WorkerID d) (di_BatchSize d) (clock 0) (di_Lease d) rows
      = (Inr (arrange records), rows')"
    using d c assms(5) by (simp add: PGO_Claim_def IsZero_def sql_write_def)
  have rs: "records = map (claimed_record \<circ> leased_row (di_WorkerID d) ?e) (claim_rows ?now (di_BatchSize d) (\<lambda>_. False) rows)"
    by (rule claim_stmt_Some(1) [OF c assms(1)])
  have seqs: "map rc_Sequence records = map ob_sequence (claim_rows ?now (di_BatchSize d) (\<lambda>_. False) rows)"
    unfolding rs by (simp add: claimed_record_def leased_row_def)
  have arr: "set (arrange records) = set records" using assms(4) mset_eq_setD by blast
  have "mset (map rc_Sequence (arrange records)) = mset (map rc_Sequence records)" using assms(4) by simp
  then have dist: "distinct (map rc_Sequence (arrange records))"
    using claim_rows_distinct [OF assms(1)] seqs by (metis mset_eq_imp_distinct_iff)
  define s0 where "s0 = \<lparr>dp_metrics = Metrics_recordClaimed (length (arrange records)) m, dp_failures = [], dp_store = rows',
      dp_publisher = p\<rparr>"
  have s: "s = dispatch_records d (\<lambda>_. ?store) clock publish 1 (arrange records) s0"
    using assms(2,11) claim by (auto simp: Dispatcher_RunOnce_def pg_delivery_store_def s0_def)
  have "outbox_ok rows'" using table_delivery_ok [OF PGO_Claim_delivery [OF claim assms(1)] assms(1)] .
  moreover have "awaits (di_WorkerID d) ?e rows' x" if "x \<in> set (arrange records)" for x
    using claim_stmt_awaits [OF c assms(1)] that arr by blast
  moreover have "ob_sequence r \<in> rc_Sequence ` set (arrange records)"
    using claim_rows_oldest [OF assms(1,8,9,10)] arg_cong [OF seqs, of set] arr by (metis (no_types) imageI list.set_map)
  ultimately show ?thesis
    using dispatch_records_deliver [of publish d clock ?e 1 s0 "arrange records" "\<lambda>_. False" arrange]
      assms(3,6) d(1) dist s
    by (auto simp: Let_def s0_def)
qed

section \<open>Examples\<close>

definition example_outbox_event :: outbox_event where
  "example_outbox_event =
     \<lparr>oe_ID = ''event-1'', oe_TenantID = ''tenant-a'', oe_AggregateType = ''resolution'', oe_AggregateID = ''res-1'',
      oe_Type = ''resolution.created'', oe_Payload = ''{}'', oe_OccurredAt = 4000\<rparr>"

definition example_outbox :: outbox_table where
  "example_outbox = [new_outbox_row 1 4000 example_outbox_event]"

definition example_dispatcher :: dispatcher where
  "example_dispatcher =
     \<lparr>di_WorkerID = ''worker-1'', di_BatchSize = 10, di_MaxAttempts = 3, di_Lease = 9000000, di_RetryDelay = (\<lambda>_. 1000000)\<rparr>"

definition zero_metrics :: metrics where
  "zero_metrics = Metrics_Snapshot None"

definition example_pass :: "unit publisher \<Rightarrow> nat \<times> (outbox_table, unit) dispatch_state" where
  "example_pass publish =
     Dispatcher_RunOnce example_dispatcher (\<lambda>_. pg_delivery_store (\<lambda>_. CallOK) (\<lambda>_. False) (\<lambda>xs. xs)) (\<lambda>_. 5000)
       publish None example_outbox ()"

lemma example_dispatcher_sel:
  "di_WorkerID example_dispatcher = ''worker-1''" "di_BatchSize example_dispatcher = 10"
  "di_Lease example_dispatcher = 9000000"
  by (simp_all add: example_dispatcher_def)

lemma example_valid: "Dispatcher_validate example_dispatcher"
  by (simp add: Dispatcher_validate_def example_dispatcher_def)

lemma example_outbox_ok: "outbox_ok example_outbox"
  by (simp add: outbox_ok_def outbox_row_ok_def example_outbox_def new_outbox_row_def undelivered_def int32_max_def)

lemma example_claimable: "claimable (Truncate_us 5000) (new_outbox_row 1 4000 example_outbox_event)"
  by (simp add: claimable_def undelivered_def new_outbox_row_def Truncate_us_def)

lemma example_lease: "Truncate_us 5000 < Truncate_us (5000 + di_Lease example_dispatcher)"
  by (simp add: Truncate_us_def example_dispatcher_def)

theorem healthy_pass_delivers_witness:
  "dp_failures (snd (example_pass (\<lambda>_ _. (None, ())))) = []
   \<and> delivered_in (dp_store (snd (example_pass (\<lambda>_ _. (None, ()))))) 1"
proof -
  have "dp_failures (snd (example_pass (\<lambda>_ _. (None, ())))) = []
     \<and> delivered_in (dp_store (snd (example_pass (\<lambda>_ _. (None, ())))))
         (ob_sequence (new_outbox_row 1 4000 example_outbox_event))"
  proof (rule healthy_pass_delivers [where d = example_dispatcher and rows = example_outbox and arrange = "\<lambda>xs. xs"
        and publish = "\<lambda>_ _. (None, ())" and clock = "\<lambda>_. 5000" and m = None and p = "()"
        and n = "fst (example_pass (\<lambda>_ _. (None, ())))"])
    let ?r = "new_outbox_row 1 4000 example_outbox_event"
    have "card {q \<in> set example_outbox. claimable (Truncate_us 5000) q \<and> ob_sequence q \<le> ob_sequence ?r} \<le> card {?r}"
      by (rule card_mono) (auto simp: example_outbox_def)
    then show "card {q \<in> set example_outbox. claimable (Truncate_us 5000) q \<and> ob_sequence q \<le> ob_sequence ?r}
        \<le> nat (di_BatchSize example_dispatcher)"
      by (simp add: example_dispatcher_def)
    show "ob_attempts q < int32_max" if "q \<in> set example_outbox" for q
      using that by (simp add: example_outbox_def new_outbox_row_def int32_max_def)
    show "new_outbox_row 1 4000 example_outbox_event \<in> set example_outbox" by (simp add: example_outbox_def)
  qed (simp_all add: example_outbox_ok example_valid example_claimable example_pass_def example_lease)
  then show ?thesis by (simp add: new_outbox_row_def)
qed

definition example_broker :: "(unit \<times> outbox_event list) publisher" where
  "example_broker = observed (\<lambda>_ _. (None, ()))"

definition example_counted_pass :: "nat \<times> (outbox_table, unit \<times> outbox_event list) dispatch_state" where
  "example_counted_pass =
     Dispatcher_RunOnce example_dispatcher (\<lambda>_. pg_delivery_store (\<lambda>_. CallOK) (\<lambda>_. False) (\<lambda>xs. xs)) (\<lambda>_. 5000)
       example_broker (Some zero_metrics) example_outbox ((), [])"

definition example_claim :: "(delivery_error + outbox_record list) \<times> outbox_table" where
  "example_claim = PGO_Claim (\<lambda>_. CallOK) (\<lambda>_. False) (\<lambda>xs. xs) ''worker-1'' 10 5000 9000000 example_outbox"

lemma example_claim_value:
  "example_claim = (Inr [\<lparr>rc_Event = example_outbox_event, rc_Sequence = 1, rc_Attempts = 1\<rparr>], snd example_claim)"
  by code_simp

definition example_runner :: runner where
  "example_runner = \<lparr>ru_Dispatcher = example_dispatcher, ru_PollInterval = 1000000, ru_FailureDelay = 5000000\<rparr>"

end
