(* ===== verification/Go_Strings.thy ===== *)
theory Go_Strings
  imports Utf8
begin

text \<open>
  The functions of Go's packages \<^verbatim>\<open>strings\<close> and \<^verbatim>\<open>unicode\<close> that input validation uses:
  \<^verbatim>\<open>unicode.IsSpace\<close>, \<^verbatim>\<open>utf8.DecodeLastRuneInString\<close>, \<^verbatim>\<open>strings.TrimSpace\<close> and
  \<^verbatim>\<open>strings.ContainsAny\<close> for an ASCII set.
\<close>

text \<open>The decimal text of an integer, \<^verbatim>\<open>%d\<close>.\<close>

fun dec_digits :: "nat \<Rightarrow> string" where
  "dec_digits n = (if n < 10 then [char_of (48 + n)] else dec_digits (n div 10) @ [char_of (48 + n mod 10)])"

declare dec_digits.simps [simp del]

definition itoa :: "int \<Rightarrow> string" where
  "itoa i = (if i < 0 then ''-'' @ dec_digits (nat (- i)) else dec_digits (nat i))"

definition IsSpace :: "nat \<Rightarrow> bool" where
  "IsSpace r \<longleftrightarrow>
     (9 \<le> r \<and> r \<le> 13) \<or> r = 0x20 \<or> r = 0x85 \<or> r = 0xA0 \<or> r = 0x1680 \<or> (0x2000 \<le> r \<and> r \<le> 0x200A) \<or>
     r = 0x2028 \<or> r = 0x2029 \<or> r = 0x202F \<or> r = 0x205F \<or> r = 0x3000"

text \<open>
  The last rune starts at the nearest byte, at most four from the end, that is not a continuation
  byte; if the rune decoded there does not end the string, the last byte alone is in error.
\<close>

fun rune_start_back :: "nat \<Rightarrow> string \<Rightarrow> nat \<Rightarrow> nat" where
  "rune_start_back 0 s i = i"
| "rune_start_back (Suc n) s i = (if i = 0 then 0 else if cont (s ! i) then rune_start_back n s (i - 1) else i)"

definition DecodeLastRune :: "string \<Rightarrow> nat \<times> nat" where
  "DecodeLastRune s =
     (if s = [] then (RuneError, 0)
      else if of_char (last s) < (0x80 :: nat) then (of_char (last s), 1)
      else let start = (if length s = 1 then 0 else rune_start_back 3 s (length s - 2))
           in case DecodeRune (drop start s) of
                (r, n) \<Rightarrow> if start + n \<noteq> length s then (RuneError, 1) else (r, n))"

lemma rune_start_back_le: "rune_start_back n s i \<le> i"
  by (induction n s i rule: rune_start_back.induct) auto

lemma DecodeLastRune_size:
  assumes "s \<noteq> []"
  shows "0 < snd (DecodeLastRune s)"
proof -
  have "rune_start_back 3 s (length s - 2) < length s" if "length s \<noteq> 1"
    using rune_start_back_le [of 3 s "length s - 2"] assms that by (cases s) auto
  then have "0 < snd (DecodeRune (drop start s))"
    if "start = (if length s = 1 then 0 else rune_start_back 3 s (length s - 2))" for start
    using that assms by (intro DecodeRune_size) auto
  then show ?thesis using assms by (auto simp: DecodeLastRune_def Let_def split: prod.splits)
qed

function trim_left :: "string \<Rightarrow> string" where
  "trim_left s =
     (if s = [] then []
      else if IsSpace (fst (DecodeRune s)) then trim_left (drop (snd (DecodeRune s)) s)
      else s)"
  by pat_completeness auto
termination
  by (relation "measure length") (auto intro!: diff_less DecodeRune_size)

function trim_right :: "string \<Rightarrow> string" where
  "trim_right s =
     (if s = [] then []
      else if IsSpace (fst (DecodeLastRune s)) then trim_right (take (length s - snd (DecodeLastRune s)) s)
      else s)"
  by pat_completeness auto
termination
  by (relation "measure length") (auto intro!: diff_less DecodeLastRune_size)

declare trim_left.simps [simp del] trim_right.simps [simp del]

definition TrimSpace :: "string \<Rightarrow> string" where
  "TrimSpace s = trim_right (trim_left s)"

definition ContainsAny :: "string \<Rightarrow> string \<Rightarrow> bool" where
  "ContainsAny s chars \<longleftrightarrow> list_ex (\<lambda>c. c \<in> set chars) s"

lemma trim_left_length: "length (trim_left s) \<le> length s"
proof (induction s rule: trim_left.induct)
  case (1 s)
  then show ?case by (subst trim_left.simps) (auto intro: order_trans)
qed

lemma trim_right_length: "length (trim_right s) \<le> length s"
proof (induction s rule: trim_right.induct)
  case (1 s)
  then show ?case by (subst trim_right.simps) (auto intro: order_trans)
qed

lemma TrimSpace_length: "length (TrimSpace s) \<le> length s"
  unfolding TrimSpace_def by (rule order_trans [OF trim_right_length trim_left_length])

definition plain :: "char \<Rightarrow> bool" where
  "plain c \<longleftrightarrow> of_char c < (0x80 :: nat) \<and> \<not> IsSpace (of_char c)"

lemma TrimSpace_plain:
  assumes "s \<noteq> []" and "plain (hd s)" and "plain (last s)"
  shows "TrimSpace s = s"
proof -
  have "fst (DecodeRune s) = of_char (hd s)" using assms(1,2) by (cases s) (auto simp: plain_def Let_def)
  then have l: "trim_left s = s" using assms(1,2) by (subst trim_left.simps) (simp add: plain_def)
  have "fst (DecodeLastRune s) = of_char (last s)" using assms(1,3) by (simp add: DecodeLastRune_def plain_def)
  then have "trim_right s = s" using assms(1,3) by (subst trim_right.simps) (simp add: plain_def)
  then show ?thesis using l by (simp add: TrimSpace_def)
qed

end
