(* ===== verification/Dead_Letter.thy ===== *)
theory Dead_Letter
  imports Outbox_Delivery Auth_Context Go_Strings
begin

text \<open>
  Inspection and audited replay of dead-lettered events: \<^verbatim>\<open>internal/deadletter/service.go\<close> and
  \<^verbatim>\<open>internal/deadletter/postgres_repository.go\<close>, on the outbox table and the append-only table
  \<^verbatim>\<open>broker_dead_letter_actions\<close>.

  A replay runs in one transaction that first takes an advisory lock on the idempotency key and later
  locks the event's row, so no other transaction changes what it has read before it commits; it is
  modelled as one step.  The transaction's \<^verbatim>\<open>CURRENT_TIMESTAMP\<close> is an argument.
\<close>

section \<open>Data\<close>

record dead_entry =
  en_Sequence :: int
  en_EventID :: string
  en_AggregateType :: string
  en_AggregateID :: string
  en_EventType :: string
  en_OccurredAt :: gotime
  en_Attempts :: int
  en_DeadLetteredAt :: gotime

record replay_command =
  rp_ActionID :: string
  rp_TenantID :: string
  rp_EventID :: string
  rp_ActorID :: string
  rp_SPIFFEID :: string
  rp_IdentityRevision :: string
  rp_IdempotencyKey :: string
  rp_Reason :: string

record replay_result =
  rr_ActionID :: string
  rr_EventID :: string
  rr_RequestedAt :: gotime
  rr_AvailableAt :: gotime
  rr_Replayed :: bool

datatype dead_letter_error =
    ErrNoDeadLetter
  | ErrReplayConflict
  | ErrOperatorDenied
  | ErrOperatorInput
  | ErrIncompleteCommand
  | ErrActionID
  | ErrDeadLetterDatabase

record replay_action =
  ra_action_id :: string
  ra_tenant_id :: string
  ra_outbox_sequence :: int
  ra_event_id :: string
  ra_actor_id :: string
  ra_spiffe_id :: string
  ra_identity_revision :: string
  ra_idempotency_key :: string
  ra_reason :: string
  ra_prior_dead_lettered_at :: gotime
  ra_attempts_at_action :: int
  ra_last_error_at_action :: string
  ra_requested_at :: gotime
  ra_available_at :: gotime

record delivery_db =
  dd_outbox :: outbox_table
  dd_actions :: "replay_action list"

section \<open>Reading dead letters\<close>

definition dead_lettered :: "outbox_row \<Rightarrow> bool" where
  "dead_lettered r \<longleftrightarrow> ob_published_at r = None \<and> ob_dead_lettered_at r \<noteq> None"

definition tenant_dead_letter :: "string \<Rightarrow> outbox_row \<Rightarrow> bool" where
  "tenant_dead_letter tenantID r \<longleftrightarrow> oe_TenantID (ob_event r) = tenantID \<and> dead_lettered r"

definition entry_of :: "outbox_row \<Rightarrow> dead_entry" where
  "entry_of r =
     \<lparr>en_Sequence = ob_sequence r, en_EventID = oe_ID (ob_event r), en_AggregateType = oe_AggregateType (ob_event r),
      en_AggregateID = oe_AggregateID (ob_event r), en_EventType = oe_Type (ob_event r),
      en_OccurredAt = oe_OccurredAt (ob_event r), en_Attempts = ob_attempts r,
      en_DeadLetteredAt = (case ob_dead_lettered_at r of None \<Rightarrow> 0 | Some t \<Rightarrow> t)\<rparr>"

definition PGD_List ::
  "db_faults \<Rightarrow> string \<Rightarrow> int \<Rightarrow> int \<Rightarrow> delivery_db \<Rightarrow> dead_letter_error + dead_entry list" where
  "PGD_List f tenantID beforeSequence limit db =
     (if tenantID = '''' \<or> beforeSequence < 0 \<or> limit \<le> 0 \<or> 100 < limit then Inl ErrIncompleteCommand
      else if f 0 \<noteq> CallOK \<or> f 1 \<noteq> CallOK then Inl ErrDeadLetterDatabase
      else Inr (map entry_of (take (nat limit)
             (filter (\<lambda>r. tenant_dead_letter tenantID r \<and> (beforeSequence = 0 \<or> ob_sequence r < beforeSequence))
                (sort_key (\<lambda>r. - ob_sequence r) (dd_outbox db))))))"

definition PGD_Get :: "db_faults \<Rightarrow> string \<Rightarrow> string \<Rightarrow> delivery_db \<Rightarrow> dead_letter_error + dead_entry" where
  "PGD_Get f tenantID eventID db =
     (if tenantID = '''' \<or> eventID = '''' then Inl ErrIncompleteCommand
      else if f 0 \<noteq> CallOK then Inl ErrDeadLetterDatabase
      else case find (\<lambda>r. tenant_dead_letter tenantID r \<and> oe_ID (ob_event r) = eventID) (dd_outbox db) of
        None \<Rightarrow> Inl ErrNoDeadLetter
      | Some r \<Rightarrow> Inr (entry_of r))"

section \<open>Replay\<close>

definition validateReplayCommand :: "replay_command \<Rightarrow> bool" where
  "validateReplayCommand c \<longleftrightarrow>
     rp_ActionID c \<noteq> '''' \<and> rp_TenantID c \<noteq> '''' \<and> rp_EventID c \<noteq> '''' \<and> rp_ActorID c \<noteq> '''' \<and>
     rp_SPIFFEID c \<noteq> '''' \<and> rp_IdentityRevision c \<noteq> '''' \<and> rp_IdempotencyKey c \<noteq> '''' \<and> rp_Reason c \<noteq> ''''"

definition same_key :: "replay_command \<Rightarrow> replay_action \<Rightarrow> bool" where
  "same_key c a \<longleftrightarrow>
     ra_tenant_id a = rp_TenantID c \<and> ra_actor_id a = rp_ActorID c \<and> ra_idempotency_key a = rp_IdempotencyKey c"

definition findReplay :: "replay_command \<Rightarrow> replay_action list \<Rightarrow> dead_letter_error + replay_result option" where
  "findReplay c actions =
     (case find (same_key c) actions of
        None \<Rightarrow> Inr None
      | Some a \<Rightarrow>
          if ra_event_id a \<noteq> rp_EventID c \<or> ra_reason a \<noteq> rp_Reason c then Inl ErrReplayConflict
          else Inr (Some \<lparr>rr_ActionID = ra_action_id a, rr_EventID = ra_event_id a, rr_RequestedAt = ra_requested_at a,
                          rr_AvailableAt = ra_available_at a, rr_Replayed = False\<rparr>))"

definition lockDeadLetteredEvent :: "replay_command \<Rightarrow> outbox_table \<Rightarrow> outbox_row option" where
  "lockDeadLetteredEvent c rows =
     find (\<lambda>r. tenant_dead_letter (rp_TenantID c) r \<and> oe_ID (ob_event r) = rp_EventID c) rows"

definition audit_action :: "gotime \<Rightarrow> replay_command \<Rightarrow> outbox_row \<Rightarrow> replay_action" where
  "audit_action now c r =
     \<lparr>ra_action_id = rp_ActionID c, ra_tenant_id = rp_TenantID c, ra_outbox_sequence = ob_sequence r,
      ra_event_id = oe_ID (ob_event r), ra_actor_id = rp_ActorID c, ra_spiffe_id = rp_SPIFFEID c,
      ra_identity_revision = rp_IdentityRevision c, ra_idempotency_key = rp_IdempotencyKey c, ra_reason = rp_Reason c,
      ra_prior_dead_lettered_at = (case ob_dead_lettered_at r of None \<Rightarrow> 0 | Some t \<Rightarrow> t),
      ra_attempts_at_action = ob_attempts r, ra_last_error_at_action = COALESCE_empty (ob_last_error r),
      ra_requested_at = now, ra_available_at = now\<rparr>"

text \<open>The constraints of the audit table.\<close>

definition action_admitted :: "replay_action \<Rightarrow> replay_action list \<Rightarrow> bool" where
  "action_admitted a actions \<longleftrightarrow>
     ra_action_id a \<notin> set (map ra_action_id actions) \<and>
     0 \<le> ra_attempts_at_action a \<and>
     char_length_between 1 512 (ra_reason a) \<and> char_length_between 1 128 (ra_idempotency_key a) \<and>
     (ra_tenant_id a, ra_actor_id a, ra_idempotency_key a)
       \<notin> set (map (\<lambda>b. (ra_tenant_id b, ra_actor_id b, ra_idempotency_key b)) actions)"

definition requeued_row :: "gotime \<Rightarrow> outbox_row \<Rightarrow> outbox_row" where
  "requeued_row availableAt r =
     r\<lparr>ob_dead_lettered_at := None, ob_lease_owner := None, ob_lease_expires_at := None, ob_attempts := 0,
       ob_available_at := availableAt\<rparr>"

definition PGD_Replay ::
  "db_faults \<Rightarrow> gotime \<Rightarrow> replay_command \<Rightarrow> delivery_db \<Rightarrow> (dead_letter_error + replay_result) \<times> delivery_db" where
  "PGD_Replay f now c db =
     (if \<not> validateReplayCommand c then (Inl ErrIncompleteCommand, db)
      else if f 0 \<noteq> CallOK \<or> f 1 \<noteq> CallOK \<or> f 2 \<noteq> CallOK then (Inl ErrDeadLetterDatabase, db)
      else case findReplay c (dd_actions db) of
        Inl e \<Rightarrow> (Inl e, db)
      | Inr (Some result) \<Rightarrow>
          if f 3 \<noteq> CallOK then (Inl ErrDeadLetterDatabase, db) else (Inr result, db)
      | Inr None \<Rightarrow>
          if f 3 \<noteq> CallOK then (Inl ErrDeadLetterDatabase, db)
          else case lockDeadLetteredEvent c (dd_outbox db) of
            None \<Rightarrow> (Inl ErrNoDeadLetter, db)
          | Some r \<Rightarrow>
              let a = audit_action now c r;
                  p = (\<lambda>q. ob_sequence q = ob_sequence r \<and> dead_lettered q)
              in if f 4 \<noteq> CallOK \<or> \<not> action_admitted a (dd_actions db) then (Inl ErrDeadLetterDatabase, db)
                 else if f 5 \<noteq> CallOK \<or> f 6 \<noteq> CallOK then (Inl ErrDeadLetterDatabase, db)
                 else if length (filter p (dd_outbox db)) \<noteq> 1 then (Inl ErrNoDeadLetter, db)
                 else (case sql_write (f 7) db (Some ((),
                           \<lparr>dd_outbox = update_rows p (requeued_row (ra_available_at a)) (dd_outbox db),
                            dd_actions = dd_actions db @ [a]\<rparr>)) of
                         (None, d) \<Rightarrow> (Inl ErrDeadLetterDatabase, d)
                       | (Some _, d) \<Rightarrow>
                           (Inr \<lparr>rr_ActionID = rp_ActionID c, rr_EventID = oe_ID (ob_event r),
                                 rr_RequestedAt = ra_requested_at a, rr_AvailableAt = ra_available_at a,
                                 rr_Replayed = True\<rparr>, d)))"

section \<open>The operator service\<close>

definition OperatorRole :: string where
  "OperatorRole = ''outbox-operator''"

definition ReadScope :: string where
  "ReadScope = ''outbox:dead-letter:read''"

definition ReplayScope :: string where
  "ReplayScope = ''outbox:dead-letter:replay''"

fun containsExact :: "string list \<Rightarrow> string \<Rightarrow> bool" where
  "containsExact [] expected = False"
| "containsExact (value # values) expected = (value = expected \<or> containsExact values expected)"

definition dead_letter_authorize :: "auth_context \<Rightarrow> string \<Rightarrow> bool" where
  "dead_letter_authorize actor scope \<longleftrightarrow>
     AuthContext_Validate actor \<and> ac_SPIFFEID actor \<noteq> '''' \<and> ac_IdentityRevision actor \<noteq> '''' \<and>
     containsExact (ac_Roles actor) OperatorRole \<and> containsExact (ac_AllowedScopes actor) scope"

definition validateEventID :: "string \<Rightarrow> bool" where
  "validateEventID eventID \<longleftrightarrow>
     \<not> (eventID = '''' \<or> 256 < length eventID \<or> TrimSpace eventID \<noteq> eventID \<or>
        ContainsAny eventID [CHR ''/'', CHR 0x5C, CHR 0x00, CHR 0x0D, CHR 0x0A, CHR 0x09])"

record 'w dead_letter_repository =
  dr_List :: "string \<Rightarrow> int \<Rightarrow> int \<Rightarrow> 'w \<Rightarrow> dead_letter_error + dead_entry list"
  dr_Get :: "string \<Rightarrow> string \<Rightarrow> 'w \<Rightarrow> dead_letter_error + dead_entry"
  dr_Replay :: "replay_command \<Rightarrow> 'w \<Rightarrow> (dead_letter_error + replay_result) \<times> 'w"

definition DL_List ::
  "'w dead_letter_repository \<Rightarrow> auth_context \<Rightarrow> int \<Rightarrow> int \<Rightarrow> 'w \<Rightarrow> dead_letter_error + dead_entry list" where
  "DL_List repo actor beforeSequence limit w =
     (if \<not> dead_letter_authorize actor ReadScope then Inl ErrOperatorDenied
      else if beforeSequence < 0 \<or> limit \<le> 0 \<or> 100 < limit then Inl ErrOperatorInput
      else dr_List repo (ac_TenantID actor) beforeSequence limit w)"

definition DL_Get ::
  "'w dead_letter_repository \<Rightarrow> auth_context \<Rightarrow> string \<Rightarrow> 'w \<Rightarrow> dead_letter_error + dead_entry" where
  "DL_Get repo actor eventID w =
     (if \<not> dead_letter_authorize actor ReadScope then Inl ErrOperatorDenied
      else if \<not> validateEventID eventID then Inl ErrOperatorInput
      else dr_Get repo (ac_TenantID actor) eventID w)"

definition DL_Replay ::
  "'w dead_letter_repository \<Rightarrow> (string \<Rightarrow> unit + string) \<Rightarrow> auth_context \<Rightarrow> string \<Rightarrow> string \<Rightarrow> string
   \<Rightarrow> 'w \<Rightarrow> (dead_letter_error + replay_result) \<times> 'w" where
  "DL_Replay repo newID actor eventID idempotencyKey reason w =
     (if \<not> dead_letter_authorize actor ReplayScope then (Inl ErrOperatorDenied, w)
      else if \<not> validateEventID eventID then (Inl ErrOperatorInput, w)
      else let idempotencyKey = TrimSpace idempotencyKey; reason = TrimSpace reason
           in if idempotencyKey = '''' \<or> 128 < length idempotencyKey \<or> reason = '''' \<or> 512 < length reason
              then (Inl ErrOperatorInput, w)
              else case newID ''dead-letter-action'' of
                Inl _ \<Rightarrow> (Inl ErrActionID, w)
              | Inr actionID \<Rightarrow>
                  dr_Replay repo
                    \<lparr>rp_ActionID = actionID, rp_TenantID = ac_TenantID actor, rp_EventID = eventID,
                     rp_ActorID = ac_SubjectID actor, rp_SPIFFEID = ac_SPIFFEID actor,
                     rp_IdentityRevision = ac_IdentityRevision actor, rp_IdempotencyKey = idempotencyKey,
                     rp_Reason = reason\<rparr> w)"

definition pg_dead_letters :: "db_faults \<Rightarrow> gotime \<Rightarrow> delivery_db dead_letter_repository" where
  "pg_dead_letters f now = \<lparr>dr_List = PGD_List f, dr_Get = PGD_Get f, dr_Replay = PGD_Replay f now\<rparr>"

section \<open>One replay\<close>

definition answered :: "replay_action \<Rightarrow> bool \<Rightarrow> replay_result" where
  "answered a replayed =
     \<lparr>rr_ActionID = ra_action_id a, rr_EventID = ra_event_id a, rr_RequestedAt = ra_requested_at a,
      rr_AvailableAt = ra_available_at a, rr_Replayed = replayed\<rparr>"

text \<open>The effect of a replay that writes: one audit row and one requeued event.\<close>

definition replayed_in :: "gotime \<Rightarrow> replay_command \<Rightarrow> outbox_row \<Rightarrow> delivery_db \<Rightarrow> delivery_db \<Rightarrow> bool" where
  "replayed_in now c r db db' \<longleftrightarrow>
     validateReplayCommand c \<and> find (same_key c) (dd_actions db) = None \<and>
     r \<in> set (dd_outbox db) \<and> tenant_dead_letter (rp_TenantID c) r \<and> oe_ID (ob_event r) = rp_EventID c \<and>
     action_admitted (audit_action now c r) (dd_actions db) \<and>
     dd_actions db' = dd_actions db @ [audit_action now c r] \<and>
     dd_outbox db' = update_rows (\<lambda>q. ob_sequence q = ob_sequence r \<and> dead_lettered q) (requeued_row now) (dd_outbox db)"

lemma audit_action_sel [simp]:
  "ra_available_at (audit_action now c r) = now" "ra_requested_at (audit_action now c r) = now"
  "ra_event_id (audit_action now c r) = oe_ID (ob_event r)" "ra_action_id (audit_action now c r) = rp_ActionID c"
  "ra_reason (audit_action now c r) = rp_Reason c"
  by (simp_all add: audit_action_def)

lemma audit_action_key [simp]: "same_key c (audit_action now c r)"
  by (simp add: same_key_def audit_action_def)

lemma findReplay_cases:
  "findReplay c actions = Inr None \<longleftrightarrow> find (same_key c) actions = None"
  "findReplay c actions = Inr (Some res) \<longleftrightarrow>
     (\<exists>a. find (same_key c) actions = Some a \<and> ra_event_id a = rp_EventID c \<and> ra_reason a = rp_Reason c \<and> res = answered a False)"
  "findReplay c actions = Inl e \<Longrightarrow> e = ErrReplayConflict \<and>
     (\<exists>a. find (same_key c) actions = Some a \<and> (ra_event_id a \<noteq> rp_EventID c \<or> ra_reason a \<noteq> rp_Reason c))"
  by (auto simp: findReplay_def answered_def split: option.splits if_splits)

lemma lockDeadLetteredEvent_Some:
  "lockDeadLetteredEvent c rows = Some r \<Longrightarrow>
   r \<in> set rows \<and> tenant_dead_letter (rp_TenantID c) r \<and> oe_ID (ob_event r) = rp_EventID c"
  unfolding lockDeadLetteredEvent_def find_Some_iff by auto

lemma PGD_Replay_cases:
  assumes "PGD_Replay f now c db = (x, db')"
  obtains (kept) e where "db' = db" and "x = Inl e"
  | (repeated) a where "db' = db" and "find (same_key c) (dd_actions db) = Some a" and "ra_event_id a = rp_EventID c"
      and "ra_reason a = rp_Reason c" and "x = Inr (answered a False)"
  | (applied) r where "replayed_in now c r db db'"
      and "x = Inl ErrDeadLetterDatabase \<or> x = Inr (answered (audit_action now c r) True)"
proof (cases "findReplay c (dd_actions db)")
  case (Inl e)
  then show ?thesis using assms kept by (auto simp: PGD_Replay_def split: if_splits)
next
  case (Inr found)
  show ?thesis
  proof (cases found)
    case (Some res)
    then show ?thesis
      using assms Inr kept repeated findReplay_cases(2) [of c "dd_actions db" res]
      by (auto simp: PGD_Replay_def split: if_splits)
  next
    case None
    show ?thesis
    proof (cases "lockDeadLetteredEvent c (dd_outbox db)")
      case None
      then show ?thesis using assms Inr \<open>found = None\<close> kept by (auto simp: PGD_Replay_def split: if_splits)
    next
      case (Some r)
      note r = lockDeadLetteredEvent_Some [OF Some]
      have n: "find (same_key c) (dd_actions db) = None" using Inr \<open>found = None\<close> findReplay_cases(1) by simp
      have "db' = db \<and> (\<exists>e. x = Inl e) \<or> replayed_in now c r db db'
          \<and> (x = Inl ErrDeadLetterDatabase \<or> x = Inr (answered (audit_action now c r) True))"
        using assms Inr \<open>found = None\<close> Some r n
        by (auto simp: PGD_Replay_def replayed_in_def sql_write_def Let_def answered_def
            split: if_splits db_call.splits)
      then show ?thesis using kept applied by blast
    qed
  qed
qed

lemma PGD_Replay_keyed:
  assumes "find (same_key c) (dd_actions db) = Some a"
  shows "snd (PGD_Replay f now c db) = db"
    and "fst (PGD_Replay f now c db) \<in>
      {Inl ErrIncompleteCommand, Inl ErrDeadLetterDatabase,
       if ra_event_id a = rp_EventID c \<and> ra_reason a = rp_Reason c then Inr (answered a False) else Inl ErrReplayConflict}"
    and "validateReplayCommand c \<Longrightarrow> (\<And>k. f k = CallOK) \<Longrightarrow> fst (PGD_Replay f now c db) =
      (if ra_event_id a = rp_EventID c \<and> ra_reason a = rp_Reason c then Inr (answered a False) else Inl ErrReplayConflict)"
  using assms by (auto simp: PGD_Replay_def findReplay_def answered_def)

lemma find_append: "find P xs = Some a \<Longrightarrow> find P (xs @ ys) = Some a"
  by (induction xs) auto

lemma find_append_None: "find P xs = None \<Longrightarrow> P a \<Longrightarrow> find P (xs @ [a]) = Some a"
  by (induction xs) (auto split: if_splits)

section \<open>The contract of a replay ledger\<close>

definition same_request :: "replay_command \<Rightarrow> replay_command \<Rightarrow> bool" where
  "same_request c c' \<longleftrightarrow>
     rp_TenantID c' = rp_TenantID c \<and> rp_ActorID c' = rp_ActorID c \<and> rp_IdempotencyKey c' = rp_IdempotencyKey c"

lemma same_request_key: "same_request c c' \<Longrightarrow> same_key c' = same_key c"
  by (auto simp: same_request_def same_key_def)

locale replay_ledger =
  fixes replay :: "'e \<Rightarrow> replay_command \<Rightarrow> 'w \<Rightarrow> (dead_letter_error + replay_result) \<times> 'w"
    and actions :: "'w \<Rightarrow> replay_action list"
  assumes appends: "replay e c w = (x, w') \<Longrightarrow> \<exists>new. actions w' = actions w @ new"
    and wrote: "replay e c w = (x, w') \<Longrightarrow> w' \<noteq> w \<or> x = Inr res \<Longrightarrow>
      \<exists>a. find (same_key c) (actions w') = Some a \<and> ra_event_id a = rp_EventID c \<and> ra_reason a = rp_Reason c
          \<and> (x = Inr res \<longrightarrow> (\<exists>b. res = answered a b))"
    and keyed: "find (same_key c) (actions w) = Some a \<Longrightarrow> snd (replay e c w) = w"
    and keyed_answer: "find (same_key c) (actions w) = Some a \<Longrightarrow> fst (replay e c w) \<in>
      {Inl ErrIncompleteCommand, Inl ErrDeadLetterDatabase,
       if ra_event_id a = rp_EventID c \<and> ra_reason a = rp_Reason c then Inr (answered a False) else Inl ErrReplayConflict}"
begin

text \<open>
  Once a replay has taken effect, repeating it never writes again, however many actions were
  appended in between; a repetition that gets through returns the recorded action, and one for
  another event or reason is a conflict.
\<close>

lemma retried:
  assumes "replay e c w = (x, w1)" and "w1 \<noteq> w \<or> x = Inr res"
    and "actions w2 = actions w1 @ new" and "same_request c c'"
  shows "\<exists>a. find (same_key c') (actions w2) = Some a \<and> ra_event_id a = rp_EventID c \<and> ra_reason a = rp_Reason c
      \<and> snd (replay e' c' w2) = w2
      \<and> (x = Inr res \<longrightarrow> answered a False = res\<lparr>rr_Replayed := False\<rparr>)
      \<and> fst (replay e' c' w2) \<in> {Inl ErrIncompleteCommand, Inl ErrDeadLetterDatabase,
           if rp_EventID c' = rp_EventID c \<and> rp_Reason c' = rp_Reason c then Inr (answered a False)
           else Inl ErrReplayConflict}"
proof -
  obtain a where a: "find (same_key c) (actions w1) = Some a" "ra_event_id a = rp_EventID c" "ra_reason a = rp_Reason c"
    "x = Inr res \<longrightarrow> (\<exists>b. res = answered a b)"
    using wrote [OF assms(1,2)] by blast
  have f: "find (same_key c') (actions w2) = Some a"
    using find_append [OF a(1)] assms(3) same_request_key [OF assms(4)] by simp
  moreover have "(ra_event_id a = rp_EventID c' \<and> ra_reason a = rp_Reason c')
      = (rp_EventID c' = rp_EventID c \<and> rp_Reason c' = rp_Reason c)" using a(2,3) by auto
  moreover have "x = Inr res \<longrightarrow> answered a False = res\<lparr>rr_Replayed := False\<rparr>"
    using a(4) by (auto simp: answered_def)
  ultimately show ?thesis using keyed [OF f, of e'] keyed_answer [OF f, of e'] a(2,3) by auto
qed

end

interpretation audited: replay_ledger "\<lambda>(f, now). PGD_Replay f now" dd_actions
proof (unfold_locales, goal_cases)
  case (1 e c w x w')
  obtain f now where "e = (f, now)" by (cases e)
  with 1 have "PGD_Replay f now c w = (x, w')" by simp
  then show ?case by (cases rule: PGD_Replay_cases) (auto simp: replayed_in_def)
next
  case (2 e c w x w' res)
  obtain f now where "e = (f, now)" by (cases e)
  with 2(1) have "PGD_Replay f now c w = (x, w')" by simp
  then show ?case
  proof (cases rule: PGD_Replay_cases)
    case (applied r)
    then have "find (same_key c) (dd_actions w') = Some (audit_action now c r)"
      by (auto simp: replayed_in_def intro: find_append_None)
    then show ?thesis using applied by (auto simp: replayed_in_def answered_def)
  qed (use 2(2) in \<open>auto simp: answered_def\<close>)
next
  case (3 c w a e)
  then show ?case using PGD_Replay_keyed(1) by (cases e) simp
next
  case (4 c w a e)
  then show ?case using PGD_Replay_keyed(2) by (cases e) simp
qed

section \<open>Runs over the delivery tables\<close>

text \<open>
  Calls of all dispatchers and operators, with the insertions of the workflow transactions, in any
  order.  An insertion draws a fresh sequence number; an event whose identifier is taken is refused.
\<close>

datatype delivery_op =
    OpInsert int gotime outbox_event
  | OpClaim db_faults "int \<Rightarrow> bool" "outbox_record list \<Rightarrow> outbox_record list" string int gotime duration
  | OpPublished db_faults int string gotime
  | OpRetry db_faults int string gotime gotime string
  | OpDeadLetter db_faults int string gotime string
  | OpReplay db_faults gotime replay_command

definition insert_outbox_row :: "int \<Rightarrow> gotime \<Rightarrow> outbox_event \<Rightarrow> outbox_table \<Rightarrow> outbox_table" where
  "insert_outbox_row sequence now event rows =
     (if 0 < sequence \<and> sequence \<notin> set (map ob_sequence rows) \<and> oe_ID event \<notin> set (map (oe_ID \<circ> ob_event) rows)
      then rows @ [new_outbox_row sequence now event] else rows)"

fun delivery_exec :: "delivery_op \<Rightarrow> delivery_db \<Rightarrow> delivery_db" where
  "delivery_exec (OpInsert q now event) db = db\<lparr>dd_outbox := insert_outbox_row q now event (dd_outbox db)\<rparr>"
| "delivery_exec (OpClaim f locked arrange owner limit now lease) db =
     db\<lparr>dd_outbox := snd (PGO_Claim f locked arrange owner limit now lease (dd_outbox db))\<rparr>"
| "delivery_exec (OpPublished f q owner at) db = db\<lparr>dd_outbox := snd (PGO_MarkPublished f q owner at (dd_outbox db))\<rparr>"
| "delivery_exec (OpRetry f q owner at t e) db = db\<lparr>dd_outbox := snd (PGO_Retry f q owner at t e (dd_outbox db))\<rparr>"
| "delivery_exec (OpDeadLetter f q owner at e) db = db\<lparr>dd_outbox := snd (PGO_DeadLetter f q owner at e (dd_outbox db))\<rparr>"
| "delivery_exec (OpReplay f now c) db = snd (PGD_Replay f now c db)"

lemma delivery_exec_actions: "\<exists>new. dd_actions (delivery_exec opn db) = dd_actions db @ new"
proof (cases opn)
  case (OpReplay f now c)
  then show ?thesis using audited.appends [of "(f, now)" c db] by (cases "PGD_Replay f now c db") auto
qed auto

lemma delivery_run_actions: "\<exists>new. dd_actions (fold delivery_exec ops db) = dd_actions db @ new"
proof (induction ops arbitrary: db)
  case (Cons opn ops)
  obtain a where "dd_actions (delivery_exec opn db) = dd_actions db @ a" using delivery_exec_actions by blast
  moreover obtain b where "dd_actions (fold delivery_exec ops (delivery_exec opn db)) = dd_actions (delivery_exec opn db) @ b"
    using Cons by blast
  ultimately show ?case by simp
qed simp

text \<open>
  C26. Replaying a dead letter is idempotent.  Once a replay request took effect (it was answered, or
  it was committed and its answer lost), the same request by the same actor under the same key never
  changes the database again, whatever dispatchers and operators did in between.  If it gets through
  to the database it is answered with the recorded action, marked as not replayed now; under the same
  key another event or reason is refused as a conflict.
\<close>

theorem replay_idempotent:
  assumes "PGD_Replay f now c db = (x, db1)" and "db1 \<noteq> db \<or> x = Inr res"
    and "db2 = fold delivery_exec ops db1"
    and "rp_TenantID c' = rp_TenantID c" and "rp_ActorID c' = rp_ActorID c"
    and "rp_IdempotencyKey c' = rp_IdempotencyKey c"
  shows "snd (PGD_Replay g now' c' db2) = db2
    \<and> (rp_EventID c' \<noteq> rp_EventID c \<or> rp_Reason c' \<noteq> rp_Reason c \<longrightarrow>
         fst (PGD_Replay g now' c' db2) \<in> {Inl ErrIncompleteCommand, Inl ErrDeadLetterDatabase, Inl ErrReplayConflict})
    \<and> (rp_EventID c' = rp_EventID c \<and> rp_Reason c' = rp_Reason c \<and> validateReplayCommand c' \<and> (\<forall>k. g k = CallOK) \<longrightarrow>
         (\<exists>res'. fst (PGD_Replay g now' c' db2) = Inr res' \<and> \<not> rr_Replayed res'
            \<and> (x = Inr res \<longrightarrow> res' = res\<lparr>rr_Replayed := False\<rparr>)))"
proof -
  obtain new where n: "dd_actions db2 = dd_actions db1 @ new" using delivery_run_actions assms(3) by blast
  have s: "same_request c c'" using assms(4-6) by (simp add: same_request_def)
  obtain a where a: "find (same_key c') (dd_actions db2) = Some a" "ra_event_id a = rp_EventID c" "ra_reason a = rp_Reason c"
    "snd (PGD_Replay g now' c' db2) = db2" "x = Inr res \<longrightarrow> answered a False = res\<lparr>rr_Replayed := False\<rparr>"
    "fst (PGD_Replay g now' c' db2) \<in> {Inl ErrIncompleteCommand, Inl ErrDeadLetterDatabase,
       if rp_EventID c' = rp_EventID c \<and> rp_Reason c' = rp_Reason c then Inr (answered a False) else Inl ErrReplayConflict}"
    using audited.retried [of "(f, now)" c db x db1 res db2 new c' "(g, now')"] assms(1,2) n s by auto
  then show ?thesis using PGD_Replay_keyed(3) [OF a(1), of g now'] by (auto simp: answered_def)
qed

lemma containsExact_set: "containsExact xs v \<longleftrightarrow> v \<in> set xs"
  by (induction xs) auto

lemma update_rows_single:
  assumes "outbox_ok rows" and "r \<in> set rows" and "dead_lettered r"
  shows "update_rows (\<lambda>q. ob_sequence q = ob_sequence r \<and> dead_lettered q) u rows = map (\<lambda>q. if q = r then u r else q) rows"
  using assms(2,3) outbox_distinct [OF assms(1) _ assms(2)] unfolding update_rows_def by auto

text \<open>
  C27. A dead letter leaves its state only by an authorised and audited replay.  If an operator's
  replay call changes the database, the caller is authenticated, has a workload identity, the
  operator role and the replay scope; the event belongs to the caller's tenant and was dead-lettered;
  exactly that row is requeued with a fresh attempt budget; and exactly one audit row was appended
  that names the caller, the reason and the delivery state before the replay.
\<close>

theorem replay_authorised_and_audited:
  assumes "outbox_ok (dd_outbox db)"
    and "DL_Replay (pg_dead_letters f now) newID actor eventID key reason db = (x, db')" and "db' \<noteq> db"
  shows "AuthContext_Validate actor \<and> ac_SPIFFEID actor \<noteq> '''' \<and> ac_IdentityRevision actor \<noteq> ''''
    \<and> ''outbox-operator'' \<in> set (ac_Roles actor) \<and> ''outbox:dead-letter:replay'' \<in> set (ac_AllowedScopes actor)
    \<and> (\<exists>r a. r \<in> set (dd_outbox db) \<and> oe_TenantID (ob_event r) = ac_TenantID actor \<and> oe_ID (ob_event r) = eventID
          \<and> ob_dead_lettered_at r = Some (ra_prior_dead_lettered_at a)
          \<and> dd_outbox db' = map (\<lambda>q. if q = r then requeued_row now r else q) (dd_outbox db)
          \<and> dd_actions db' = dd_actions db @ [a]
          \<and> ra_outbox_sequence a = ob_sequence r \<and> ra_tenant_id a = ac_TenantID actor
          \<and> ra_actor_id a = ac_SubjectID actor \<and> ra_spiffe_id a = ac_SPIFFEID actor
          \<and> ra_reason a = TrimSpace reason \<and> ra_attempts_at_action a = ob_attempts r
          \<and> ra_last_error_at_action a = COALESCE_empty (ob_last_error r))"
proof -
  obtain actionID where c: "dead_letter_authorize actor ReplayScope"
    "PGD_Replay f now \<lparr>rp_ActionID = actionID, rp_TenantID = ac_TenantID actor, rp_EventID = eventID,
       rp_ActorID = ac_SubjectID actor, rp_SPIFFEID = ac_SPIFFEID actor, rp_IdentityRevision = ac_IdentityRevision actor,
       rp_IdempotencyKey = TrimSpace key, rp_Reason = TrimSpace reason\<rparr> db = (x, db')"
    (is "PGD_Replay f now ?c db = _")
    using assms(2,3) by (auto simp: DL_Replay_def pg_dead_letters_def Let_def split: if_splits sum.splits)
  from c(2) obtain r where r: "replayed_in now ?c r db db'"
    using assms(3) by (cases rule: PGD_Replay_cases) auto
  then have d: "r \<in> set (dd_outbox db)" "dead_lettered r" "oe_TenantID (ob_event r) = ac_TenantID actor"
    "oe_ID (ob_event r) = eventID" "dd_actions db' = dd_actions db @ [audit_action now ?c r]"
    by (simp_all add: replayed_in_def tenant_dead_letter_def)
  have "dd_outbox db' = map (\<lambda>q. if q = r then requeued_row now r else q) (dd_outbox db)"
    using r update_rows_single [OF assms(1) d(1,2)] by (simp add: replayed_in_def)
  moreover have "ob_dead_lettered_at r = Some (ra_prior_dead_lettered_at (audit_action now ?c r))"
    using d(2) by (auto simp: dead_lettered_def audit_action_def)
  ultimately show ?thesis
    using c(1) d unfolding dead_letter_authorize_def containsExact_set OperatorRole_def ReplayScope_def
    by (intro conjI exI [of _ r] exI [of _ "audit_action now ?c r"]) (simp_all add: audit_action_def)
qed

section \<open>Paging\<close>

definition dead_letters_of :: "string \<Rightarrow> delivery_db \<Rightarrow> outbox_row list" where
  "dead_letters_of tenantID db = filter (tenant_dead_letter tenantID) (sort_key (\<lambda>r. - ob_sequence r) (dd_outbox db))"

lemma filter_below:
  fixes f :: "'a \<Rightarrow> 'b::linorder"
  assumes "sorted_wrt (\<lambda>x y. f y < f x) xs" and "i < length xs"
  shows "filter (\<lambda>x. f x < f (xs ! i)) xs = drop (Suc i) xs"
proof -
  have "\<not> f x < f (xs ! i)" if x: "x \<in> set (take (Suc i) xs)" for x
  proof -
    obtain j where j: "j \<le> i" "x = xs ! j" using x by (auto simp: in_set_conv_nth less_Suc_eq_le)
    then show ?thesis
      using sorted_wrt_nth_less [OF assms(1), of j i] assms(2) by (cases "j = i") auto
  qed
  moreover have "f x < f (xs ! i)" if x: "x \<in> set (drop (Suc i) xs)" for x
  proof -
    obtain j where "j < length xs - Suc i" "x = xs ! (Suc i + j)" using x by (auto simp: in_set_conv_nth)
    then show ?thesis using sorted_wrt_nth_less [OF assms(1), of i "Suc i + j"] by auto
  qed
  ultimately have "filter (\<lambda>x. f x < f (xs ! i)) (take (Suc i) xs @ drop (Suc i) xs) = drop (Suc i) xs"
    unfolding filter_append by (simp add: filter_id_conv)
  then show ?thesis by simp
qed

lemma dead_letters_sorted:
  assumes "outbox_ok (dd_outbox db)"
  shows "sorted_wrt (\<lambda>x y. ob_sequence y < ob_sequence x) (dead_letters_of t db)"
proof -
  let ?k = "\<lambda>r. - ob_sequence r"
  have "mset (map ?k (sort_key ?k (dd_outbox db))) = mset (map ?k (dd_outbox db))" by simp
  moreover have "distinct (map ?k (dd_outbox db))"
    using assms by (auto simp: outbox_ok_def distinct_map inj_on_def)
  ultimately have "distinct (map ?k (sort_key ?k (dd_outbox db)))" by (metis mset_eq_imp_distinct_iff)
  then have "sorted_wrt (<) (map ?k (sort_key ?k (dd_outbox db)))" by (simp add: strict_sorted_iff)
  then have "sorted_wrt (\<lambda>x y. ob_sequence y < ob_sequence x) (sort_key ?k (dd_outbox db))"
    by (simp add: sorted_wrt_map)
  then show ?thesis unfolding dead_letters_of_def by (rule sorted_wrt_filter)
qed

text \<open>
  The dead-letter listing is tenant-scoped and pages without gaps or repetitions: with the
  sequence number of the last entry of one page as the cursor, the next page continues exactly where
  that page ended, newest first, and the entries are all and only the caller's dead letters.
\<close>

lemma dead_letter_paging:
  assumes "outbox_ok (dd_outbox db)" and "tenantID \<noteq> ''''" and "0 < limit" and "limit \<le> 100"
    and "entries = map entry_of (dead_letters_of tenantID db)" and "i \<le> length entries"
  shows "PGD_List (\<lambda>_. CallOK) tenantID (if i = 0 then 0 else en_Sequence (entries ! (i - 1))) limit db
           = Inr (take (nat limit) (drop i entries))
    \<and> set entries = entry_of ` {r \<in> set (dd_outbox db). oe_TenantID (ob_event r) = tenantID \<and> dead_lettered r}
    \<and> sorted_wrt (\<lambda>x y. en_Sequence y < en_Sequence x) entries"
proof -
  let ?d = "dead_letters_of tenantID db"
  have srt: "sorted_wrt (\<lambda>x y. ob_sequence y < ob_sequence x) ?d" by (rule dead_letters_sorted [OF assms(1)])
  have es: "en_Sequence (entry_of r) = ob_sequence r" for r by (simp add: entry_of_def)
  have page: "PGD_List (\<lambda>_. CallOK) tenantID b limit db
      = Inr (map entry_of (take (nat limit) (filter (\<lambda>r. b = 0 \<or> ob_sequence r < b) ?d)))" if "0 \<le> b" for b
    using assms(2-4) that by (simp add: PGD_List_def dead_letters_of_def conj_commute)
  have "PGD_List (\<lambda>_. CallOK) tenantID (if i = 0 then 0 else en_Sequence (entries ! (i - 1))) limit db
      = Inr (take (nat limit) (drop i entries))"
  proof (cases i)
    case 0
    then show ?thesis using page [of 0] by (simp add: assms(5) take_map)
  next
    case (Suc j)
    then have j: "j < length ?d" using assms(5,6) by simp
    have pos: "0 < ob_sequence (?d ! j)"
      using nth_mem [OF j] assms(1) by (auto simp: dead_letters_of_def outbox_ok_def list_all_iff outbox_row_ok_def)
    then have "filter (\<lambda>r. ob_sequence (?d ! j) = 0 \<or> ob_sequence r < ob_sequence (?d ! j)) ?d = drop i ?d"
      using filter_below [OF srt j] Suc by simp
    then show ?thesis
      using page [of "ob_sequence (?d ! j)"] pos j by (simp add: Suc assms(5) es take_map drop_map)
  qed
  moreover have "set entries = entry_of ` {r \<in> set (dd_outbox db). oe_TenantID (ob_event r) = tenantID \<and> dead_lettered r}"
    by (auto simp: assms(5) dead_letters_of_def tenant_dead_letter_def)
  moreover have "sorted_wrt (\<lambda>x y. en_Sequence y < en_Sequence x) entries"
    using srt by (simp add: assms(5) sorted_wrt_map es)
  ultimately show ?thesis by blast
qed

section \<open>Examples\<close>

definition example_dead :: outbox_row where
  "example_dead = dead_row 6000 ''unavailable'' (new_outbox_row 1 4000 example_outbox_event)"

definition example_letters :: delivery_db where
  "example_letters = \<lparr>dd_outbox = [example_dead], dd_actions = []\<rparr>"

definition example_operator :: auth_context where
  "example_operator =
     \<lparr>ac_SubjectID = ''op-1'', ac_SPIFFEID = ''spiffe://broker/op'', ac_TenantID = ''tenant-a'',
      ac_Roles = [''outbox-operator''], ac_AllowedScopes = [''outbox:dead-letter:read'', ''outbox:dead-letter:replay''],
      ac_DataClearances = [], ac_CredentialClass = ''x509'', ac_AuthenticatedAt = 1000, ac_IdentityRevision = ''rev-1''\<rparr>"

definition example_command :: replay_command where
  "example_command =
     \<lparr>rp_ActionID = ''action-1'', rp_TenantID = ''tenant-a'', rp_EventID = ''event-1'', rp_ActorID = ''op-1'',
      rp_SPIFFEID = ''spiffe://broker/op'', rp_IdentityRevision = ''rev-1'', rp_IdempotencyKey = ''key-1'',
      rp_Reason = ''fixed''\<rparr>"

definition example_replay :: "(dead_letter_error + replay_result) \<times> delivery_db" where
  "example_replay = PGD_Replay (\<lambda>_. CallOK) 9000 example_command example_letters"

lemma example_replay_value:
  "fst example_replay = Inr \<lparr>rr_ActionID = ''action-1'', rr_EventID = ''event-1'', rr_RequestedAt = 9000,
     rr_AvailableAt = 9000, rr_Replayed = True\<rparr>"
  by code_simp

text \<open>The answer of the replay is lost; a dispatcher works on the event before the operator retries.\<close>

definition example_between :: "delivery_op list" where
  "example_between = [OpClaim (\<lambda>_. CallOK) (\<lambda>_. False) (\<lambda>xs. xs) ''worker-1'' 10 10000 9000000,
     OpPublished (\<lambda>_. CallOK) 1 ''worker-1'' 11000]"

definition example_again :: "(dead_letter_error + replay_result) \<times> delivery_db" where
  "example_again = PGD_Replay (\<lambda>_. CallOK) 20000 (example_command\<lparr>rp_ActionID := ''action-2''\<rparr>)
     (fold delivery_exec example_between (snd example_replay))"

theorem replay_idempotent_witness:
  "snd example_again = fold delivery_exec example_between (snd example_replay)
   \<and> fst example_again = Inr \<lparr>rr_ActionID = ''action-1'', rr_EventID = ''event-1'', rr_RequestedAt = 9000,
       rr_AvailableAt = 9000, rr_Replayed = False\<rparr>"
proof -
  have r: "PGD_Replay (\<lambda>_. CallOK) 9000 example_command example_letters
      = (Inr \<lparr>rr_ActionID = ''action-1'', rr_EventID = ''event-1'', rr_RequestedAt = 9000,
           rr_AvailableAt = 9000, rr_Replayed = True\<rparr>, snd example_replay)"
    using example_replay_value by (metis example_replay_def prod.collapse)
  have v: "validateReplayCommand (example_command\<lparr>rp_ActionID := ''action-2''\<rparr>)"
    by (simp add: validateReplayCommand_def example_command_def)
  show ?thesis
    using replay_idempotent [OF r disjI2 [OF refl] refl, of "example_command\<lparr>rp_ActionID := ''action-2''\<rparr>" "\<lambda>_. CallOK" 20000 example_between] v
    by (simp add: example_again_def)
qed

definition example_service_replay :: "(dead_letter_error + replay_result) \<times> delivery_db" where
  "example_service_replay = DL_Replay (pg_dead_letters (\<lambda>_. CallOK) 9000) (\<lambda>_. Inr ''action-1'') example_operator
     ''event-1'' ''key-1'' ''fixed'' example_letters"

lemma example_letters_ok: "outbox_ok (dd_outbox example_letters)"
  by (simp add: example_letters_def outbox_ok_def outbox_row_ok_def example_dead_def dead_row_def new_outbox_row_def
      undelivered_def int32_max_def)

lemma example_operator_sel:
  "ac_TenantID example_operator = ''tenant-a''" "ac_SubjectID example_operator = ''op-1''"
  "ac_SPIFFEID example_operator = ''spiffe://broker/op''" "ac_IdentityRevision example_operator = ''rev-1''"
  by (simp_all add: example_operator_def)

lemma example_authorised: "dead_letter_authorize example_operator ReplayScope"
  by code_simp

lemma example_trimmed:
  "TrimSpace ''event-1'' = ''event-1''" "TrimSpace ''key-1'' = ''key-1''" "TrimSpace ''fixed'' = ''fixed''"
  by (simp_all add: TrimSpace_plain plain_def IsSpace_def)

lemma example_service_replay_eq: "example_service_replay = example_replay"
proof -
  have "validateEventID ''event-1''" by (simp add: validateEventID_def example_trimmed ContainsAny_def)
  then show ?thesis
    by (simp add: example_service_replay_def DL_Replay_def example_authorised example_trimmed pg_dead_letters_def
        example_replay_def example_command_def example_operator_sel)
qed

lemma example_service_replay_writes: "dd_actions (snd example_service_replay) \<noteq> []"
  unfolding example_service_replay_eq by code_simp

theorem replay_authorised_and_audited_witness:
  "\<exists>a. dd_actions (snd example_service_replay) = [a] \<and> ra_actor_id a = ''op-1'' \<and> ra_outbox_sequence a = 1"
proof -
  have e: "DL_Replay (pg_dead_letters (\<lambda>_. CallOK) 9000) (\<lambda>_. Inr ''action-1'') example_operator
      ''event-1'' ''key-1'' ''fixed'' example_letters = (fst example_service_replay, snd example_service_replay)"
    by (simp add: example_service_replay_def)
  have "snd example_service_replay \<noteq> example_letters"
    using example_service_replay_writes by (auto simp: example_letters_def)
  note replay_authorised_and_audited [OF example_letters_ok e this]
  then obtain r a where "r \<in> set (dd_outbox example_letters)" "dd_actions (snd example_service_replay) = dd_actions example_letters @ [a]"
    "ra_outbox_sequence a = ob_sequence r" "ra_actor_id a = ac_SubjectID example_operator" by blast
  then show ?thesis
    by (auto simp: example_letters_def example_operator_def example_dead_def dead_row_def new_outbox_row_def)
qed

end
