(* ===== verification/Delivery_System.thy ===== *)
theory Delivery_System
  imports Dead_Letter
begin

text \<open>
  Dispatchers, operators and workflow transactions on one outbox.  The first half runs their
  database calls in any order and shows that leases exclude other workers and that deliveries are
  final.  The second half is a transition system in which every worker is a process that claims,
  publishes and records step by step, may be overtaken by any other process between two steps and
  may crash at any point; a pass of \<^verbatim>\<open>Dispatcher.RunOnce\<close> is one of its runs.
\<close>

section \<open>Database calls in any order\<close>

lemma update_rows_ok:
  assumes "outbox_ok rows" and "\<And>r. r \<in> set rows \<Longrightarrow> p r \<Longrightarrow> outbox_row_ok r \<Longrightarrow> outbox_row_ok (u r)"
    and "\<And>r. ob_sequence (u r) = ob_sequence r"
  shows "outbox_ok (update_rows p u rows)"
proof -
  have "map ob_sequence (update_rows p u rows) = map ob_sequence rows"
    using assms(3) by (simp add: update_rows_def)
  moreover have "list_all outbox_row_ok (update_rows p u rows)"
    using assms(1,2) by (auto simp: update_rows_def outbox_ok_def list_all_iff)
  ultimately show ?thesis using assms(1) by (simp add: outbox_ok_def)
qed

lemma requeued_row_ok: "outbox_row_ok r \<Longrightarrow> dead_lettered r \<Longrightarrow> outbox_row_ok (requeued_row now r)"
  by (auto simp: outbox_row_ok_def requeued_row_def dead_lettered_def undelivered_def int32_max_def)

lemma insert_outbox_row_ok: "outbox_ok rows \<Longrightarrow> outbox_ok (insert_outbox_row q now event rows)"
  by (auto simp: insert_outbox_row_def outbox_ok_def outbox_row_ok_def new_outbox_row_def undelivered_def int32_max_def)

text \<open>A call either is a delivery step on every row, an insertion, or a replay of one dead letter.\<close>

lemma delivery_exec_cases:
  assumes "outbox_ok (dd_outbox db)"
  obtains (delivery) "table_delivery (dd_outbox db) (dd_outbox (delivery_exec opn db))"
  | (insertion) q now event where "dd_outbox (delivery_exec opn db) = dd_outbox db @ [new_outbox_row q now event]"
      and "0 < q" and "q \<notin> set (map ob_sequence (dd_outbox db))"
  | (replay) now c r where "replayed_in now c r db (delivery_exec opn db)"
proof (cases opn)
  case (OpInsert q now event)
  then show ?thesis
    using insertion delivery by (cases "0 < q \<and> q \<notin> set (map ob_sequence (dd_outbox db))
        \<and> oe_ID event \<notin> set (map (oe_ID \<circ> ob_event) (dd_outbox db))") (auto simp: insert_outbox_row_def)
next
  case (OpClaim f locked arrange owner limit now lease)
  then show ?thesis using delivery PGO_Claim_delivery [OF prod.collapse [symmetric] assms] by simp
next
  case (OpPublished f q owner at)
  then show ?thesis using delivery PGO_MarkPublished_delivery [OF prod.collapse [symmetric]] by simp
next
  case (OpRetry f q owner at t e)
  then show ?thesis using delivery PGO_Retry_delivery [OF prod.collapse [symmetric]] by simp
next
  case (OpDeadLetter f q owner at e)
  then show ?thesis using delivery PGO_DeadLetter_delivery [OF prod.collapse [symmetric]] by simp
next
  case (OpReplay f now c)
  obtain x db' where e: "PGD_Replay f now c db = (x, db')" by fastforce
  then show ?thesis by (cases rule: PGD_Replay_cases) (use OpReplay delivery replay e in auto)
qed

lemma delivery_exec_ok:
  assumes "outbox_ok (dd_outbox db)"
  shows "outbox_ok (dd_outbox (delivery_exec opn db))"
  using assms
proof (cases rule: delivery_exec_cases [where opn = opn])
  case delivery
  then show ?thesis using table_delivery_ok assms by blast
next
  case (insertion q now event)
  then show ?thesis
    using assms by (auto simp: outbox_ok_def outbox_row_ok_def new_outbox_row_def undelivered_def int32_max_def)
next
  case (replay now c r)
  then show ?thesis
    using assms requeued_row_ok by (auto simp: replayed_in_def requeued_row_def intro!: update_rows_ok)
qed

text \<open>Recorded events keep their place; new ones are only appended.\<close>

lemma delivery_exec_events:
  assumes "outbox_ok (dd_outbox db)"
  shows "\<exists>new. map ob_event (dd_outbox (delivery_exec opn db)) = map ob_event (dd_outbox db) @ new"
  using assms
proof (cases rule: delivery_exec_cases [where opn = opn])
  case delivery
  then show ?thesis using table_delivery_fixed(2) by auto
next
  case (replay now c r)
  then have "map ob_event (dd_outbox (delivery_exec opn db)) = map ob_event (dd_outbox db)"
    by (simp add: replayed_in_def update_rows_def requeued_row_def)
  then show ?thesis by simp
qed auto

lemma published_row_kept:
  assumes "outbox_ok (dd_outbox db)" and "r \<in> set (dd_outbox db)" and "ob_published_at r \<noteq> None"
  shows "r \<in> set (dd_outbox (delivery_exec opn db))"
  using assms(1)
proof (cases rule: delivery_exec_cases [where opn = opn])
  case delivery
  obtain r' where "r' \<in> set (dd_outbox (delivery_exec opn db))" "row_delivery r r'"
    using table_delivery_row_fwd [OF delivery assms(2)] .
  then show ?thesis using row_delivery_final [of r r'] assms(3) by (simp add: undelivered_def)
next
  case (replay now c q)
  then show ?thesis using assms(2,3) by (force simp: replayed_in_def update_rows_def dead_lettered_def)
qed (use assms in auto)

lemma delivery_run:
  assumes "outbox_ok (dd_outbox db)"
  shows "outbox_ok (dd_outbox (fold delivery_exec ops db))
    \<and> (\<exists>new. map ob_event (dd_outbox (fold delivery_exec ops db)) = map ob_event (dd_outbox db) @ new)
    \<and> (r \<in> set (dd_outbox db) \<longrightarrow> ob_published_at r \<noteq> None \<longrightarrow> r \<in> set (dd_outbox (fold delivery_exec ops db)))"
  using assms
proof (induction ops arbitrary: db)
  case (Cons opn ops)
  let ?d = "delivery_exec opn db"
  note ok = delivery_exec_ok [OF Cons.prems, of opn]
  obtain a where a: "map ob_event (dd_outbox ?d) = map ob_event (dd_outbox db) @ a"
    using delivery_exec_events [OF Cons.prems] by blast
  obtain b where b: "map ob_event (dd_outbox (fold delivery_exec ops ?d)) = map ob_event (dd_outbox ?d) @ b"
    using Cons.IH [OF ok] by blast
  then have "\<exists>new. map ob_event (dd_outbox (fold delivery_exec (opn # ops) db)) = map ob_event (dd_outbox db) @ new"
    using a by simp
  then show ?case using Cons.IH [OF ok] published_row_kept [OF Cons.prems, of r opn] by simp
qed simp

text \<open>
  C28. Deliveries are final and the record of events is append-only: whatever dispatchers, operators
  and workflow transactions do, in any order and under any database failures, every event stays in
  the outbox in its place with its contents, no row is both published and dead-lettered, leases are
  complete and belong to undelivered rows only, and a published row never changes again.
\<close>

theorem published_event_final:
  assumes "outbox_ok (dd_outbox db)"
  shows "outbox_ok (dd_outbox (fold delivery_exec ops db))
    \<and> (\<exists>new. map ob_event (dd_outbox (fold delivery_exec ops db)) = map ob_event (dd_outbox db) @ new)
    \<and> (\<forall>r\<in>set (dd_outbox db). ob_published_at r \<noteq> None \<longrightarrow> r \<in> set (dd_outbox (fold delivery_exec ops db)))"
  using delivery_run [OF assms, of ops] by blast

section \<open>A live lease excludes the other workers\<close>

fun overtaken :: "int \<Rightarrow> string \<Rightarrow> gotime \<Rightarrow> delivery_op \<Rightarrow> bool" where
  "overtaken q owner e (OpClaim f locked arrange i limit now lease) = (Truncate_us now < e)"
| "overtaken q owner e (OpPublished f q' i at) = (q' \<noteq> q \<or> i \<noteq> owner)"
| "overtaken q owner e (OpRetry f q' i at t failure) = (q' \<noteq> q \<or> i \<noteq> owner)"
| "overtaken q owner e (OpDeadLetter f q' i at failure) = (q' \<noteq> q \<or> i \<noteq> owner)"
| "overtaken q owner e _ = True"

definition leased_until :: "string \<Rightarrow> gotime \<Rightarrow> outbox_row \<Rightarrow> bool" where
  "leased_until owner e r \<longleftrightarrow> undelivered r \<and> ob_lease_owner r = Some owner \<and> ob_lease_expires_at r = Some e"

lemma update_rows_keeps: "r \<in> set rows \<Longrightarrow> \<not> p r \<Longrightarrow> r \<in> set (update_rows p u rows)"
  by (force simp: update_rows_def)

lemma leased_not_claimed:
  assumes "leased_until owner e r" and "now < e"
  shows "r \<notin> set (claim_rows now limit locked rows)"
  using assms claim_rows_claimable [of r now limit locked rows] by (auto simp: leased_until_def claimable_def)

lemma leased_row_survives:
  assumes "outbox_ok (dd_outbox db)" and "r \<in> set (dd_outbox db)" and "leased_until owner e r"
    and "overtaken (ob_sequence r) owner e opn"
  shows "r \<in> set (dd_outbox (delivery_exec opn db))"
proof -
  have lease: "r \<in> set (snd (updateLease f q i at u (dd_outbox db)))" if "q \<noteq> ob_sequence r \<or> i \<noteq> owner" for f q i at u
  proof -
    have "\<not> leased_to q i (Truncate_us at) r" using that assms(3) by (auto simp: leased_to_def leased_until_def)
    then show ?thesis
      using updateLease_cases(1) [OF prod.collapse [symmetric], of f q i at u "dd_outbox db"] assms(2)
      by (auto intro: update_rows_keeps)
  qed
  show ?thesis
  proof (cases opn)
    case (OpClaim f locked arrange i limit now lease)
    obtain x rows' where c: "PGO_Claim f locked arrange i limit now lease (dd_outbox db) = (x, rows')" by fastforce
    have "r \<notin> set (claim_rows (Truncate_us now) limit locked (dd_outbox db))"
      using leased_not_claimed [OF assms(3)] assms(4) OpClaim by simp
    then have "r \<in> set rows'"
      using PGO_Claim_cases [OF c] assms(2)
      by (auto dest!: claim_stmt_Some(2) [OF _ assms(1)] intro: update_rows_keeps)
    then show ?thesis using OpClaim c by simp
  next
    case (OpReplay f now c)
    obtain x db' where e: "PGD_Replay f now c db = (x, db')" by fastforce
    have n: "\<not> dead_lettered r" using assms(3) by (simp add: leased_until_def undelivered_def dead_lettered_def)
    from e have "r \<in> set (dd_outbox db')"
      by (cases rule: PGD_Replay_cases) (auto simp: assms(2) n replayed_in_def intro: update_rows_keeps)
    then show ?thesis using OpReplay e by simp
  qed (use assms(2,4) lease in \<open>auto simp: insert_outbox_row_def PGO_MarkPublished_def PGO_Retry_def PGO_DeadLetter_def\<close>)
qed

lemma leased_row_survives_run:
  assumes "outbox_ok (dd_outbox db)" and "r \<in> set (dd_outbox db)" and "leased_until owner e r"
    and "list_all (overtaken (ob_sequence r) owner e) ops"
  shows "outbox_ok (dd_outbox (fold delivery_exec ops db)) \<and> r \<in> set (dd_outbox (fold delivery_exec ops db))"
  using assms
proof (induction ops arbitrary: db)
  case (Cons opn ops)
  then show ?case using Cons.IH [of "delivery_exec opn db"] delivery_exec_ok leased_row_survives by simp
qed simp

text \<open>
  C29. A live delivery lease is exclusive: from the moment a row is leased until the lease expires,
  claims by other workers, their attempts to settle the row, replays and insertions leave it as it
  is, and no claim made before the expiry returns it.
\<close>

theorem delivery_lease_exclusive:
  assumes "outbox_ok (dd_outbox db)" and "r \<in> set (dd_outbox db)"
    and "undelivered r" and "ob_lease_owner r = Some owner" and "ob_lease_expires_at r = Some e"
    and "list_all (overtaken (ob_sequence r) owner e) ops"
    and "\<And>xs. mset (arrange xs) = mset xs" and "Truncate_us now < e"
    and "PGO_Claim f locked arrange i limit now lease (dd_outbox (fold delivery_exec ops db)) = (Inr records, rows')"
  shows "r \<in> set rows' \<and> ob_sequence r \<notin> rc_Sequence ` set records"
proof -
  let ?rows = "dd_outbox (fold delivery_exec ops db)" and ?now = "Truncate_us now"
  have l: "leased_until owner e r" using assms(3-5) by (simp add: leased_until_def)
  have k: "outbox_ok ?rows" "r \<in> set ?rows" using leased_row_survives_run [OF assms(1,2) l assms(6)] by simp_all
  obtain got where g: "claim_stmt locked i limit ?now (Truncate_us (now + lease)) ?rows = Some (got, rows')" "records = arrange got"
    using PGO_Claim_cases [OF assms(9)] by blast
  have n: "r \<notin> set (claim_rows ?now limit locked ?rows)" by (rule leased_not_claimed [OF l assms(8)])
  have "set records = set got" using g(2) assms(7) mset_eq_setD by blast
  moreover have "ob_sequence q \<noteq> ob_sequence r" if "q \<in> set (claim_rows ?now limit locked ?rows)" for q
    using n that claim_rows_claimable [OF that] outbox_distinct [OF k(1) k(2), of q] by metis
  then have "ob_sequence r \<notin> rc_Sequence ` set got"
    unfolding claim_stmt_Some(1) [OF g(1) k(1)]
    by (auto simp: claimed_record_def leased_row_def) metis
  ultimately show ?thesis using claim_stmt_Some(2) [OF g(1) k(1)] k(2) n by (auto intro: update_rows_keeps)
qed

section \<open>Workers as processes\<close>

datatype worker_phase =
    Idle
  | Working "outbox_record list"
  | Acknowledged outbox_record "outbox_record list"
  | Refused outbox_record string "outbox_record list"

record 'p delivery_system =
  sy_db :: delivery_db
  sy_worker :: "string \<Rightarrow> worker_phase"
  sy_publisher :: 'p
  sy_acked :: "outbox_event list"

definition enter :: "string \<Rightarrow> worker_phase \<Rightarrow> outbox_table \<Rightarrow> 'p delivery_system \<Rightarrow> 'p delivery_system" where
  "enter i phase rows s = s\<lparr>sy_db := (sy_db s)\<lparr>dd_outbox := rows\<rparr>, sy_worker := (sy_worker s)(i := phase)\<rparr>"

abbreviation sy_rows :: "'p delivery_system \<Rightarrow> outbox_table" where
  "sy_rows s \<equiv> dd_outbox (sy_db s)"

text \<open>
  The steps of the worker with identifier \<open>i\<close>, configured by \<open>d i\<close>; \<open>sy_acked\<close> records the events the
  publisher has acknowledged.  A worker may be killed at any point and starts over idle.
\<close>

inductive delivery_step ::
  "'p publisher \<Rightarrow> (string \<Rightarrow> dispatcher) \<Rightarrow> 'p delivery_system \<Rightarrow> 'p delivery_system \<Rightarrow> bool"
  for publish :: "'p publisher" and d :: "string \<Rightarrow> dispatcher" where
  claim: "sy_worker s i = Idle \<Longrightarrow> (\<And>xs. mset (arrange xs) = mset xs) \<Longrightarrow>
    PGO_Claim f locked arrange i (di_BatchSize (d i)) now (di_Lease (d i)) (sy_rows s) = (Inr records, rows) \<Longrightarrow>
    delivery_step publish d s (enter i (Working records) rows s)"
| claim_failed: "sy_worker s i = Idle \<Longrightarrow>
    PGO_Claim f locked arrange i (di_BatchSize (d i)) now (di_Lease (d i)) (sy_rows s) = (Inl e, rows) \<Longrightarrow>
    delivery_step publish d s (enter i Idle rows s)"
| acknowledged: "sy_worker s i = Working (x # xs) \<Longrightarrow> publish (rc_Event x) (sy_publisher s) = (None, p) \<Longrightarrow>
    delivery_step publish d s
      (enter i (Acknowledged x xs) (sy_rows s) (s\<lparr>sy_publisher := p, sy_acked := sy_acked s @ [rc_Event x]\<rparr>))"
| refused: "sy_worker s i = Working (x # xs) \<Longrightarrow> publish (rc_Event x) (sy_publisher s) = (Some failure, p) \<Longrightarrow>
    delivery_step publish d s (enter i (Refused x failure xs) (sy_rows s) (s\<lparr>sy_publisher := p\<rparr>))"
| mark: "sy_worker s i = Acknowledged x xs \<Longrightarrow>
    PGO_MarkPublished f (rc_Sequence x) i now (sy_rows s) = (answer, rows) \<Longrightarrow>
    delivery_step publish d s (enter i (Working xs) rows s)"
| retry: "sy_worker s i = Refused x failure xs \<Longrightarrow> rc_Attempts x < di_MaxAttempts (d i) \<Longrightarrow>
    PGO_Retry f (rc_Sequence x) i now (now + di_RetryDelay (d i) (rc_Attempts x)) failure (sy_rows s) = (answer, rows) \<Longrightarrow>
    delivery_step publish d s (enter i (Working xs) rows s)"
| dead_letter: "sy_worker s i = Refused x failure xs \<Longrightarrow> di_MaxAttempts (d i) \<le> rc_Attempts x \<Longrightarrow>
    PGO_DeadLetter f (rc_Sequence x) i now failure (sy_rows s) = (answer, rows) \<Longrightarrow>
    delivery_step publish d s (enter i (Working xs) rows s)"
| finished: "sy_worker s i = Working [] \<Longrightarrow> delivery_step publish d s (enter i Idle (sy_rows s) s)"
| crash: "delivery_step publish d s (enter i Idle (sy_rows s) s)"
| recorded: "delivery_step publish d s (s\<lparr>sy_db := delivery_exec (OpInsert q now event) (sy_db s)\<rparr>)"
| replayed: "delivery_step publish d s (s\<lparr>sy_db := delivery_exec (OpReplay f now c) (sy_db s)\<rparr>)"

lemma enter_sel [simp]:
  "sy_rows (enter i phase rows s) = rows" "sy_worker (enter i phase rows s) = (sy_worker s)(i := phase)"
  "sy_acked (enter i phase rows s) = sy_acked s" "sy_publisher (enter i phase rows s) = sy_publisher s"
  by (simp_all add: enter_def)

fun inflight :: "worker_phase \<Rightarrow> outbox_record set" where
  "inflight Idle = {}"
| "inflight (Working xs) = set xs"
| "inflight (Acknowledged x xs) = insert x (set xs)"
| "inflight (Refused x failure xs) = insert x (set xs)"

text \<open>Which event a sequence number stands for, and which events are published.\<close>

definition row_ids :: "outbox_table \<Rightarrow> (int \<times> outbox_event) set" where
  "row_ids rows = (\<lambda>r. (ob_sequence r, ob_event r)) ` set rows"

definition published_events :: "outbox_table \<Rightarrow> outbox_event set" where
  "published_events rows = ob_event ` {r \<in> set rows. ob_published_at r \<noteq> None}"

definition system_ok :: "'p delivery_system \<Rightarrow> bool" where
  "system_ok s \<longleftrightarrow>
     outbox_ok (sy_rows s) \<and>
     (\<forall>i. \<forall>x\<in>inflight (sy_worker s i). (rc_Sequence x, rc_Event x) \<in> row_ids (sy_rows s)) \<and>
     (\<forall>i x xs. sy_worker s i = Acknowledged x xs \<longrightarrow> rc_Event x \<in> set (sy_acked s)) \<and>
     published_events (sy_rows s) \<subseteq> set (sy_acked s)"

lemma update_rows_ids:
  assumes "\<And>r. ob_sequence (u r) = ob_sequence r \<and> ob_event (u r) = ob_event r"
  shows "row_ids (update_rows p u rows) = row_ids rows"
  using assms unfolding row_ids_def update_rows_def by (induction rows) auto

lemma update_rows_published:
  assumes "\<And>r. ob_published_at (u r) = ob_published_at r \<and> ob_event (u r) = ob_event r"
  shows "published_events (update_rows p u rows) = published_events rows"
proof -
  have e: "published_events xs = set (map ob_event (filter (\<lambda>r. ob_published_at r \<noteq> None) xs))" for xs
    by (simp add: published_events_def)
  have "map ob_event (filter (\<lambda>r. ob_published_at r \<noteq> None) (update_rows p u rows))
      = map ob_event (filter (\<lambda>r. ob_published_at r \<noteq> None) rows)"
    using assms unfolding update_rows_def by (induction rows) auto
  then show ?thesis unfolding e by simp
qed

lemma row_ids_functional:
  "outbox_ok rows \<Longrightarrow> (q, e) \<in> row_ids rows \<Longrightarrow> r \<in> set rows \<Longrightarrow> ob_sequence r = q \<Longrightarrow> ob_event r = e"
  using outbox_distinct [of rows] by (auto simp: row_ids_def)

lemma table_delivery_ids: "table_delivery rows rows' \<Longrightarrow> row_ids rows' = row_ids rows"
proof -
  assume t: "table_delivery rows rows'"
  have "row_ids xs = set (zip (map ob_sequence xs) (map ob_event xs))" for xs
    by (simp add: row_ids_def zip_map_map zip_same_conv_map image_image)
  then show ?thesis using table_delivery_fixed [OF t] by simp
qed

lemma updateLease_published:
  assumes "updateLease f q i at u rows = (x, rows')"
    and "\<And>r. ob_published_at (u r) = ob_published_at r \<and> ob_event (u r) = ob_event r"
  shows "published_events rows' = published_events rows"
  using updateLease_cases(1) [OF assms(1)] update_rows_published [OF assms(2)] by auto

lemma system_ok_enter:
  assumes "system_ok s" and "outbox_ok rows" and "row_ids rows = row_ids (sy_rows s)"
    and "published_events rows \<subseteq> set (sy_acked s)"
    and "\<And>x. x \<in> inflight phase \<Longrightarrow> (rc_Sequence x, rc_Event x) \<in> row_ids (sy_rows s)"
    and "\<And>x xs. phase = Acknowledged x xs \<Longrightarrow> rc_Event x \<in> set (sy_acked s)"
  shows "system_ok (enter i phase rows s)"
  using assms unfolding system_ok_def by auto

lemma system_ok_inflight:
  "system_ok s \<Longrightarrow> x \<in> inflight (sy_worker s i) \<Longrightarrow> (rc_Sequence x, rc_Event x) \<in> row_ids (sy_rows s)"
  by (auto simp: system_ok_def)

lemma PGO_Claim_published:
  assumes "PGO_Claim f locked arrange i limit now lease rows = (x, rows')" and "outbox_ok rows"
  shows "published_events rows' = published_events rows"
proof -
  have "published_events rows'' = published_events rows" if "claim_stmt locked i limit t e rows = Some (records, rows'')"
    for t e records rows''
    unfolding claim_stmt_Some(2) [OF that assms(2)] by (rule update_rows_published) (simp add: leased_row_def)
  then show ?thesis using PGO_Claim_cases [OF assms(1)] by blast
qed

lemma PGO_Claim_records:
  assumes "PGO_Claim f locked arrange i limit now lease rows = (Inr records, rows')" and "outbox_ok rows"
    and "\<And>xs. mset (arrange xs) = mset xs" and "x \<in> set records"
  shows "(rc_Sequence x, rc_Event x) \<in> row_ids rows"
proof -
  obtain got where g: "claim_stmt locked i limit (Truncate_us now) (Truncate_us (now + lease)) rows = Some (got, rows')"
    "records = arrange got" using PGO_Claim_cases [OF assms(1)] by blast
  have "x \<in> set got" using assms(3,4) g(2) mset_eq_setD by blast
  then obtain r where "r \<in> set (claim_rows (Truncate_us now) limit locked rows)"
    "x = claimed_record (leased_row i (Truncate_us (now + lease)) r)"
    unfolding claim_stmt_Some(1) [OF g(1) assms(2)] by auto
  then show ?thesis
    using claim_rows_claimable [of r] by (force simp: row_ids_def claimed_record_def leased_row_def)
qed

lemma PGO_MarkPublished_events:
  assumes "PGO_MarkPublished f q i at rows = (x, rows')" and "outbox_ok rows" and "(q, e) \<in> row_ids rows"
  shows "published_events rows' \<subseteq> insert e (published_events rows)"
proof -
  have "published_events (update_rows (leased_to q i t) (published_row t') rows) \<subseteq> insert e (published_events rows)" for t t'
    using row_ids_functional [OF assms(2,3)]
    by (auto simp: published_events_def update_rows_def published_row_def leased_to_def split: if_splits)
  then show ?thesis using updateLease_cases(1) [OF assms(1) [unfolded PGO_MarkPublished_def]] by auto
qed

lemma settled_ok:
  assumes "system_ok s" and "table_delivery (sy_rows s) rows" and "published_events rows \<subseteq> set (sy_acked s)"
    and "set xs \<subseteq> inflight (sy_worker s i)"
  shows "system_ok (enter i (Working xs) rows s)"
proof (rule system_ok_enter [OF assms(1)])
  show "outbox_ok rows" using table_delivery_ok [OF assms(2)] assms(1) by (simp add: system_ok_def)
  show "row_ids rows = row_ids (sy_rows s)" by (rule table_delivery_ids [OF assms(2)])
qed (use assms(3,4) system_ok_inflight [OF assms(1)] in auto)

lemma system_ok_db:
  assumes "system_ok s" and "outbox_ok (dd_outbox db)" and "row_ids (sy_rows s) \<subseteq> row_ids (dd_outbox db)"
    and "published_events (dd_outbox db) = published_events (sy_rows s)"
  shows "system_ok (s\<lparr>sy_db := db\<rparr>)"
  using assms unfolding system_ok_def by auto

lemma claimed_ok:
  assumes "system_ok s" and "PGO_Claim f locked arrange i limit now lease (sy_rows s) = (x, rows)"
    and "\<And>y. y \<in> inflight phase \<Longrightarrow> (rc_Sequence y, rc_Event y) \<in> row_ids (sy_rows s)"
    and "\<And>y ys. phase \<noteq> Acknowledged y ys"
  shows "system_ok (enter i phase rows s)"
proof -
  have ok: "outbox_ok (sy_rows s)" using assms(1) by (simp add: system_ok_def)
  note t = PGO_Claim_delivery [OF assms(2) ok]
  show ?thesis
    using assms PGO_Claim_published [OF assms(2) ok] table_delivery_ok [OF t ok] table_delivery_ids [OF t]
    by (intro system_ok_enter) (auto simp: system_ok_def)
qed

lemma marked_ok:
  assumes "system_ok s" and "sy_worker s i = Acknowledged x xs"
    and "PGO_MarkPublished f (rc_Sequence x) i now (sy_rows s) = (answer, rows)"
  shows "system_ok (enter i (Working xs) rows s)"
proof -
  have "published_events rows \<subseteq> insert (rc_Event x) (published_events (sy_rows s))"
    using PGO_MarkPublished_events [OF assms(3)] assms(1,2) system_ok_inflight [OF assms(1), of x i]
    by (auto simp: system_ok_def)
  then have "published_events rows \<subseteq> set (sy_acked s)" using assms(1,2) unfolding system_ok_def by blast
  then show ?thesis
    using assms(2) by (intro settled_ok [OF assms(1) PGO_MarkPublished_delivery [OF assms(3)]]) auto
qed

lemma PGO_Retry_events:
  "PGO_Retry f q i at t e rows = (x, rows') \<Longrightarrow> published_events rows' = published_events rows"
  using updateLease_published [where u = "retried_row _ _"] by (auto simp: PGO_Retry_def retried_row_def split: if_splits)

lemma PGO_DeadLetter_events:
  "PGO_DeadLetter f q i at e rows = (x, rows') \<Longrightarrow> published_events rows' = published_events rows"
  using updateLease_published [where u = "dead_row _ _"] by (auto simp: PGO_DeadLetter_def dead_row_def)

lemma PGD_Replay_events:
  assumes "PGD_Replay f now c db = (x, db')"
  shows "row_ids (dd_outbox db') = row_ids (dd_outbox db) \<and> published_events (dd_outbox db') = published_events (dd_outbox db)"
  using assms
  by (cases rule: PGD_Replay_cases)
    (auto simp: replayed_in_def requeued_row_def intro!: update_rows_ids update_rows_published)

lemma delivery_step_ok: "delivery_step publish d s s' \<Longrightarrow> system_ok s \<Longrightarrow> system_ok s'"
proof (induction rule: delivery_step.induct)
  case (claim s i arrange f locked now records rows)
  have "outbox_ok (sy_rows s)" using claim.prems by (simp add: system_ok_def)
  then show ?case
    using PGO_Claim_records [OF claim.hyps(3) _ claim.hyps(2)] by (intro claimed_ok [OF claim.prems claim.hyps(3)]) auto
next
  case (claim_failed s i f locked arrange now e rows)
  then show ?case by (intro claimed_ok [OF claim_failed.prems claim_failed.hyps(2)]) auto
next
  case (acknowledged s i x xs p)
  have "system_ok (s\<lparr>sy_publisher := p, sy_acked := sy_acked s @ [rc_Event x]\<rparr>)"
    using acknowledged.prems by (auto simp: system_ok_def)
  then show ?case
    using acknowledged.hyps(1) acknowledged.prems system_ok_inflight [OF acknowledged.prems, of _ i]
    by (intro system_ok_enter) (auto simp: system_ok_def)
next
  case (refused s i x xs failure p)
  have "system_ok (s\<lparr>sy_publisher := p\<rparr>)" using refused.prems by (auto simp: system_ok_def)
  then show ?case
    using refused.hyps(1) refused.prems system_ok_inflight [OF refused.prems, of _ i]
    by (intro system_ok_enter) (auto simp: system_ok_def)
next
  case (mark s i x xs f now answer rows)
  then show ?case by (intro marked_ok)
next
  case (retry s i x failure xs f now answer rows)
  then show ?case
    using PGO_Retry_events [OF retry.hyps(3)]
    by (intro settled_ok [OF retry.prems PGO_Retry_delivery [OF retry.hyps(3)]]) (auto simp: system_ok_def)
next
  case (dead_letter s i x failure xs f now answer rows)
  then show ?case
    using PGO_DeadLetter_events [OF dead_letter.hyps(3)]
    by (intro settled_ok [OF dead_letter.prems PGO_DeadLetter_delivery [OF dead_letter.hyps(3)]]) (auto simp: system_ok_def)
next
  case (recorded s q now event)
  then show ?case
    using insert_outbox_row_ok [of "sy_rows s"]
    by (intro system_ok_db) (auto simp: system_ok_def insert_outbox_row_def row_ids_def published_events_def new_outbox_row_def)
next
  case (replayed s f now c)
  then show ?case
    using PGD_Replay_events [OF prod.collapse [symmetric], of f now c "sy_db s"] delivery_exec_ok [of "sy_db s" "OpReplay f now c"]
    by (intro system_ok_db) (auto simp: system_ok_def)
qed (auto intro!: system_ok_enter simp: system_ok_def)

definition delivery_start :: "'p \<Rightarrow> 'p delivery_system" where
  "delivery_start p = \<lparr>sy_db = \<lparr>dd_outbox = [], dd_actions = []\<rparr>, sy_worker = (\<lambda>_. Idle), sy_publisher = p, sy_acked = []\<rparr>"

lemma delivery_start_ok: "system_ok (delivery_start p)"
  by (simp add: system_ok_def delivery_start_def outbox_ok_def published_events_def)

lemma delivery_reachable_ok:
  "(delivery_step publish d)\<^sup>*\<^sup>* s s' \<Longrightarrow> system_ok s \<Longrightarrow> system_ok s'"
  by (induction rule: rtranclp_induct) (auto intro: delivery_step_ok)

text \<open>
  C30. No event is marked published before the publisher acknowledged it, in any interleaving of
  workers, operators and workflow transactions, with workers crashing anywhere, leases expiring
  between publication and its record, and database calls failing or losing their reply.
\<close>

theorem published_only_after_acknowledgement:
  assumes "(delivery_step publish d)\<^sup>*\<^sup>* (delivery_start p) s"
    and "r \<in> set (sy_rows s)" and "ob_published_at r \<noteq> None"
  shows "ob_event r \<in> set (sy_acked s)"
  using delivery_reachable_ok [OF assms(1) delivery_start_ok] assms(2,3)
  by (auto simp: system_ok_def published_events_def)

section \<open>A pass of the dispatcher is a run of its worker\<close>

text \<open>State \<open>s\<close> of the system is where worker \<open>i\<close>, in the given phase, has brought the pass \<open>st\<close>.\<close>

definition in_pass ::
  "string \<Rightarrow> worker_phase \<Rightarrow> (outbox_table, 'p) dispatch_state \<Rightarrow> 'p delivery_system \<Rightarrow> bool" where
  "in_pass i phase st s \<longleftrightarrow> sy_worker s i = phase \<and> sy_rows s = dp_store st \<and> sy_publisher s = dp_publisher st"

lemma settle_store: "dp_store (settle answer count_it st) = snd answer" "dp_publisher (settle answer count_it st) = dp_publisher st"
  by (auto simp: settle_def store_failed_def split: prod.split option.split)

lemma settled_run:
  assumes "delivery_step publish d s s1" and "delivery_step publish d s1 (enter i (Working xs) rows s1)"
    and "dp_store st = rows" and "dp_publisher st = sy_publisher s1"
  shows "\<exists>s'. (delivery_step publish d)\<^sup>*\<^sup>* s s' \<and> in_pass i (Working xs) st s'"
  using assms by (intro exI [of _ "enter i (Working xs) rows s1"]) (auto simp: in_pass_def)

lemma dispatch_record_run:
  assumes "di_WorkerID (d i) = i" and "in_pass i (Working (x # xs)) st s"
  shows "\<exists>s'. (delivery_step publish d)\<^sup>*\<^sup>* s s'
    \<and> in_pass i (Working xs) (dispatch_record (d i) (pg_delivery_store f locked arrange) now publish x st) s'"
proof -
  have s: "sy_worker s i = Working (x # xs)" "sy_rows s = dp_store st" "sy_publisher s = dp_publisher st"
    using assms(2) by (simp_all add: in_pass_def)
  obtain answer p where p: "publish (rc_Event x) (dp_publisher st) = (answer, p)" by fastforce
  note eval = in_pass_def dispatch_record_def settle_store pg_delivery_store_def assms(1)
  show ?thesis
  proof (cases answer)
    case None
    define s1 where "s1 = enter i (Acknowledged x xs) (sy_rows s) (s\<lparr>sy_publisher := p, sy_acked := sy_acked s @ [rc_Event x]\<rparr>)"
    obtain a rows where m: "PGO_MarkPublished f (rc_Sequence x) i now (dp_store st) = (a, rows)" by fastforce
    have "delivery_step publish d s s1" unfolding s1_def using s p None by (intro delivery_step.acknowledged) auto
    moreover have "delivery_step publish d s1 (enter i (Working xs) rows s1)"
      using m s(2) by (intro delivery_step.mark [where x = x and f = f and now = now and answer = a]) (auto simp: s1_def)
    ultimately show ?thesis by (rule settled_run) (simp_all add: eval p None m s1_def)
  next
    case (Some failure)
    define s1 where "s1 = enter i (Refused x failure xs) (sy_rows s) (s\<lparr>sy_publisher := p\<rparr>)"
    have r: "delivery_step publish d s s1" unfolding s1_def using s p Some by (intro delivery_step.refused) auto
    obtain a rows where m: "PGO_DeadLetter f (rc_Sequence x) i now failure (dp_store st) = (a, rows)" by fastforce
    obtain b rows' where m': "PGO_Retry f (rc_Sequence x) i now (now + di_RetryDelay (d i) (rc_Attempts x)) failure (dp_store st) = (b, rows')"
      by fastforce
    show ?thesis
    proof (cases "di_MaxAttempts (d i) \<le> rc_Attempts x")
      case True
      then have "delivery_step publish d s1 (enter i (Working xs) rows s1)"
        using m s(2) by (intro delivery_step.dead_letter [where x = x and f = f and now = now and answer = a]) (auto simp: s1_def)
      with r show ?thesis by (rule settled_run) (simp_all add: eval p Some m True s1_def)
    next
      case False
      then have "delivery_step publish d s1 (enter i (Working xs) rows' s1)"
        using m' s(2) by (intro delivery_step.retry [where x = x and f = f and now = now and answer = b]) (auto simp: s1_def)
      with r show ?thesis by (rule settled_run) (simp_all add: eval p Some m' False s1_def)
    qed
  qed
qed

lemma dispatch_records_run:
  assumes "di_WorkerID (d i) = i"
  shows "in_pass i (Working records) st s \<Longrightarrow> \<exists>s'. (delivery_step publish d)\<^sup>*\<^sup>* s s'
    \<and> in_pass i (Working []) (dispatch_records (d i) (\<lambda>k. pg_delivery_store (f k) (locked k) arrange) clock publish k records st) s'"
proof (induction records arbitrary: k st s)
  case (Cons x xs)
  obtain s1 where s1: "(delivery_step publish d)\<^sup>*\<^sup>* s s1"
    "in_pass i (Working xs) (dispatch_record (d i) (pg_delivery_store (f k) (locked k) arrange) (clock k) publish x st) s1"
    using dispatch_record_run [of d i x xs st s publish "f k" "locked k" arrange "clock k"] assms Cons.prems by blast
  obtain s2 where "(delivery_step publish d)\<^sup>*\<^sup>* s1 s2"
    "in_pass i (Working []) (dispatch_records (d i) (\<lambda>k. pg_delivery_store (f k) (locked k) arrange) clock publish (Suc k) xs
       (dispatch_record (d i) (pg_delivery_store (f k) (locked k) arrange) (clock k) publish x st)) s2"
    using Cons.IH [OF s1(2)] by blast
  then show ?case using s1(1) by (auto intro: rtranclp_trans)
qed auto

lemma dispatcher_pass_run:
  assumes "di_WorkerID (d i) = i" and "sy_worker s i = Idle" and "\<And>xs. mset (arrange xs) = mset xs"
    and "Dispatcher_RunOnce (d i) (\<lambda>k. pg_delivery_store (f k) (locked k) arrange) clock publish m (sy_rows s) (sy_publisher s) = (n, st)"
  shows "\<exists>s'. (delivery_step publish d)\<^sup>*\<^sup>* s s' \<and> sy_worker s' i = Idle
    \<and> sy_rows s' = dp_store st \<and> sy_publisher s' = dp_publisher st"
proof (cases "Dispatcher_validate (d i)")
  case False
  then show ?thesis using assms(2,4) by (auto simp: Dispatcher_RunOnce_def)
next
  case True
  obtain x rows where c: "PGO_Claim (f 0) (locked 0) arrange i (di_BatchSize (d i)) (clock 0) (di_Lease (d i)) (sy_rows s) = (x, rows)"
    by fastforce
  show ?thesis
  proof (cases x)
    case (Inl e)
    then have "delivery_step publish d s (enter i Idle rows s)" using c assms(2) by (auto intro: delivery_step.claim_failed)
    then show ?thesis
      using True assms(1,4) c Inl
      by (intro exI [of _ "enter i Idle rows s"]) (auto simp: Dispatcher_RunOnce_def pg_delivery_store_def store_failed_def)
  next
    case (Inr records)
    define st0 where "st0 = \<lparr>dp_metrics = Metrics_recordClaimed (length records) m, dp_failures = [], dp_store = rows, dp_publisher = sy_publisher s\<rparr>"
    have "delivery_step publish d s (enter i (Working records) rows s)"
      using c assms(2,3) Inr by (auto intro: delivery_step.claim)
    moreover have "in_pass i (Working records) st0 (enter i (Working records) rows s)" by (simp add: in_pass_def st0_def)
    then obtain s1 where s1: "(delivery_step publish d)\<^sup>*\<^sup>* (enter i (Working records) rows s) s1" "in_pass i (Working []) st s1"
      using dispatch_records_run [of d i records st0 "enter i (Working records) rows s" publish f locked arrange clock 1]
        True assms(1,4) c Inr
      by (auto simp: Dispatcher_RunOnce_def pg_delivery_store_def st0_def)
    moreover have "delivery_step publish d s1 (enter i Idle (sy_rows s1) s1)"
      using s1(2) by (intro delivery_step.finished) (simp add: in_pass_def)
    ultimately have "(delivery_step publish d)\<^sup>*\<^sup>* s (enter i Idle (sy_rows s1) s1)" by (meson converse_rtranclp_into_rtranclp rtranclp.rtrancl_into_rtrancl)
    then show ?thesis using s1(2) by (intro exI [of _ "enter i Idle (sy_rows s1) s1"]) (simp add: in_pass_def)
  qed
qed

text \<open>
  C31. The dispatcher refines the worker process: whatever the publisher and the database answer, a
  pass of \<^verbatim>\<open>RunOnce\<close> by an idle worker is a run of the transition system that ends with the worker
  idle again and with exactly the outbox and the publisher the pass leaves behind.
\<close>

theorem dispatcher_pass_refines_worker:
  assumes "di_WorkerID (d i) = i" and "sy_worker s i = Idle" and "\<And>xs. mset (arrange xs) = mset xs"
    and "Dispatcher_RunOnce (d i) (\<lambda>k. pg_delivery_store (f k) (locked k) arrange) clock publish m (sy_rows s) (sy_publisher s) = (n, st)"
  shows "\<exists>s'. (delivery_step publish d)\<^sup>*\<^sup>* s s' \<and> sy_worker s' i = Idle
    \<and> sy_rows s' = dp_store st \<and> sy_publisher s' = dp_publisher st"
  using dispatcher_pass_run [of d i s arrange f locked clock publish m n st] assms by blast

section \<open>Examples\<close>

definition example_system :: "unit delivery_system" where
  "example_system = (delivery_start ())\<lparr>sy_db := \<lparr>dd_outbox = example_outbox, dd_actions = []\<rparr>\<rparr>"

lemma example_recorded: "delivery_step publish d (delivery_start ()) example_system"
proof -
  have "delivery_exec (OpInsert 1 4000 example_outbox_event) (sy_db (delivery_start ())) = \<lparr>dd_outbox = example_outbox, dd_actions = []\<rparr>"
    by (simp add: delivery_start_def insert_outbox_row_def example_outbox_def)
  then show ?thesis unfolding example_system_def using delivery_step.recorded [of publish d "delivery_start ()"] by metis
qed

lemma example_system_sel:
  "sy_worker example_system i = Idle" "sy_rows example_system = example_outbox" "sy_publisher example_system = ()"
  by (simp_all add: example_system_def delivery_start_def)

definition example_passed :: outbox_table where
  "example_passed = dp_store (snd (example_pass (\<lambda>_ _. (None, ()))))"

definition example_delivered :: outbox_row where
  "example_delivered = (leased_row ''worker-1'' 0 (new_outbox_row 1 4000 example_outbox_event))
     \<lparr>ob_published_at := Some 5000, ob_lease_owner := None, ob_lease_expires_at := None\<rparr>"

lemma example_passed_value: "example_passed = [example_delivered]"
  by code_simp

lemma example_delivered_sel: "ob_published_at example_delivered = Some 5000" "ob_event example_delivered = example_outbox_event"
  by (simp_all add: example_delivered_def leased_row_def new_outbox_row_def)

lemma example_pass_run:
  "\<exists>s. (delivery_step (\<lambda>_ _. (None, ())) (\<lambda>_. example_dispatcher))\<^sup>*\<^sup>* example_system s \<and> sy_rows s = example_passed"
proof -
  have "Dispatcher_RunOnce example_dispatcher (\<lambda>_. pg_delivery_store (\<lambda>_. CallOK) (\<lambda>_. False) (\<lambda>xs. xs)) (\<lambda>_. 5000)
      (\<lambda>_ _. (None, ())) None example_outbox () = (fst (example_pass (\<lambda>_ _. (None, ()))), snd (example_pass (\<lambda>_ _. (None, ()))))"
    by (simp add: example_pass_def)
  then show ?thesis
    using dispatcher_pass_run [of "\<lambda>_. example_dispatcher" "''worker-1''" example_system "\<lambda>xs. xs" "\<lambda>_ _. CallOK" "\<lambda>_ _. False"
        "\<lambda>_. 5000" "\<lambda>_ _. (None, ())" None "fst (example_pass (\<lambda>_ _. (None, ())))"
        "snd (example_pass (\<lambda>_ _. (None, ())))"]
    unfolding example_system_sel example_passed_def by (auto simp: example_dispatcher_sel)
qed

theorem published_only_after_acknowledgement_witness:
  "\<exists>s. (delivery_step (\<lambda>_ _. (None, ())) (\<lambda>_. example_dispatcher))\<^sup>*\<^sup>* (delivery_start ()) s
     \<and> example_delivered \<in> set (sy_rows s) \<and> example_outbox_event \<in> set (sy_acked s)"
proof -
  obtain s where s: "(delivery_step (\<lambda>_ _. (None, ())) (\<lambda>_. example_dispatcher))\<^sup>*\<^sup>* example_system s" "sy_rows s = example_passed"
    using example_pass_run by blast
  have r: "(delivery_step (\<lambda>_ _. (None, ())) (\<lambda>_. example_dispatcher))\<^sup>*\<^sup>* (delivery_start ()) s"
    using example_recorded s(1) by (rule converse_rtranclp_into_rtranclp)
  show ?thesis
    using published_only_after_acknowledgement [OF r, of example_delivered] r s(2)
    by (auto simp: example_passed_value example_delivered_sel)
qed

theorem dispatcher_pass_refines_worker_witness:
  "\<exists>s. (delivery_step (\<lambda>_ _. (None, ())) (\<lambda>_. example_dispatcher))\<^sup>*\<^sup>* example_system s \<and> sy_rows s = [example_delivered]"
proof -
  have "Dispatcher_RunOnce example_dispatcher (\<lambda>_. pg_delivery_store (\<lambda>_. CallOK) (\<lambda>_. False) (\<lambda>xs. xs)) (\<lambda>_. 5000)
      (\<lambda>_ _. (None, ())) None example_outbox () = (fst (example_pass (\<lambda>_ _. (None, ()))), snd (example_pass (\<lambda>_ _. (None, ()))))"
    by (simp add: example_pass_def)
  then show ?thesis
    using dispatcher_pass_refines_worker [of "\<lambda>_. example_dispatcher" "''worker-1''" example_system "\<lambda>xs. xs" "\<lambda>_ _. CallOK"
        "\<lambda>_ _. False" "\<lambda>_. 5000" "\<lambda>_ _. (None, ())" None "fst (example_pass (\<lambda>_ _. (None, ())))"
        "snd (example_pass (\<lambda>_ _. (None, ())))"]
    unfolding example_system_sel example_passed_value [symmetric] example_passed_def by (auto simp: example_dispatcher_sel)
qed

theorem published_event_final_witness:
  "example_delivered \<in> set (dd_outbox (fold delivery_exec [OpClaim (\<lambda>_. CallOK) (\<lambda>_. False) (\<lambda>xs. xs) ''worker-2'' 10 9000 9000,
     OpReplay (\<lambda>_. CallOK) 9000 example_command] \<lparr>dd_outbox = [example_delivered], dd_actions = []\<rparr>))"
proof -
  have "outbox_ok (dd_outbox \<lparr>dd_outbox = [example_delivered], dd_actions = []\<rparr>)"
    by (simp add: outbox_ok_def outbox_row_ok_def example_delivered_def leased_row_def new_outbox_row_def undelivered_def int32_max_def)
  from published_event_final [OF this, of "[OpClaim (\<lambda>_. CallOK) (\<lambda>_. False) (\<lambda>xs. xs) ''worker-2'' 10 9000 9000,
      OpReplay (\<lambda>_. CallOK) 9000 example_command]"]
  show ?thesis by (simp add: example_delivered_sel del: fold_simps)
qed

text \<open>A second worker finds the leased row taken and claims only the next one.\<close>

definition example_taken :: outbox_row where
  "example_taken = leased_row ''worker-1'' 9000 (new_outbox_row 1 4000 example_outbox_event)"

definition example_shared :: delivery_db where
  "example_shared = \<lparr>dd_outbox = [example_taken, new_outbox_row 2 4000 (example_outbox_event\<lparr>oe_ID := ''event-2''\<rparr>)], dd_actions = []\<rparr>"

definition example_second :: "(delivery_error + outbox_record list) \<times> outbox_table" where
  "example_second = PGO_Claim (\<lambda>_. CallOK) (\<lambda>_. False) (\<lambda>xs. xs) ''worker-2'' 10 6000 9000
     (dd_outbox (fold delivery_exec [OpPublished (\<lambda>_. CallOK) 1 ''worker-2'' 5000] example_shared))"

lemma example_second_value:
  "fst example_second = Inr [\<lparr>rc_Event = example_outbox_event\<lparr>oe_ID := ''event-2''\<rparr>, rc_Sequence = 2, rc_Attempts = 1\<rparr>]"
  by code_simp

theorem delivery_lease_exclusive_witness:
  "example_taken \<in> set (snd example_second) \<and> fst example_second =
     Inr [\<lparr>rc_Event = example_outbox_event\<lparr>oe_ID := ''event-2''\<rparr>, rc_Sequence = 2, rc_Attempts = 1\<rparr>]"
proof -
  have ok: "outbox_ok (dd_outbox example_shared)"
    by (simp add: outbox_ok_def outbox_row_ok_def example_shared_def example_taken_def leased_row_def new_outbox_row_def
        undelivered_def int32_max_def)
  have t: "undelivered example_taken" "ob_lease_owner example_taken = Some ''worker-1''"
    "ob_lease_expires_at example_taken = Some 9000" "example_taken \<in> set (dd_outbox example_shared)"
    by (simp_all add: example_taken_def leased_row_def new_outbox_row_def undelivered_def example_shared_def)
  have "example_second = (Inr [\<lparr>rc_Event = example_outbox_event\<lparr>oe_ID := ''event-2''\<rparr>, rc_Sequence = 2, rc_Attempts = 1\<rparr>],
      snd example_second)"
    using example_second_value by (metis prod.collapse)
  from delivery_lease_exclusive [OF ok t(4,1,2,3) _ _ _ this [unfolded example_second_def]] show ?thesis
    using example_second_value by (simp add: Truncate_us_def example_second_def)
qed

end
