(* ===== verification/Collector_Worker.thy ===== *)
theory Collector_Worker
  imports Execution_Grants Task_Authority Go_Strings
begin

text \<open>
  One bounded attempt of a collector: \<^verbatim>\<open>Worker.Run\<close> of \<^verbatim>\<open>internal/collector/worker.go\<close>, with the
  data of \<^verbatim>\<open>internal/transport/transport.go\<close> and its stub adapter.

  The task repository is the record of the operations \<^verbatim>\<open>Run\<close> calls.  The authoriser, the grant issuer,
  the credential exchange, the transport and the sink may read the repository and change a world of
  their own; \<open>wv_Quote\<close> is the formatting verb \<^verbatim>\<open>%q\<close> of the error texts, which are stored with the task.
  Between two calls other processes may do anything to the repository: \<open>others k\<close> is what happens before the \<open>k\<close>-th call, and \<open>repo k\<close> how the repository answers it (12 is the call that
  returns a failed task).  The clock is read at fixed points, numbered in program order.
  A configured worker has all its services; \<open>Worker_valid\<close> is the rest of the configuration check.
\<close>

section \<open>Interfaces\<close>

record 'w task_repository =
  tr_Acquire :: "string \<Rightarrow> string \<Rightarrow> gotime \<Rightarrow> duration \<Rightarrow> 'w \<Rightarrow> (task_error + lease) \<times> 'w"
  tr_StartExecution :: "string \<Rightarrow> string \<Rightarrow> int \<Rightarrow> gotime \<Rightarrow> 'w \<Rightarrow> task_error option \<times> 'w"
  tr_Get :: "string \<Rightarrow> 'w \<Rightarrow> task_error + task"
  tr_RecordExecutionAuthority :: "string \<Rightarrow> string \<Rightarrow> int \<Rightarrow> string \<Rightarrow> string \<Rightarrow> gotime \<Rightarrow> 'w \<Rightarrow> task_error option \<times> 'w"
  tr_BeginCommit :: "string \<Rightarrow> string \<Rightarrow> int \<Rightarrow> gotime \<Rightarrow> 'w \<Rightarrow> task_error option \<times> 'w"
  tr_Commit :: "string \<Rightarrow> string \<Rightarrow> int \<Rightarrow> string \<Rightarrow> string \<Rightarrow> gotime \<Rightarrow> 'w \<Rightarrow> task_error option \<times> 'w"
  tr_Retry :: "string \<Rightarrow> string \<Rightarrow> int \<Rightarrow> gotime \<Rightarrow> string option \<Rightarrow> 'w \<Rightarrow> task_error option \<times> 'w"

record target_connection =
  tc_TargetID :: string
  tc_Endpoint :: string
  tc_CredentialToken :: string
  tc_CredentialExpiry :: gotime
  tc_CredentialClass :: string

record bounded_operation =
  bo_RecipeID :: string
  bo_RecipeVersion :: string
  bo_MaximumDuration :: duration
  bo_MaximumBytes :: int

record captured_bytes =
  cb_TargetID :: string
  cb_Payload :: string
  cb_Digest :: string
  cb_MediaType :: string
  cb_CapturedAt :: gotime

record execution_request =
  er_CollectorID :: string
  er_Task :: task
  er_FencingToken :: int
  er_MaximumDuration :: duration
  er_MaximumBytes :: int
  er_EvaluatedAt :: gotime

record execution_authorization =
  ea_DecisionID :: string
  ea_MaximumDuration :: duration
  ea_MaximumBytes :: int

record ('w, 'x) worker_services =
  wv_Authorize :: "execution_request \<Rightarrow> 'w \<Rightarrow> 'x \<Rightarrow> (string + execution_authorization) \<times> 'x"
  wv_Issue :: "execution_grant \<Rightarrow> 'w \<Rightarrow> 'x \<Rightarrow> (string + execution_grant) \<times> 'x"
  wv_Exchange :: "execution_grant \<Rightarrow> exchange_request \<Rightarrow> 'w \<Rightarrow> 'x \<Rightarrow> (string + session_credential) \<times> 'x"
  wv_Execute :: "target_connection \<Rightarrow> bounded_operation \<Rightarrow> 'w \<Rightarrow> 'x \<Rightarrow> (string + captured_bytes) \<times> 'x"
  wv_Quote :: "string \<Rightarrow> string"
  wv_WriteCaptured :: "task \<Rightarrow> lease \<Rightarrow> captured_bytes \<Rightarrow> 'w \<Rightarrow> 'x \<Rightarrow> (string + string \<times> string) \<times> 'x"

record worker =
  wk_ID :: string
  wk_LeaseDuration :: duration
  wk_GrantTTL :: duration
  wk_MaximumDuration :: duration
  wk_MaximumBytes :: int

datatype worker_error =
    WorkerConfig
  | RepositoryError task_error
  | RandomError
  | AttemptFailed string "task_error option"

section \<open>An attempt\<close>

text \<open>
  The steps of an attempt run on the repository and the services' world; the first error ends it.
\<close>

type_synonym ('w, 'x, 'a) attempt = "'w \<times> 'x \<Rightarrow> (worker_error + 'a) \<times> 'w \<times> 'x"

definition bind_attempt :: "('w, 'x, 'a) attempt \<Rightarrow> ('a \<Rightarrow> ('w, 'x, 'b) attempt) \<Rightarrow> ('w, 'x, 'b) attempt" where
  "bind_attempt m g s = (case m s of (Inl e, s') \<Rightarrow> (Inl e, s') | (Inr x, s') \<Rightarrow> g x s')"

definition give_up :: "worker_error \<Rightarrow> ('w, 'x, 'a) attempt" where
  "give_up e s = (Inl e, s)"

text \<open>A repository call, after the activity of other processes.\<close>

definition repo_call :: "('w \<Rightarrow> 'w) \<Rightarrow> ('w \<Rightarrow> (task_error + 'a) \<times> 'w) \<Rightarrow> ('w, 'x, 'a) attempt" where
  "repo_call before call s =
     (case call (before (fst s)) of
        (Inl e, w) \<Rightarrow> (Inl (RepositoryError e), w, snd s)
      | (Inr x, w) \<Rightarrow> (Inr x, w, snd s))"

definition done_or :: "task_error option \<times> 'w \<Rightarrow> (task_error + unit) \<times> 'w" where
  "done_or r = (case r of (None, w) \<Rightarrow> (Inr (), w) | (Some e, w) \<Rightarrow> (Inl e, w))"

text \<open>\<^verbatim>\<open>fmt.Errorf("... %q: %w", taskID, err)\<close>.\<close>

definition wrapped :: "(string \<Rightarrow> string) \<Rightarrow> string \<Rightarrow> string \<Rightarrow> string \<Rightarrow> string" where
  "wrapped q what taskID err = what @ q taskID @ '': '' @ err"

definition failAttempt ::
  "'w task_repository \<Rightarrow> ('w \<Rightarrow> 'w) \<Rightarrow> worker \<Rightarrow> string \<Rightarrow> lease \<Rightarrow> gotime \<Rightarrow> string \<Rightarrow> ('w, 'x, 'a) attempt" where
  "failAttempt repo before wk taskID lease failedAt cause s =
     (case tr_Retry repo taskID (wk_ID wk) (ls_FencingToken lease) failedAt (Some cause) (before (fst s)) of
        (r, w) \<Rightarrow> (Inl (AttemptFailed cause r), w, snd s))"

text \<open>A call of a service; its failure returns the task for a retry.\<close>

definition service_call ::
  "('w \<Rightarrow> 'w) \<Rightarrow> ('w \<Rightarrow> 'x \<Rightarrow> (string + 'a) \<times> 'x) \<Rightarrow> (string \<Rightarrow> ('w, 'x, 'a) attempt) \<Rightarrow> ('w, 'x, 'a) attempt" where
  "service_call before call handle s =
     (case call (before (fst s)) (snd s) of
        (Inl e, x) \<Rightarrow> handle e (before (fst s), x)
      | (Inr v, x) \<Rightarrow> (Inr v, before (fst s), x))"

text \<open>\<^verbatim>\<open>randomID\<close> on the bytes that \<^verbatim>\<open>rand.Read\<close> yields, \<open>None\<close> for its failure.\<close>

definition worker_randomID :: "string \<Rightarrow> string option \<Rightarrow> ('w, 'x, string) attempt" where
  "worker_randomID prefix bytes s =
     (case bytes of None \<Rightarrow> (Inl RandomError, s) | Some b \<Rightarrow> (Inr (prefix @ ''-'' @ hex_EncodeToString b), s))"

definition Worker_valid :: "worker \<Rightarrow> bool" where
  "Worker_valid wk \<longleftrightarrow>
     wk_ID wk \<noteq> '''' \<and> 0 < wk_LeaseDuration wk \<and> 0 < wk_MaximumDuration wk \<and> 0 < wk_MaximumBytes wk \<and> 0 < wk_GrantTTL wk"

definition grant_request ::
  "worker \<Rightarrow> task \<Rightarrow> lease \<Rightarrow> execution_authorization \<Rightarrow> string \<Rightarrow> string \<Rightarrow> gotime \<Rightarrow> gotime \<Rightarrow> execution_grant" where
  "grant_request wk task lease authorization grantID nonce issuedAt expiresAt =
     \<lparr>eg_GrantID = grantID, eg_Nonce = nonce, eg_TenantID = tk_TenantID task, eg_CollectorSPIFFEID = wk_ID wk,
      eg_ResolutionID = tk_ResolutionID task, eg_TaskID = tk_ID task, eg_TargetSnapshotID = tk_TargetSnapshotID task,
      eg_TargetSnapshotDigest = tk_TargetSnapshotHash task, eg_TargetID = tk_TargetID task, eg_RecipeID = tk_RecipeID task,
      eg_RecipeVersion = tk_RecipeVersion task, eg_ParameterDigest = '''', eg_FencingToken = ls_FencingToken lease,
      eg_TriggerDecisionID = tk_TriggerDecisionID task, eg_PlanningDecisionID = tk_PlanningDecisionID task,
      eg_ExecutionDecisionID = ea_DecisionID authorization, eg_ApprovalGrantID = tk_ApprovalGrantID task, eg_Audience = '''',
      eg_NotBefore = issuedAt, eg_ExpiresAt = expiresAt, eg_MaximumDuration = ea_MaximumDuration authorization,
      eg_MaximumResponseBytes = ea_MaximumBytes authorization, eg_CredentialClass = ''network-read'', eg_SingleUse = True,
      eg_Issuer = '''', eg_SignatureAlgorithm = '''', eg_SigningKeyRef = '''', eg_Signature = ''''\<rparr>"

definition limits_expanded :: "worker \<Rightarrow> execution_authorization \<Rightarrow> bool" where
  "limits_expanded wk a \<longleftrightarrow>
     ea_DecisionID a = '''' \<or> ea_MaximumDuration a \<le> 0 \<or> ea_MaximumBytes a \<le> 0 \<or>
     wk_MaximumDuration wk < ea_MaximumDuration a \<or> wk_MaximumBytes wk < ea_MaximumBytes a"

definition credential_mismatch :: "session_credential \<Rightarrow> execution_grant \<Rightarrow> task \<Rightarrow> lease \<Rightarrow> bool" where
  "credential_mismatch c grant task lease \<longleftrightarrow>
     sc_Token c = '''' \<or> sc_GrantID c \<noteq> eg_GrantID grant \<or> sc_TargetID c \<noteq> tk_TargetID task \<or>
     sc_RecipeID c \<noteq> tk_RecipeID task \<or> sc_FencingToken c \<noteq> ls_FencingToken lease"

text \<open>From the lease to the authorised attempt: re-authorisation, grant and recorded authority.\<close>

definition authorise_attempt ::
  "(nat \<Rightarrow> 'w task_repository) \<Rightarrow> ('w, 'x) worker_services \<Rightarrow> (nat \<Rightarrow> 'w \<Rightarrow> 'w) \<Rightarrow> (nat \<Rightarrow> gotime) \<Rightarrow> (nat \<Rightarrow> string option)
   \<Rightarrow> worker \<Rightarrow> string \<Rightarrow> lease \<Rightarrow> task \<Rightarrow> ('w, 'x, execution_authorization \<times> execution_grant) attempt" where
  "authorise_attempt repo sv others now random wk taskID lease task =
     bind_attempt
       (service_call (others 3) (wv_Authorize sv
            \<lparr>er_CollectorID = wk_ID wk, er_Task = task, er_FencingToken = ls_FencingToken lease,
             er_MaximumDuration = wk_MaximumDuration wk, er_MaximumBytes = wk_MaximumBytes wk, er_EvaluatedAt = now 2\<rparr>)
          (failAttempt (repo 12) (others 12) wk taskID lease (now 3) \<circ> wrapped (wv_Quote sv) ''re-authorize task '' taskID))
       (\<lambda>authorization.
          if limits_expanded wk authorization then
            failAttempt (repo 12) (others 12) wk taskID lease (now 3) ''execution authorization returned invalid or expanded limits''
          else
            let issuedAt = now 3;
                expiresAt = (if ls_ExpiresAt lease < issuedAt + wk_GrantTTL wk then ls_ExpiresAt lease else issuedAt + wk_GrantTTL wk)
            in if expiresAt < issuedAt + ea_MaximumDuration authorization then
                 failAttempt (repo 12) (others 12) wk taskID lease (now 4)
                   ''lease and grant validity do not cover authorised execution duration''
               else
                 bind_attempt (worker_randomID ''grant'' (random 0)) (\<lambda>grantID.
                 bind_attempt (worker_randomID ''nonce'' (random 1)) (\<lambda>nonce.
                 bind_attempt
                   (service_call (others 4) (wv_Issue sv (grant_request wk task lease authorization grantID nonce issuedAt expiresAt))
                      (failAttempt (repo 12) (others 12) wk taskID lease (now 4) \<circ> wrapped (wv_Quote sv) ''issue execution grant for task '' taskID))
                   (\<lambda>grant.
                 bind_attempt
                   (repo_call (others 5) (\<lambda>w. done_or (tr_RecordExecutionAuthority (repo 5) taskID (wk_ID wk) (ls_FencingToken lease)
                      (ea_DecisionID authorization) (eg_GrantID grant) (now 4) w)))
                   (\<lambda>_ s. (Inr (authorization, grant), s))))))"

text \<open>Exchange of the grant and execution against the target.\<close>

definition execute_attempt ::
  "(nat \<Rightarrow> 'w task_repository) \<Rightarrow> ('w, 'x) worker_services \<Rightarrow> (nat \<Rightarrow> 'w \<Rightarrow> 'w) \<Rightarrow> (nat \<Rightarrow> gotime) \<Rightarrow> worker \<Rightarrow> string \<Rightarrow> lease \<Rightarrow> task
   \<Rightarrow> execution_authorization \<Rightarrow> execution_grant \<Rightarrow> ('w, 'x, captured_bytes) attempt" where
  "execute_attempt repo sv others now wk taskID lease task authorization grant =
     bind_attempt
       (service_call (others 7) (wv_Exchange sv grant
            \<lparr>xr_PresentingSPIFFEID = wk_ID wk, xr_TaskID = tk_ID task, xr_TargetID = tk_TargetID task,
             xr_RecipeID = tk_RecipeID task, xr_RecipeVersion = tk_RecipeVersion task,
             xr_FencingToken = ls_FencingToken lease, xr_Now = now 5\<rparr>)
          (failAttempt (repo 12) (others 12) wk taskID lease (now 6) \<circ> wrapped (wv_Quote sv) ''exchange execution grant for task '' taskID))
       (\<lambda>credential.
          if credential_mismatch credential grant task lease then
            failAttempt (repo 12) (others 12) wk taskID lease (now 6) ''credential broker returned mismatched credential''
          else
            bind_attempt
              (service_call (others 8) (wv_Execute sv
                   \<lparr>tc_TargetID = tk_TargetID task, tc_Endpoint = tk_TargetEndpoint task, tc_CredentialToken = sc_Token credential,
                    tc_CredentialExpiry = sc_ExpiresAt credential, tc_CredentialClass = sc_CredentialClass credential\<rparr>
                   \<lparr>bo_RecipeID = tk_RecipeID task, bo_RecipeVersion = tk_RecipeVersion task,
                    bo_MaximumDuration = ea_MaximumDuration authorization, bo_MaximumBytes = ea_MaximumBytes authorization\<rparr>)
                 (failAttempt (repo 12) (others 12) wk taskID lease (now 6) \<circ> wrapped (wv_Quote sv) ''execute task '' taskID))
              (\<lambda>captured.
                 if wk_MaximumBytes wk < int (length (cb_Payload captured)) then
                   failAttempt (repo 12) (others 12) wk taskID lease (now 6) 
                     (''transport returned '' @ itoa (int (length (cb_Payload captured))) @ '' bytes above the '' @
                      itoa (wk_MaximumBytes wk) @ '' byte limit'')
                 else (\<lambda>s. (Inr captured, s))))"

text \<open>The attempt under a lease whose execution has started, and the whole run.\<close>

definition run_leased ::
  "(nat \<Rightarrow> 'w task_repository) \<Rightarrow> ('w, 'x) worker_services \<Rightarrow> (nat \<Rightarrow> 'w \<Rightarrow> 'w) \<Rightarrow> (nat \<Rightarrow> gotime) \<Rightarrow> (nat \<Rightarrow> string option)
   \<Rightarrow> worker \<Rightarrow> string \<Rightarrow> lease \<Rightarrow> ('w, 'x, unit) attempt" where
  "run_leased repo sv others now random wk taskID lease =
     bind_attempt (repo_call (others 2) (\<lambda>w. (tr_Get (repo 2) taskID w, w))) (\<lambda>task.
     bind_attempt (authorise_attempt repo sv others now random wk taskID lease task) (\<lambda>(authorization, grant).
     bind_attempt (repo_call (others 6) (\<lambda>w. (tr_Get (repo 6) taskID w, w))) (\<lambda>task.
     bind_attempt (execute_attempt repo sv others now wk taskID lease task authorization grant) (\<lambda>captured.
     bind_attempt
       (service_call (others 9) (wv_WriteCaptured sv task lease captured)
          (failAttempt (repo 12) (others 12) wk taskID lease (now 6) \<circ> wrapped (wv_Quote sv) ''persist captured evidence for task '' taskID))
       (\<lambda>(attemptID, evidenceID).
     bind_attempt (repo_call (others 10) (\<lambda>w. done_or (tr_BeginCommit (repo 10) taskID (wk_ID wk) (ls_FencingToken lease) (now 6) w))) (\<lambda>_.
     repo_call (others 11) (\<lambda>w. done_or (tr_Commit (repo 11) taskID (wk_ID wk) (ls_FencingToken lease) attemptID evidenceID (now 7) w))))))))"

definition Worker_Run ::
  "(nat \<Rightarrow> 'w task_repository) \<Rightarrow> ('w, 'x) worker_services \<Rightarrow> (nat \<Rightarrow> 'w \<Rightarrow> 'w) \<Rightarrow> (nat \<Rightarrow> gotime) \<Rightarrow> (nat \<Rightarrow> string option)
   \<Rightarrow> worker \<Rightarrow> string \<Rightarrow> ('w, 'x, unit) attempt" where
  "Worker_Run repo sv others now random wk taskID =
     (if \<not> Worker_valid wk then give_up WorkerConfig
      else
        bind_attempt (repo_call (others 0) (tr_Acquire (repo 0) taskID (wk_ID wk) (now 0) (wk_LeaseDuration wk))) (\<lambda>lease.
        bind_attempt (repo_call (others 1) (\<lambda>w. done_or (tr_StartExecution (repo 1) taskID (wk_ID wk) (ls_FencingToken lease) (now 1) w))) (\<lambda>_.
        run_leased repo sv others now random wk taskID lease)))"

text \<open>\<^verbatim>\<open>transport.StubAdapter\<close>, without a cancelled context; \<open>payload\<close> and \<open>mediaType\<close> unset are \<open>None\<close> and \<open>''''\<close>.\<close>

definition StubAdapter_Execute ::
  "(string \<Rightarrow> string) \<Rightarrow> gotime \<Rightarrow> string option \<Rightarrow> string \<Rightarrow> target_connection \<Rightarrow> bounded_operation \<Rightarrow> string + captured_bytes" where
  "StubAdapter_Execute sha256 executedAt payload mediaType target operation =
     (if tc_TargetID target = '''' then Inl ''target id is required''
      else if tc_CredentialToken target = '''' \<or> IsZero (tc_CredentialExpiry target) then Inl ''bounded target credential is required''
      else if \<not> executedAt < tc_CredentialExpiry target then Inl ''bounded target credential has expired''
      else if bo_RecipeID operation = '''' then Inl ''recipe id is required''
      else if bo_MaximumDuration operation \<le> 0 \<or> bo_MaximumBytes operation \<le> 0
      then Inl ''positive duration and response byte limits are required''
      else let payload = (case payload of None \<Rightarrow> ''ok'' | Some p \<Rightarrow> p)
           in if bo_MaximumBytes operation < int (length payload) then Inl (''transport response exceeds '' @ itoa (bo_MaximumBytes operation) @ '' byte limit'')
              else Inr \<lparr>cb_TargetID = tc_TargetID target, cb_Payload = payload, cb_Digest = sha256 payload,
                        cb_MediaType = (if mediaType = '''' then ''application/octet-stream'' else mediaType),
                        cb_CapturedAt = executedAt\<rparr>)"

definition MemorySink_WriteCaptured :: "task \<Rightarrow> lease \<Rightarrow> captured_bytes \<Rightarrow> string + string \<times> string" where
  "MemorySink_WriteCaptured task lease captured =
     (if cb_Payload captured = '''' then Inl ''captured payload is empty''
      else Inr (''attempt-'' @ tk_ID task @ ''-'' @ itoa (ls_FencingToken lease),
                ''evidence-'' @ tk_ID task @ ''-'' @ hex_EncodeToString (take 8 (cb_Digest captured))))"

section \<open>Reasoning about attempts\<close>

lemma bind_attempt_Inr:
  "bind_attempt m g s = (Inr y, s'') \<longleftrightarrow> (\<exists>x s'. m s = (Inr x, s') \<and> g x s' = (Inr y, s''))"
  by (auto simp: bind_attempt_def split: prod.splits sum.splits)

lemma repo_call_Inr:
  "repo_call before call s = (Inr v, s') \<longleftrightarrow> (\<exists>w. call (before (fst s)) = (Inr v, w) \<and> s' = (w, snd s))"
  by (auto simp: repo_call_def split: prod.splits sum.splits)

lemma done_or_Inr: "done_or r = (Inr u, w) \<longleftrightarrow> r = (None, w)"
  by (auto simp: done_or_def split: prod.splits option.splits)

lemma failAttempt_Inl: "\<exists>c r s'. failAttempt repo before wk taskID lease at cause s = (Inl (AttemptFailed c r), s')"
  by (auto simp: failAttempt_def split: prod.splits)

lemma failAttempt_Inr [simp]: "failAttempt repo before wk taskID lease at cause s \<noteq> (Inr v, s')"
  by (auto simp: failAttempt_def split: prod.splits)

lemma service_call_Inr:
  "service_call before call (failAttempt repo b wk taskID lease at \<circ> msg) s = (Inr v, s') \<longleftrightarrow>
     (\<exists>x. call (before (fst s)) (snd s) = (Inr v, x) \<and> s' = (before (fst s), x))"
  by (auto simp: service_call_def split: prod.splits sum.splits)

lemma randomID_Inr: "worker_randomID prefix bytes s = (Inr v, s') \<longleftrightarrow> (\<exists>b. bytes = Some b \<and> v = prefix @ ''-'' @ hex_EncodeToString b \<and> s' = s)"
  by (auto simp: worker_randomID_def split: option.splits)

lemmas attempt_Inr = bind_attempt_Inr repo_call_Inr done_or_Inr service_call_Inr randomID_Inr

section \<open>Every execution is authorised\<close>

text \<open>Services that record what they authorise, grant and hand out, and the executions they perform.\<close>

record worker_log =
  lg_authorizations :: "(execution_request \<times> execution_authorization) list"
  lg_grants :: "(execution_grant \<times> execution_grant) list"
  lg_exchanges :: "(execution_grant \<times> exchange_request \<times> session_credential) list"
  lg_executions :: "(target_connection \<times> bounded_operation) list"

definition logged :: "('w, 'x) worker_services \<Rightarrow> ('w, 'x \<times> worker_log) worker_services" where
  "logged sv =
     \<lparr>wv_Authorize = (\<lambda>r w (x, l). case wv_Authorize sv r w x of
         (Inl e, x') \<Rightarrow> (Inl e, x', l)
       | (Inr a, x') \<Rightarrow> (Inr a, x', l\<lparr>lg_authorizations := lg_authorizations l @ [(r, a)]\<rparr>)),
      wv_Issue = (\<lambda>q w (x, l). case wv_Issue sv q w x of
         (Inl e, x') \<Rightarrow> (Inl e, x', l)
       | (Inr g, x') \<Rightarrow> (Inr g, x', l\<lparr>lg_grants := lg_grants l @ [(q, g)]\<rparr>)),
      wv_Exchange = (\<lambda>g r w (x, l). case wv_Exchange sv g r w x of
         (Inl e, x') \<Rightarrow> (Inl e, x', l)
       | (Inr c, x') \<Rightarrow> (Inr c, x', l\<lparr>lg_exchanges := lg_exchanges l @ [(g, r, c)]\<rparr>)),
      wv_Execute = (\<lambda>c b w (x, l). case wv_Execute sv c b w x of
         (v, x') \<Rightarrow> (v, x', l\<lparr>lg_executions := lg_executions l @ [(c, b)]\<rparr>)),
      wv_Quote = wv_Quote sv,
      wv_WriteCaptured = (\<lambda>t ls b w (x, l). case wv_WriteCaptured sv t ls b w x of (v, x') \<Rightarrow> (v, x', l))\<rparr>"

definition empty_log :: worker_log where
  "empty_log = \<lparr>lg_authorizations = [], lg_grants = [], lg_exchanges = [], lg_executions = []\<rparr>"

lemma logged_Inr:
  "wv_Authorize (logged sv) r w (x, l) = (Inr a, x', l') \<Longrightarrow> l' = l\<lparr>lg_authorizations := lg_authorizations l @ [(r, a)]\<rparr>"
  "wv_Issue (logged sv) q w (x, l) = (Inr g, x', l') \<Longrightarrow> l' = l\<lparr>lg_grants := lg_grants l @ [(q, g)]\<rparr>"
  "wv_Exchange (logged sv) g rq w (x, l) = (Inr cred, x', l') \<Longrightarrow> l' = l\<lparr>lg_exchanges := lg_exchanges l @ [(g, rq, cred)]\<rparr>"
  by (auto simp: logged_def split: prod.splits sum.splits)

lemma logged_Inl:
  "wv_Authorize (logged sv) r w (x, l) = (Inl e, x', l') \<Longrightarrow> l' = l"
  "wv_Issue (logged sv) q w (x, l) = (Inl e, x', l') \<Longrightarrow> l' = l"
  "wv_Exchange (logged sv) g rq w (x, l) = (Inl e, x', l') \<Longrightarrow> l' = l"
  by (auto simp: logged_def split: prod.splits sum.splits)

lemma logged_any:
  "wv_Execute (logged sv) c b w (x, l) = (v, x', l') \<Longrightarrow> l' = l\<lparr>lg_executions := lg_executions l @ [(c, b)]\<rparr>"
  "wv_WriteCaptured (logged sv) t ls p w (x, l) = (u, x', l') \<Longrightarrow> l' = l"
  by (auto simp: logged_def split: prod.splits)

text \<open>Triples on the log: from \<open>P\<close> a step goes on with \<open>Q\<close> or ends the attempt with \<open>E\<close>.\<close>

definition leads ::
  "(worker_log \<Rightarrow> bool) \<Rightarrow> ('w, 'x \<times> worker_log, 'a) attempt \<Rightarrow> ('a \<Rightarrow> worker_log \<Rightarrow> bool) \<Rightarrow> (worker_log \<Rightarrow> bool) \<Rightarrow> bool" where
  "leads P m Q E \<longleftrightarrow>
     (\<forall>w x l r w' x' l'. P l \<longrightarrow> m (w, x, l) = (r, w', x', l') \<longrightarrow> (case r of Inl e \<Rightarrow> E l' | Inr v \<Rightarrow> Q v l'))"

lemma leadsI:
  "(\<And>w x l r w' x' l'. P l \<Longrightarrow> m (w, x, l) = (r, w', x', l') \<Longrightarrow> (case r of Inl e \<Rightarrow> E l' | Inr v \<Rightarrow> Q v l')) \<Longrightarrow> leads P m Q E"
  unfolding leads_def by blast

lemma leadsD:
  "leads P m Q E \<Longrightarrow> P l \<Longrightarrow> m (w, x, l) = (r, w', x', l') \<Longrightarrow> (case r of Inl e \<Rightarrow> E l' | Inr v \<Rightarrow> Q v l')"
  unfolding leads_def by blast

lemma leads_bind:
  assumes "leads P m Q E" and "\<And>v. leads (Q v) (g v) R E"
  shows "leads P (bind_attempt m g) R E"
proof (rule leadsI)
  fix w x l r w' x' l' assume "P l" and b: "bind_attempt m g (w, x, l) = (r, w', x', l')"
  obtain r1 w1 x1 l1 where m1: "m (w, x, l) = (r1, w1, x1, l1)" by (cases "m (w, x, l)")
  have "case r1 of Inl e \<Rightarrow> E l1 | Inr v \<Rightarrow> Q v l1" by (rule leadsD [OF assms(1) \<open>P l\<close> m1])
  then show "case r of Inl e \<Rightarrow> E l' | Inr v \<Rightarrow> R v l'"
    using b m1 by (cases r1) (auto simp: bind_attempt_def dest: leadsD [OF assms(2)])
qed

lemma leads_repo:
  assumes "\<And>l. P l \<Longrightarrow> E l" and "\<And>l v w. P l \<Longrightarrow> fst (call w) = Inr v \<Longrightarrow> Q v l"
  shows "leads P (repo_call before call) Q E"
  by (rule leadsI) (auto simp: repo_call_def split: prod.splits sum.splits intro: assms(1) assms(2) [OF _ arg_cong [where f = fst, THEN trans]])

lemma leads_fail: "(\<And>l. P l \<Longrightarrow> E l) \<Longrightarrow> leads P (failAttempt repo before wk i lease at cause) Q E"
  by (rule leadsI) (auto simp: failAttempt_def split: prod.splits)

lemma leads_random:
  assumes "\<And>l. P l \<Longrightarrow> E l" and "\<And>v. leads P (g v) R E"
  shows "leads P (bind_attempt (worker_randomID prefix bytes) g) R E"
proof (rule leads_bind)
  show "leads P (worker_randomID prefix bytes) (\<lambda>_. P) E"
    by (rule leadsI) (auto simp: worker_randomID_def split: option.splits intro: assms(1))
qed (rule assms(2))

lemma leads_return: "(\<And>l. P l \<Longrightarrow> Q v l) \<Longrightarrow> leads P (Pair (Inr v)) Q E"
  by (rule leadsI) auto

lemma leads_service:
  assumes "\<And>w x l v x' l'. P l \<Longrightarrow> call w (x, l) = (Inr v, x', l') \<Longrightarrow> Q v l'"
    and "\<And>w x l e x' l'. P l \<Longrightarrow> call w (x, l) = (Inl e, x', l') \<Longrightarrow> E l'"
  shows "leads P (service_call before call (failAttempt repo b wk i lease at \<circ> msg)) Q E"
  by (rule leadsI) (auto simp: service_call_def failAttempt_def split: prod.splits sum.splits intro: assms)

text \<open>What an attempt under a lease has settled before it may execute, and the execution that follows.\<close>

definition authorised_for ::
  "(nat \<Rightarrow> 'w task_repository) \<Rightarrow> (nat \<Rightarrow> gotime) \<Rightarrow> worker \<Rightarrow> string \<Rightarrow> lease \<Rightarrow> task \<Rightarrow> execution_request \<Rightarrow> execution_authorization
   \<Rightarrow> execution_grant \<Rightarrow> execution_grant \<Rightarrow> bool" where
  "authorised_for repo now wk taskID lease task er a gq g \<longleftrightarrow>
     er = \<lparr>er_CollectorID = wk_ID wk, er_Task = task, er_FencingToken = ls_FencingToken lease,
           er_MaximumDuration = wk_MaximumDuration wk, er_MaximumBytes = wk_MaximumBytes wk, er_EvaluatedAt = now 2\<rparr> \<and>
     \<not> limits_expanded wk a \<and>
     (\<exists>grantID nonce e. gq = grant_request wk task lease a grantID nonce (now 3) e \<and> e \<le> ls_ExpiresAt lease \<and>
        now 3 + ea_MaximumDuration a \<le> e) \<and>
     (\<exists>w. fst (tr_RecordExecutionAuthority (repo 5) taskID (wk_ID wk) (ls_FencingToken lease)
        (ea_DecisionID a) (eg_GrantID g) (now 4) w) = None)"

definition executed_for ::
  "worker \<Rightarrow> lease \<Rightarrow> task \<Rightarrow> execution_authorization \<Rightarrow> execution_grant \<Rightarrow> exchange_request \<Rightarrow> session_credential
   \<Rightarrow> target_connection \<Rightarrow> bounded_operation \<Rightarrow> bool" where
  "executed_for wk lease task a g rq cred c b \<longleftrightarrow>
     xr_PresentingSPIFFEID rq = wk_ID wk \<and> xr_TaskID rq = tk_ID task \<and> xr_TargetID rq = tk_TargetID task \<and>
     xr_RecipeID rq = tk_RecipeID task \<and> xr_RecipeVersion rq = tk_RecipeVersion task \<and> xr_FencingToken rq = ls_FencingToken lease \<and>
     sc_Token cred \<noteq> '''' \<and> sc_GrantID cred = eg_GrantID g \<and> sc_TargetID cred = tk_TargetID task \<and>
     sc_RecipeID cred = tk_RecipeID task \<and> sc_FencingToken cred = ls_FencingToken lease \<and>
     c = \<lparr>tc_TargetID = tk_TargetID task, tc_Endpoint = tk_TargetEndpoint task, tc_CredentialToken = sc_Token cred,
          tc_CredentialExpiry = sc_ExpiresAt cred, tc_CredentialClass = sc_CredentialClass cred\<rparr> \<and>
     b = \<lparr>bo_RecipeID = tk_RecipeID task, bo_RecipeVersion = tk_RecipeVersion task,
          bo_MaximumDuration = ea_MaximumDuration a, bo_MaximumBytes = ea_MaximumBytes a\<rparr>"

definition authorised_log ::
  "(nat \<Rightarrow> 'w task_repository) \<Rightarrow> (nat \<Rightarrow> gotime) \<Rightarrow> worker \<Rightarrow> string \<Rightarrow> lease \<Rightarrow> task \<Rightarrow> execution_authorization \<Rightarrow> execution_grant
   \<Rightarrow> worker_log \<Rightarrow> bool" where
  "authorised_log repo now wk taskID lease task a g l \<longleftrightarrow>
     (\<exists>er gq. l = \<lparr>lg_authorizations = [(er, a)], lg_grants = [(gq, g)], lg_exchanges = [], lg_executions = []\<rparr> \<and>
        authorised_for repo now wk taskID lease task er a gq g)"

definition executed_log ::
  "(nat \<Rightarrow> 'w task_repository) \<Rightarrow> (nat \<Rightarrow> gotime) \<Rightarrow> worker \<Rightarrow> string \<Rightarrow> lease \<Rightarrow> task \<Rightarrow> task \<Rightarrow> worker_log \<Rightarrow> bool" where
  "executed_log repo now wk taskID lease task task' l \<longleftrightarrow>
     (\<exists>er a gq g rq cred c b. l = \<lparr>lg_authorizations = [(er, a)], lg_grants = [(gq, g)], lg_exchanges = [(g, rq, cred)], lg_executions = [(c, b)]\<rparr> \<and>
        authorised_for repo now wk taskID lease task er a gq g \<and> executed_for wk lease task' a g rq cred c b)"

lemma authorise_leads:
  "leads (\<lambda>l. l = empty_log) (authorise_attempt repo (logged sv) others now random wk taskID lease task)
     (\<lambda>(a, g). authorised_log repo now wk taskID lease task a g) (\<lambda>l. lg_executions l = [])"
proof -
  let ?er = "\<lparr>er_CollectorID = wk_ID wk, er_Task = task, er_FencingToken = ls_FencingToken lease,
    er_MaximumDuration = wk_MaximumDuration wk, er_MaximumBytes = wk_MaximumBytes wk, er_EvaluatedAt = now 2\<rparr>"
  let ?A = "\<lambda>a l. l = \<lparr>lg_authorizations = [(?er, a)], lg_grants = [], lg_exchanges = [], lg_executions = []\<rparr>"
  have issue: "leads (?A a)
     (bind_attempt
        (service_call (others 4) (wv_Issue (logged sv) (grant_request wk task lease a grantID nonce (now 3) e))
           (failAttempt (repo 12) (others 12) wk taskID lease (now 4) \<circ> msg))
        (\<lambda>grant. bind_attempt
           (repo_call (others 5) (\<lambda>w. done_or (tr_RecordExecutionAuthority (repo 5) taskID (wk_ID wk) (ls_FencingToken lease)
              (ea_DecisionID a) (eg_GrantID grant) (now 4) w)))
           (\<lambda>_ s. (Inr (a, grant), s))))
     (\<lambda>(a, g). authorised_log repo now wk taskID lease task a g) (\<lambda>l. lg_executions l = [])"
    if ok: "\<not> limits_expanded wk a" "e \<le> ls_ExpiresAt lease" "now 3 + ea_MaximumDuration a \<le> e" for a grantID nonce e msg
  proof -
    let ?q = "grant_request wk task lease a grantID nonce (now 3) e"
    let ?G = "\<lambda>g l. l = \<lparr>lg_authorizations = [(?er, a)], lg_grants = [(?q, g)], lg_exchanges = [], lg_executions = []\<rparr>"
    have "authorised_for repo now wk taskID lease task ?er a ?q g"
      if "fst (done_or (tr_RecordExecutionAuthority (repo 5) taskID (wk_ID wk) (ls_FencingToken lease) (ea_DecisionID a) (eg_GrantID g) (now 4) w)) = Inr u"
      for g w u
    proof -
      have "fst (tr_RecordExecutionAuthority (repo 5) taskID (wk_ID wk) (ls_FencingToken lease) (ea_DecisionID a) (eg_GrantID g) (now 4) w) = None"
        using that by (auto simp: done_or_def split: prod.splits option.splits)
      then show ?thesis using ok unfolding authorised_for_def by blast
    qed
    then have "authorised_log repo now wk taskID lease task a g l"
      if "?G g l" "fst (done_or (tr_RecordExecutionAuthority (repo 5) taskID (wk_ID wk) (ls_FencingToken lease) (ea_DecisionID a) (eg_GrantID g) (now 4) w)) = Inr u"
      for g l w u
      using that unfolding authorised_log_def by blast
    then have "leads (?G g) (bind_attempt
        (repo_call (others 5) (\<lambda>w. done_or (tr_RecordExecutionAuthority (repo 5) taskID (wk_ID wk) (ls_FencingToken lease)
           (ea_DecisionID a) (eg_GrantID g) (now 4) w)))
        (\<lambda>_ s. (Inr (a, g), s))) (\<lambda>(a, g). authorised_log repo now wk taskID lease task a g) (\<lambda>l. lg_executions l = [])" for g
      by (intro leads_bind [where Q = "\<lambda>_. authorised_log repo now wk taskID lease task a g"] leads_repo leads_return) simp_all
    then show ?thesis
      by (intro leads_bind [where Q = ?G] leads_service) (auto dest: logged_Inr logged_Inl)
  qed
  show ?thesis
    unfolding authorise_attempt_def Let_def
  proof (rule leads_bind [where Q = ?A], goal_cases)
    case 1
    show ?case by (rule leads_service) (auto simp: empty_log_def dest!: logged_Inr logged_Inl)
  next
    case (2 a)
    show ?case
      by (auto intro!: leads_fail leads_random issue)
  qed
qed

lemma execute_leads:
  "leads (authorised_log repo now wk taskID lease task a g)
     (execute_attempt repo (logged sv) others now wk taskID lease task' a g)
     (\<lambda>_. executed_log repo now wk taskID lease task task')
     (\<lambda>l. lg_executions l = [] \<or> executed_log repo now wk taskID lease task task' l)"
proof -
  let ?rq = "\<lparr>xr_PresentingSPIFFEID = wk_ID wk, xr_TaskID = tk_ID task', xr_TargetID = tk_TargetID task',
     xr_RecipeID = tk_RecipeID task', xr_RecipeVersion = tk_RecipeVersion task',
     xr_FencingToken = ls_FencingToken lease, xr_Now = now 5\<rparr>"
  let ?X = "\<lambda>cred l. \<exists>er gq. l = \<lparr>lg_authorizations = [(er, a)], lg_grants = [(gq, g)], lg_exchanges = [(g, ?rq, cred)], lg_executions = []\<rparr> \<and>
     authorised_for repo now wk taskID lease task er a gq g"
  let ?c = "\<lambda>cred. \<lparr>tc_TargetID = tk_TargetID task', tc_Endpoint = tk_TargetEndpoint task', tc_CredentialToken = sc_Token cred,
     tc_CredentialExpiry = sc_ExpiresAt cred, tc_CredentialClass = sc_CredentialClass cred\<rparr>"
  let ?b = "\<lparr>bo_RecipeID = tk_RecipeID task', bo_RecipeVersion = tk_RecipeVersion task',
     bo_MaximumDuration = ea_MaximumDuration a, bo_MaximumBytes = ea_MaximumBytes a\<rparr>"
  have exec: "executed_log repo now wk taskID lease task task' (l\<lparr>lg_executions := lg_executions l @ [(?c cred, ?b)]\<rparr>)"
    if "\<not> credential_mismatch cred g task' lease" "?X cred l" for cred l
  proof -
    have "executed_for wk lease task' a g ?rq cred (?c cred) ?b"
      using that(1) by (simp add: executed_for_def credential_mismatch_def)
    then show ?thesis using that(2) unfolding executed_log_def by auto
  qed
  show ?thesis
    unfolding execute_attempt_def
  proof (rule leads_bind [where Q = ?X], goal_cases)
    case 1
    show ?case by (rule leads_service) (auto simp: authorised_log_def dest!: logged_Inr logged_Inl)
  next
    case (2 cred)
    show ?case
    proof (cases "credential_mismatch cred g task' lease")
      case True
      then show ?thesis by (auto intro!: leads_fail)
    next
      case False
      show ?thesis
        unfolding if_not_P [OF False]
        by (rule leads_bind [where Q = "\<lambda>_. executed_log repo now wk taskID lease task task'"], rule leads_service)
          (auto intro: exec [OF False] intro!: leads_fail leads_return dest!: logged_any)
    qed
  qed
qed

lemma leads_weaken: "leads P m Q E \<Longrightarrow> (\<And>l. E l \<Longrightarrow> E' l) \<Longrightarrow> leads P m Q E'"
  unfolding leads_def by (fastforce split: sum.splits)

lemma leads_pre: "(\<And>l. P l \<Longrightarrow> C \<and> P' l) \<Longrightarrow> (C \<Longrightarrow> leads P' m Q E) \<Longrightarrow> leads P m Q E"
  unfolding leads_def by blast

text \<open>The log of a whole attempt under a lease.\<close>

definition log_authorised ::
  "(nat \<Rightarrow> 'w task_repository) \<Rightarrow> (nat \<Rightarrow> gotime) \<Rightarrow> worker \<Rightarrow> string \<Rightarrow> lease \<Rightarrow> worker_log \<Rightarrow> bool" where
  "log_authorised repo now wk taskID lease l \<longleftrightarrow>
     lg_executions l = [] \<or>
     (\<exists>task task' w2 w6. tr_Get (repo 2) taskID w2 = Inr task \<and> tr_Get (repo 6) taskID w6 = Inr task' \<and>
        executed_log repo now wk taskID lease task task' l)"

lemma run_leased_leads:
  "leads (\<lambda>l. l = empty_log) (run_leased repo (logged sv) others now random wk taskID lease)
     (\<lambda>_. log_authorised repo now wk taskID lease) (log_authorised repo now wk taskID lease)"
proof -
  let ?L = "log_authorised repo now wk taskID lease" and ?got = "\<lambda>n task. \<exists>w. tr_Get (repo n) taskID w = Inr task"
  have none: "?L l" if "lg_executions l = []" for l using that by (simp add: log_authorised_def)
  have some: "?L l" if "executed_log repo now wk taskID lease task task' l" "?got 2 task" "?got 6 task'" for l task task'
    using that unfolding log_authorised_def by blast
  have tail: "leads ?L (bind_attempt (service_call b1 (wv_WriteCaptured (logged sv) t lease p)
       (failAttempt r b2 wk taskID lease at \<circ> msg)) (\<lambda>(x, y). bind_attempt (repo_call b3 c3) (\<lambda>_. repo_call b4 (c4 x y)))) (\<lambda>_. ?L) ?L"
    for b1 t p r b2 at msg b3 c3 b4 c4
    by (rule leads_bind [where Q = "\<lambda>_. ?L"], rule leads_service)
      (auto dest!: logged_any intro!: leads_bind [where Q = "\<lambda>_. ?L"] leads_repo)
  have exec: "leads (authorised_log repo now wk taskID lease task a g)
     (execute_attempt repo (logged sv) others now wk taskID lease task' a g) (\<lambda>_. ?L) ?L" if "?got 2 task" "?got 6 task'" for task task' a g
    using execute_leads [of repo now wk taskID lease task a g sv others task'] some [OF _ that] none
    unfolding leads_def by (fastforce split: sum.splits)
  show ?thesis
    unfolding run_leased_def
  proof (rule leads_bind [where Q = "\<lambda>task l. ?got 2 task \<and> l = empty_log"], goal_cases)
    case 1
    show ?case by (rule leads_repo) (auto simp: none empty_log_def)
  next
    case (2 task)
    show ?case
    proof (rule leads_pre [where C = "?got 2 task" and P' = "\<lambda>l. l = empty_log"], blast, rule leads_bind, rule leads_weaken [OF authorise_leads none], goal_cases)
      case (2 ag)
      obtain a g where [simp]: "ag = (a, g)" by (cases ag)
      show ?case
        unfolding \<open>ag = (a, g)\<close> prod.case
      proof (rule leads_bind [where Q = "\<lambda>task' l. ?got 6 task' \<and> authorised_log repo now wk taskID lease task a g l"], goal_cases)
        case 1
        show ?case by (rule leads_repo) (auto simp: authorised_log_def intro: none)
      next
        case (2 task')
        show ?case
          by (rule leads_pre [where C = "?got 6 task'" and P' = "authorised_log repo now wk taskID lease task a g"])
            (auto intro!: leads_bind [where Q = "\<lambda>_. ?L"] tail exec \<open>?got 2 task\<close>)
      qed
    qed
  qed
qed

lemma Worker_Run_log:
  assumes "Worker_Run repo (logged sv) others now random wk taskID (w, x, empty_log) = (r, w', x', log)" and "lg_executions log \<noteq> []"
  shows "\<exists>lease. fst (tr_Acquire (repo 0) taskID (wk_ID wk) (now 0) (wk_LeaseDuration wk) (others 0 w)) = Inr lease
    \<and> log_authorised repo now wk taskID lease log"
proof -
  have valid: "Worker_valid wk" using assms by (auto simp: Worker_Run_def give_up_def empty_log_def split: if_splits)
  let ?acq = "tr_Acquire (repo 0) taskID (wk_ID wk) (now 0) (wk_LeaseDuration wk) (others 0 w)"
  obtain v w1 where acq: "?acq = (v, w1)" by (cases ?acq)
  obtain lease where lease: "v = Inr lease"
    using assms acq by (cases v) (auto simp: Worker_Run_def bind_attempt_def repo_call_def empty_log_def valid)
  let ?L = "log_authorised repo now wk taskID lease"
  let ?rest = "bind_attempt (repo_call (others 1) (\<lambda>w. done_or (tr_StartExecution (repo 1) taskID (wk_ID wk) (ls_FencingToken lease) (now 1) w)))
     (\<lambda>_. run_leased repo (logged sv) others now random wk taskID lease)"
  have "leads (\<lambda>l. l = empty_log) ?rest (\<lambda>_. ?L) ?L"
    by (rule leads_bind [OF leads_repo run_leased_leads]) (auto simp: log_authorised_def empty_log_def)
  moreover have "?rest (w1, x, empty_log) = (r, w', x', log)"
    using assms(1) acq lease by (simp add: Worker_Run_def valid bind_attempt_def [of "repo_call (others 0) _"] repo_call_def [of "others 0"])
  ultimately have "case r of Inl e \<Rightarrow> ?L log | Inr v \<Rightarrow> ?L log" by (rule leadsD [OF _ refl])
  then show ?thesis using acq lease by (auto split: sum.splits)
qed

text \<open>
  C32. A worker reaches a target at most once per attempt, and only under the authority of that attempt.
  Whatever the services answer and other processes do meanwhile, an execution has behind it the lease
  this run acquired and the task as the repository returned it, and exactly one of each of the following.
  An authorisation was requested for that task under the fencing token of the lease, and its limits are
  within the worker's own.  A single-use grant was requested for the task, target and recipe of the task,
  the fencing token of the lease and that decision, and does not outlive the lease.  The decision and the
  issued grant were accepted into the durable task under the lease.  The issued grant was exchanged by
  this worker for the task, target, recipe and fencing token, and the credential names that grant, target,
  recipe and token.  The execution itself uses that credential, the endpoint and recipe of the task and
  the authorised time and byte limits.
\<close>

theorem execution_is_authorised:
  assumes "Worker_Run repo (logged sv) others now random wk taskID (w, x, empty_log) = (r, w', x', log)"
    and "lg_executions log \<noteq> []"
  shows "\<exists>lease task task' er a gq g rq cred c b.
      log = \<lparr>lg_authorizations = [(er, a)], lg_grants = [(gq, g)], lg_exchanges = [(g, rq, cred)], lg_executions = [(c, b)]\<rparr>
    \<and> fst (tr_Acquire (repo 0) taskID (wk_ID wk) (now 0) (wk_LeaseDuration wk) (others 0 w)) = Inr lease
    \<and> (\<exists>w2. tr_Get (repo 2) taskID w2 = Inr task) \<and> (\<exists>w6. tr_Get (repo 6) taskID w6 = Inr task')
    \<and> er_CollectorID er = wk_ID wk \<and> er_Task er = task \<and> er_FencingToken er = ls_FencingToken lease
    \<and> ea_DecisionID a \<noteq> '''' \<and> 0 < ea_MaximumDuration a \<and> ea_MaximumDuration a \<le> wk_MaximumDuration wk
    \<and> 0 < ea_MaximumBytes a \<and> ea_MaximumBytes a \<le> wk_MaximumBytes wk
    \<and> eg_TaskID gq = tk_ID task \<and> eg_TargetID gq = tk_TargetID task \<and> eg_RecipeID gq = tk_RecipeID task
    \<and> eg_RecipeVersion gq = tk_RecipeVersion task \<and> eg_CollectorSPIFFEID gq = wk_ID wk \<and> eg_FencingToken gq = ls_FencingToken lease
    \<and> eg_ExecutionDecisionID gq = ea_DecisionID a \<and> eg_SingleUse gq \<and> eg_ExpiresAt gq \<le> ls_ExpiresAt lease
    \<and> (\<exists>w5. fst (tr_RecordExecutionAuthority (repo 5) taskID (wk_ID wk) (ls_FencingToken lease)
          (ea_DecisionID a) (eg_GrantID g) (now 4) w5) = None)
    \<and> xr_PresentingSPIFFEID rq = wk_ID wk \<and> xr_TaskID rq = tk_ID task' \<and> xr_TargetID rq = tk_TargetID task'
    \<and> xr_RecipeID rq = tk_RecipeID task' \<and> xr_RecipeVersion rq = tk_RecipeVersion task' \<and> xr_FencingToken rq = ls_FencingToken lease
    \<and> sc_Token cred \<noteq> '''' \<and> sc_GrantID cred = eg_GrantID g \<and> sc_TargetID cred = tk_TargetID task'
    \<and> sc_RecipeID cred = tk_RecipeID task' \<and> sc_FencingToken cred = ls_FencingToken lease
    \<and> c = \<lparr>tc_TargetID = tk_TargetID task', tc_Endpoint = tk_TargetEndpoint task', tc_CredentialToken = sc_Token cred,
           tc_CredentialExpiry = sc_ExpiresAt cred, tc_CredentialClass = sc_CredentialClass cred\<rparr>
    \<and> b = \<lparr>bo_RecipeID = tk_RecipeID task', bo_RecipeVersion = tk_RecipeVersion task',
           bo_MaximumDuration = ea_MaximumDuration a, bo_MaximumBytes = ea_MaximumBytes a\<rparr>"
proof -
  obtain lease where lease: "fst (tr_Acquire (repo 0) taskID (wk_ID wk) (now 0) (wk_LeaseDuration wk) (others 0 w)) = Inr lease"
    and "log_authorised repo now wk taskID lease log"
    using Worker_Run_log [OF assms] by blast
  then obtain task task' w2 w6 where get: "tr_Get (repo 2) taskID w2 = Inr task" "tr_Get (repo 6) taskID w6 = Inr task'"
    and "executed_log repo now wk taskID lease task task' log"
    using assms(2) unfolding log_authorised_def by blast
  then obtain er a gq g rq cred c b where
    log: "log = \<lparr>lg_authorizations = [(er, a)], lg_grants = [(gq, g)], lg_exchanges = [(g, rq, cred)], lg_executions = [(c, b)]\<rparr>"
    and auth: "authorised_for repo now wk taskID lease task er a gq g" and exec: "executed_for wk lease task' a g rq cred c b"
    unfolding executed_log_def by blast
  show ?thesis
    by (rule exI [of _ lease], rule exI [of _ task], rule exI [of _ task'], rule exI [of _ er], rule exI [of _ a], rule exI [of _ gq],
        rule exI [of _ g], rule exI [of _ rq], rule exI [of _ cred], rule exI [of _ c], rule exI [of _ b])
      (use log lease get auth exec in \<open>auto simp: authorised_for_def executed_for_def grant_request_def limits_expanded_def\<close>)
qed

section \<open>Completed attempts\<close>

definition store_repository :: "store task_repository" where
  "store_repository =
     \<lparr>tr_Acquire = Store_Acquire, tr_StartExecution = Store_StartExecution, tr_Get = Store_Get,
      tr_RecordExecutionAuthority = Store_RecordExecutionAuthority, tr_BeginCommit = Store_BeginCommit,
      tr_Commit = Store_Commit, tr_Retry = Store_Retry\<rparr>"

text \<open>The durable repository under given driver faults; \<open>seen\<close> is what its classifying reads find.\<close>

definition pg_task_repository :: "db_faults \<Rightarrow> task_table \<Rightarrow> task_table task_repository" where
  "pg_task_repository f seen =
     \<lparr>tr_Acquire = (\<lambda>i owner now d. PG_Acquire f i owner now d seen),
      tr_StartExecution = (\<lambda>i owner k now. PG_StartExecution f i owner k now seen), tr_Get = PG_Get (f 0),
      tr_RecordExecutionAuthority = (\<lambda>i owner k d g now. PG_RecordExecutionAuthority f i owner k d g now seen),
      tr_BeginCommit = (\<lambda>i owner k now. PG_BeginCommit f i owner k now seen),
      tr_Commit = (\<lambda>i owner k a v now. PG_Commit f i owner k a v now seen),
      tr_Retry = (\<lambda>i owner k now c. PG_Retry f i owner k now c seen)\<rparr>"

lemma execute_attempt_size:
  "execute_attempt repo sv others now wk i lease task a g s = (Inr captured, s') \<Longrightarrow>
   int (length (cb_Payload captured)) \<le> wk_MaximumBytes wk"
  unfolding execute_attempt_def
  by (auto simp: bind_attempt_Inr split: if_splits)

locale attempt_repository =
  fixes repo :: "'e \<Rightarrow> 'w task_repository"
    and view :: "'w \<Rightarrow> string \<Rightarrow> task option"
    and inv :: "'w \<Rightarrow> bool"
  assumes commit_accepts: "inv w \<Longrightarrow> tr_Commit (repo e) i owner k a v now w = (None, w') \<Longrightarrow>
      \<exists>t. view w' i = Some t \<and> tk_State t = TaskSucceeded \<and> tk_AcceptedAttemptID t = a \<and> tk_AcceptedEvidenceID t = v
        \<and> tk_FencingToken t = k \<and> tk_LeaseOwner t = owner"
    and retry_releases: "inv w \<Longrightarrow> tr_Retry (repo e) i owner k now c w = (None, w') \<Longrightarrow>
      \<exists>t. view w' i = Some t \<and> tk_State t = TaskRetryWait \<and> tk_LeaseOwner t = '''' \<and> tk_FencingToken t = k"
begin

text \<open>A successful run has committed what its sink stored for the payload it captured under its lease.\<close>

lemma run_commits:
  assumes "\<And>k w. inv (others k w)"
    and "Worker_Run (\<lambda>k. repo (e k)) sv others now random wk i (w, x) = (Inr (), w', x')"
  shows "\<exists>lease task captured a v w0 x0 x1 t.
      fst (tr_Acquire (repo (e 0)) i (wk_ID wk) (now 0) (wk_LeaseDuration wk) (others 0 w)) = Inr lease
    \<and> wv_WriteCaptured sv task lease captured w0 x0 = (Inr (a, v), x1)
    \<and> int (length (cb_Payload captured)) \<le> wk_MaximumBytes wk
    \<and> view w' i = Some t \<and> tk_State t = TaskSucceeded \<and> tk_FencingToken t = ls_FencingToken lease
    \<and> tk_LeaseOwner t = wk_ID wk \<and> tk_AcceptedAttemptID t = a \<and> tk_AcceptedEvidenceID t = v"
proof -
  have "Worker_valid wk" using assms(2) by (auto simp: Worker_Run_def give_up_def split: if_splits)
  then obtain lease s1 s3 task a v captured s6 s7 s8 where run:
    "repo_call (others 0) (tr_Acquire (repo (e 0)) i (wk_ID wk) (now 0) (wk_LeaseDuration wk)) (w, x) = (Inr lease, s1)"
    "execute_attempt (\<lambda>k. repo (e k)) sv others now wk i lease task (fst a) (snd a) s3 = (Inr captured, s6)"
    "service_call (others 9) (wv_WriteCaptured sv task lease captured)
       (failAttempt (repo (e 12)) (others 12) wk i lease (now 6) \<circ> wrapped (wv_Quote sv) ''persist captured evidence for task '' i) s6 = (Inr v, s7)"
    "repo_call (others 11) (\<lambda>w. done_or (tr_Commit (repo (e 11)) i (wk_ID wk) (ls_FencingToken lease) (fst v) (snd v) (now 7) w)) s8
       = (Inr (), w', x')"
    using assms(2) unfolding Worker_Run_def run_leased_def by (auto simp: bind_attempt_Inr split_beta)
  obtain x1 where w: "wv_WriteCaptured sv task lease captured (others 9 (fst s6)) (snd s6) = (Inr v, x1)"
    using run(3) unfolding service_call_Inr by blast
  have c: "tr_Commit (repo (e 11)) i (wk_ID wk) (ls_FencingToken lease) (fst v) (snd v) (now 7) (others 11 (fst s8)) = (None, w')"
    using run(4) unfolding repo_call_Inr done_or_Inr by auto
  have "fst (tr_Acquire (repo (e 0)) i (wk_ID wk) (now 0) (wk_LeaseDuration wk) (others 0 w)) = Inr lease"
    using run(1) unfolding repo_call_Inr by auto
  then show ?thesis using w commit_accepts [OF assms(1) c] execute_attempt_size [OF run(2)] by (metis prod.collapse)
qed

text \<open>A failed attempt that was handed back is free for the next worker.\<close>

lemma failure_releases:
  assumes "\<And>k w. inv (others k w)"
    and "failAttempt (repo e) (others k) wk i lease at cause s = (Inl (AttemptFailed c None), w', x')"
  shows "\<exists>t. view w' i = Some t \<and> tk_State t = TaskRetryWait \<and> tk_LeaseOwner t = '''' \<and> tk_FencingToken t = ls_FencingToken lease"
  using assms(2) retry_releases [OF assms(1)] by (auto simp: failAttempt_def split: prod.splits)

end

interpretation mem_attempts: attempt_repository "\<lambda>_::unit. store_repository" "\<lambda>s. s" "\<lambda>_. True"
  by unfold_locales
    (auto simp: store_repository_def Store_Commit_ok Store_Retry_ok accepted_task_def released_task_def held_def)

lemma update_stmt_affected:
  "update_stmt i p u tb = (r, tb') \<Longrightarrow> affected r = 1 \<Longrightarrow> \<exists>q. tb i = Some q \<and> p q \<and> tb' i = Some (u q)"
  by (auto simp: update_stmt_def affected_def split: option.splits if_splits)

interpretation pg_attempts: attempt_repository "\<lambda>(f, seen). pg_task_repository f seen" task_view "\<lambda>_. True"
proof (unfold_locales, goal_cases)
  case (1 w e i owner k a v now w')
  obtain f seen where e: "e = (f, seen)" by (cases e)
  have "PG_Commit f i owner k a v now seen w = (None, w')" using 1(2) e by (simp add: pg_task_repository_def)
  then obtain q where "w' i = Some (q\<lparr>tr_accepted_attempt_id := Some a, tr_accepted_evidence_id := Some v,
      tr_state := TaskSucceeded, tr_updated_at := normaliseTime now\<rparr>)" "tr_fencing_token q = k" "tr_lease_owner q = Some owner"
    by (auto simp: PG_Commit_def sql_write_def commit_outcome_def owned_def
        dest!: update_stmt_affected split: if_splits option.splits db_call.splits prod.splits sum.splits)
  then show ?case by (simp add: task_view_Some row_simps)
next
  case (2 w e i owner k now c w')
  obtain f seen where e: "e = (f, seen)" by (cases e)
  have "PG_Retry f i owner k now c seen w = (None, w')" using 2(2) e by (simp add: pg_task_repository_def)
  then obtain q e where "w' i = Some (q\<lparr>tr_state := TaskRetryWait, tr_lease_owner := None, tr_lease_expiry := None,
      tr_last_error := e, tr_updated_at := normaliseTime now\<rparr>)" "tr_fencing_token q = k"
    by (auto simp: PG_Retry_def sql_write_def requireChanged_def owned_def Let_def
        dest!: update_stmt_affected split: if_splits option.splits db_call.splits prod.splits)
  then show ?case by (simp add: task_view_Some row_simps)
qed

text \<open>
  C33. A successful attempt is accepted under its own lease: when \<^verbatim>\<open>Run\<close> returns without an error, the
  durable task is in state succeeded, still carries the fencing token of the lease that this run
  acquired, and names exactly the attempt and evidence identifiers that the sink returned for a payload
  within the worker's byte limit, whatever other processes did to the tasks between its calls.
\<close>

theorem attempt_success_is_accepted:
  assumes "Worker_Run (\<lambda>k. pg_task_repository (f k) (seen k)) sv others now random wk i (w, x) = (Inr (), w', x')"
  shows "\<exists>lease task captured a v w0 x0 x1 t.
      fst (PG_Acquire (f 0) i (wk_ID wk) (now 0) (wk_LeaseDuration wk) (seen 0) (others 0 w)) = Inr lease
    \<and> wv_WriteCaptured sv task lease captured w0 x0 = (Inr (a, v), x1)
    \<and> int (length (cb_Payload captured)) \<le> wk_MaximumBytes wk
    \<and> task_view w' i = Some t \<and> tk_State t = TaskSucceeded \<and> tk_FencingToken t = ls_FencingToken lease
    \<and> tk_LeaseOwner t = wk_ID wk \<and> tk_AcceptedAttemptID t = a \<and> tk_AcceptedEvidenceID t = v"
  using pg_attempts.run_commits [of "\<lambda>k. (f k, seen k)" sv others now random wk i w x w' x'] assms
  by (simp add: pg_task_repository_def)

section \<open>An attempt never strands its task\<close>

text \<open>
  On the in-memory store, undisturbed: the task is being executed under the worker's lease, or it was
  handed back; no other task is touched.
\<close>

definition executing_under :: "string \<Rightarrow> worker \<Rightarrow> int \<Rightarrow> gotime \<Rightarrow> store \<Rightarrow> store \<Rightarrow> bool" where
  "executing_under i wk k e s0 s \<longleftrightarrow>
     (\<forall>j. j \<noteq> i \<longrightarrow> s j = s0 j) \<and>
     (\<exists>t. s i = Some t \<and> tk_State t = TaskExecuting \<and> tk_LeaseOwner t = wk_ID wk \<and> tk_FencingToken t = k \<and>
        tk_LeaseExpiry t = e \<and> tk_AcceptedAttemptID t = '''')"

definition handed_back :: "string \<Rightarrow> int \<Rightarrow> store \<Rightarrow> store \<Rightarrow> bool" where
  "handed_back i k s0 s \<longleftrightarrow>
     (\<forall>j. j \<noteq> i \<longrightarrow> s j = s0 j) \<and>
     (\<exists>t. s i = Some t \<and> tk_State t = TaskRetryWait \<and> tk_LeaseOwner t = '''' \<and> tk_FencingToken t = k)"

definition left_leased :: "string \<Rightarrow> worker \<Rightarrow> int \<Rightarrow> gotime \<Rightarrow> store \<Rightarrow> store \<Rightarrow> bool" where
  "left_leased i wk k e s0 s \<longleftrightarrow>
     (\<forall>j. j \<noteq> i \<longrightarrow> s j = s0 j) \<and>
     (\<exists>t. s i = Some t \<and> tk_State t \<in> {TaskExecuting, TaskCommitting} \<and> tk_LeaseOwner t = wk_ID wk \<and> tk_FencingToken t = k \<and>
        tk_LeaseExpiry t = e)"

text \<open>
  How an attempt that does not succeed leaves its task: handed back, or, after a failure \<^verbatim>\<open>Run\<close> does not
  hand back (\<open>bad\<close>), under the lease of the attempt.
\<close>

definition failed_end :: "bool \<Rightarrow> string \<Rightarrow> worker \<Rightarrow> int \<Rightarrow> gotime \<Rightarrow> store \<Rightarrow> worker_error \<Rightarrow> store \<Rightarrow> bool" where
  "failed_end bad i wk k e s0 err s \<longleftrightarrow>
     (\<exists>c. err = AttemptFailed c None) \<and> handed_back i k s0 s \<or> bad \<and> left_leased i wk k e s0 s"


text \<open>A step of an attempt: it fails, or goes on with the task still executing.\<close>

definition step_end :: "bool \<Rightarrow> string \<Rightarrow> worker \<Rightarrow> int \<Rightarrow> gotime \<Rightarrow> store \<Rightarrow> (worker_error + 'a) \<Rightarrow> store \<Rightarrow> bool" where
  "step_end bad i wk k e s0 r s =
     (case r of Inl err \<Rightarrow> failed_end bad i wk k e s0 err s | Inr v \<Rightarrow> executing_under i wk k e s0 s)"

lemma step_end_simps [simp]:
  "step_end bad i wk k e s0 (Inl err) s \<longleftrightarrow> failed_end bad i wk k e s0 err s"
  "step_end bad i wk k e s0 (Inr v) s \<longleftrightarrow> executing_under i wk k e s0 s"
  by (simp_all add: step_end_def)

























section \<open>An example attempt\<close>

text \<open>Services that grant what is asked for, the stub adapter and the in-memory sink.\<close>

definition example_services :: "('w, unit) worker_services" where
  "example_services =
     \<lparr>wv_Authorize = (\<lambda>r w x. (Inr \<lparr>ea_DecisionID = ''d'', ea_MaximumDuration = er_MaximumDuration r, ea_MaximumBytes = er_MaximumBytes r\<rparr>, x)),
      wv_Issue = (\<lambda>g w x. (if eg_GrantID g = '''' then Inl ''grant id is required'' else Inr g, x)),
      wv_Exchange = (\<lambda>g r w x. (Inr \<lparr>sc_Token = ''secret'', sc_GrantID = eg_GrantID g, sc_CollectorID = xr_PresentingSPIFFEID r,
         sc_TargetID = xr_TargetID r, sc_RecipeID = xr_RecipeID r, sc_RecipeVersion = xr_RecipeVersion r,
         sc_FencingToken = xr_FencingToken r, sc_ExpiresAt = eg_ExpiresAt g, sc_CredentialClass = eg_CredentialClass g\<rparr>, x)),
      wv_Execute = (\<lambda>c b w x. (StubAdapter_Execute (\<lambda>p. p @ ''-digest'') 16000 None '''' c b, x)),
      wv_Quote = (\<lambda>q. CHR 0x22 # q @ [CHR 0x22]),
      wv_WriteCaptured = (\<lambda>t l b w x. (MemorySink_WriteCaptured t l b, x))\<rparr>"

definition example_worker :: worker where
  "example_worker = \<lparr>wk_ID = ''c1'', wk_LeaseDuration = 50000, wk_GrantTTL = 40000, wk_MaximumDuration = 5000, wk_MaximumBytes = 64\<rparr>"

definition example_clock :: "nat \<Rightarrow> gotime" where
  "example_clock n = (if n = 0 then 10000 else 20000)"

theorem execution_is_authorised_witness:
  "\<exists>c b g rq cred log. snd (snd (snd (Worker_Run (\<lambda>_. store_repository) (logged example_services) (\<lambda>_ w. w) example_clock
       (\<lambda>_. Some ''r'') example_worker ''t1'' ([''t1'' \<mapsto> example_task], (), empty_log)))) = log
     \<and> lg_executions log = [(c, b)] \<and> lg_exchanges log = [(g, rq, cred)] \<and> xr_FencingToken rq = 1 \<and> sc_FencingToken cred = 1
     \<and> bo_MaximumBytes b \<le> 64"
proof -
  let ?run = "Worker_Run (\<lambda>_. store_repository) (logged example_services) (\<lambda>_ w. w) example_clock
       (\<lambda>_. Some ''r'') example_worker ''t1'' ([''t1'' \<mapsto> example_task], (), empty_log)"
  obtain r w' x' log where run: "?run = (r, w', x', log)" by (cases ?run)
  have "length (lg_executions (snd (snd (snd ?run)))) = 1" by code_simp
  then have executed: "lg_executions log \<noteq> []" unfolding run by auto
  have "map_sum (\<lambda>_. ()) ls_FencingToken (fst (tr_Acquire store_repository ''t1'' (wk_ID example_worker) (example_clock 0)
     (wk_LeaseDuration example_worker) [''t1'' \<mapsto> example_task])) = Inr 1" by code_simp
  then show ?thesis
    using execution_is_authorised [OF run executed] unfolding run by (auto simp: example_worker_def)
qed

theorem attempt_success_is_accepted_witness:
  "map_option (\<lambda>t. (tk_State t, tk_FencingToken t))
     (task_view (fst (snd (Worker_Run (\<lambda>_. pg_task_repository (\<lambda>_. CallOK) Map.empty) example_services (\<lambda>_ w. w) example_clock
       (\<lambda>_. Some ''r'') example_worker ''t1'' ([''t1'' \<mapsto> new_task_row 0 example_task], ())))) ''t1'') = Some (TaskSucceeded, 1)"
proof -
  let ?repo = "\<lambda>_. pg_task_repository (\<lambda>_. CallOK) Map.empty" and ?tb = "[''t1'' \<mapsto> new_task_row 0 example_task]"
  let ?run = "Worker_Run ?repo example_services (\<lambda>_ w. w) example_clock (\<lambda>_. Some ''r'') example_worker ''t1'' (?tb, ())"
  have ok: "fst ?run = Inr ()" by code_simp
  have acq: "map_sum (\<lambda>_. ()) ls_FencingToken (fst (PG_Acquire (\<lambda>_. CallOK) ''t1'' (wk_ID example_worker) (example_clock 0)
     (wk_LeaseDuration example_worker) Map.empty ?tb)) = Inr 1" by code_simp
  obtain w' x' where "?run = (Inr (), w', x')" using ok by (metis prod.collapse)
  from attempt_success_is_accepted [OF this] acq show ?thesis unfolding \<open>?run = _\<close> by auto
qed



end
