(* ===== verification/Text_Search.thy ===== *)
theory Text_Search
  imports Go_Strings Outbox_Text
begin

text \<open>
  The functions of Go's packages \<^verbatim>\<open>bytes\<close> and \<^verbatim>\<open>strings\<close> that search and rewrite text:
  \<^verbatim>\<open>Contains\<close>, \<^verbatim>\<open>Count\<close> and \<^verbatim>\<open>ReplaceAll\<close> for a non-empty pattern, \<^verbatim>\<open>IndexFunc\<close> as a test, \<^verbatim>\<open>Fields\<close>,
  \<^verbatim>\<open>Join\<close> and \<^verbatim>\<open>unicode.IsControl\<close>.  What replacement removes, and what it cannot bring back, is
  stated with \<open>sublist\<close>.
\<close>

section \<open>Functions\<close>

fun Contains :: "string \<Rightarrow> string \<Rightarrow> bool" where
  "Contains [] u \<longleftrightarrow> u = []"
| "Contains (c # s) u \<longleftrightarrow> prefix u (c # s) \<or> Contains s u"

function Count :: "string \<Rightarrow> string \<Rightarrow> nat" where
  "Count s old =
     (if s = [] \<or> old = [] then 0
      else if prefix old s then Suc (Count (drop (length old) s) old)
      else Count (tl s) old)"
  by pat_completeness auto
termination
  by (relation "measure (\<lambda>(s, _). length s)") (auto simp: length_greater_0_conv [symmetric] simp del: length_greater_0_conv)

function ReplaceAll :: "string \<Rightarrow> string \<Rightarrow> string \<Rightarrow> string" where
  "ReplaceAll s old new =
     (if s = [] \<or> old = [] then s
      else if prefix old s then new @ ReplaceAll (drop (length old) s) old new
      else hd s # ReplaceAll (tl s) old new)"
  by pat_completeness auto
termination
  by (relation "measure (\<lambda>(s, _). length s)") (auto simp: length_greater_0_conv [symmetric] simp del: length_greater_0_conv)

declare Count.simps [simp del] ReplaceAll.simps [simp del]

definition IsControl :: "nat \<Rightarrow> bool" where
  "IsControl r \<longleftrightarrow> r < 0x20 \<or> 0x7F \<le> r \<and> r < 0xA0"

text \<open>\<^verbatim>\<open>strings.IndexFunc(s, f) >= 0\<close>.\<close>

definition IndexFunc :: "string \<Rightarrow> (nat \<Rightarrow> bool) \<Rightarrow> bool" where
  "IndexFunc s f \<longleftrightarrow> list_ex f (runes s)"

text \<open>\<^verbatim>\<open>strings.Fields\<close>: \<open>word\<close> is the field read so far.\<close>

function fields_from :: "string \<Rightarrow> string \<Rightarrow> string list" where
  "fields_from word s =
     (if s = [] then (if word = [] then [] else [word])
      else let (r, n) = DecodeRune s
           in if IsSpace r then (if word = [] then [] else [word]) @ fields_from [] (drop n s)
              else fields_from (word @ take n s) (drop n s))"
  by pat_completeness auto
termination
  by (relation "measure (\<lambda>(_, s). length s)") (auto intro!: diff_less, (metis DecodeRune_size snd_conv)+)

declare fields_from.simps [simp del]

definition Fields :: "string \<Rightarrow> string list" where
  "Fields s = fields_from [] s"

fun Join :: "string list \<Rightarrow> string \<Rightarrow> string" where
  "Join [] sep = []"
| "Join [x] sep = x"
| "Join (x # y # xs) sep = x @ sep @ Join (y # xs) sep"

section \<open>Search and replacement\<close>

lemma Contains_sublist: "Contains s u \<longleftrightarrow> sublist u s"
  by (induction s u rule: Contains.induct) (auto simp: sublist_Cons_right)

lemma Count_zero: "old \<noteq> [] \<Longrightarrow> Count s old = 0 \<longleftrightarrow> \<not> sublist old s"
proof (induction s old rule: Count.induct)
  case (1 s old)
  show ?case
  proof (cases s)
    case Nil
    then show ?thesis using 1(3) by (simp add: Count.simps)
  next
    case (Cons c t)
    then show ?thesis
      using 1 by (subst Count.simps) (auto simp: sublist_Cons_right)
  qed
qed

lemma Replace_Nil [simp]: "ReplaceAll [] old new = []"
  by (simp add: ReplaceAll.simps)

lemma Replace_hit: "prefix old s \<Longrightarrow> old \<noteq> [] \<Longrightarrow> ReplaceAll s old new = new @ ReplaceAll (drop (length old) s) old new"
  by (subst ReplaceAll.simps) auto

lemma Replace_miss: "\<not> prefix old (c # s) \<Longrightarrow> old \<noteq> [] \<Longrightarrow> ReplaceAll (c # s) old new = c # ReplaceAll s old new"
  by (subst ReplaceAll.simps) auto

lemma sublist_skip:
  "sublist u (v @ x) \<Longrightarrow> u \<noteq> [] \<Longrightarrow> set u \<inter> set v = {} \<Longrightarrow> sublist u x"
proof (induction v)
  case (Cons c v)
  then have "\<not> prefix u (c # v @ x)" by (cases u) auto
  with Cons show ?case by (auto simp: sublist_Cons_right)
qed simp

lemma prefix_Replace:
  "prefix u (ReplaceAll s old new) \<Longrightarrow> new \<noteq> [] \<Longrightarrow> old \<noteq> [] \<Longrightarrow> set u \<inter> set new = {} \<Longrightarrow> prefix u s"
proof (induction s old new arbitrary: u rule: ReplaceAll.induct)
  case (1 s old new)
  show ?case
  proof (cases s)
    case (Cons c t)
    show ?thesis
    proof (cases "prefix old s")
      case True
      obtain d n where "new = d # n" using "1.prems"(2) by (cases new) auto
      then have "u = []" using "1.prems" True by (cases u) (auto simp: Replace_hit)
      then show ?thesis by simp
    next
      case False
      then show ?thesis
        using "1.prems" "1.IH"(2) Cons by (cases u) (auto simp: Replace_miss)
    qed
  qed (use "1.prems" in simp)
qed

text \<open>Replacement removes every occurrence of its pattern and cannot create one of another text it shares no byte with.\<close>

lemma Replace_absent:
  assumes "u \<noteq> []" and "new \<noteq> []" and "old \<noteq> []" and "set u \<inter> set new = {}" and "u = old \<or> \<not> sublist u s"
  shows "\<not> sublist u (ReplaceAll s old new)"
  using assms
proof (induction s old new rule: ReplaceAll.induct)
  case (1 s old new)
  show ?case
  proof (cases s)
    case Nil
    then show ?thesis using "1.prems" by simp
  next
    case (Cons c t)
    show ?thesis
    proof (cases "prefix old s")
      case True
      have "u = old \<or> \<not> sublist u (drop (length old) s)"
        using "1.prems"(5) sublist_drop sublist_order.order_trans by metis
      then have "\<not> sublist u (ReplaceAll (drop (length old) s) old new)"
        using "1.IH"(1) "1.prems" True Cons by simp
      then show ?thesis
        using sublist_skip [of u new] "1.prems"(1,3,4) True by (auto simp: Replace_hit)
    next
      case False
      have r: "ReplaceAll s old new = c # ReplaceAll t old new"
        using False Cons "1.prems"(3) by (simp add: Replace_miss)
      have "\<not> sublist u (ReplaceAll t old new)"
        using "1.IH"(2) "1.prems" False Cons by (auto simp: sublist_Cons_right)
      moreover have "\<not> prefix u (c # ReplaceAll t old new)"
        using prefix_Replace [of u s old new] "1.prems" False r Cons prefix_imp_sublist by metis
      ultimately show ?thesis by (simp add: r sublist_Cons_right)
    qed
  qed
qed

lemma set_Replace: "set (ReplaceAll s old new) \<subseteq> set s \<union> set new"
proof (induction s old new rule: ReplaceAll.induct)
  case (1 s old new)
  show ?case
  proof (cases "s = [] \<or> old = []")
    case True
    then show ?thesis by (subst ReplaceAll.simps) auto
  next
    case False
    then obtain c t where s: "s = c # t" by (cases s) auto
    have "set (drop (length old) s) \<subseteq> set s" by (rule set_drop_subset)
    then show ?thesis
      using 1 False s by (cases "prefix old s") (auto simp: Replace_hit Replace_miss)
  qed
qed

end
