(* ===== verification/Artefact_Manifest.thy ===== *)
theory Artefact_Manifest
  imports Text_Search Hex
begin

text \<open>
  The transformation manifest that binds a sanitised artefact to the captured one, and its validation:
  \<^verbatim>\<open>TransformationManifest\<close>, \<^verbatim>\<open>TransformationOutcome\<close>, \<^verbatim>\<open>validateTransformationManifest\<close> of
  \<^verbatim>\<open>internal/artefacts/store.go\<close>, \<^verbatim>\<open>validDigest\<close> of \<^verbatim>\<open>s3_blob_store.go\<close> and \<^verbatim>\<open>invalidSegment\<close> of
  \<^verbatim>\<open>durable_store.go\<close>.  Byte counts and rule positions are \<^verbatim>\<open>uint64\<close> values that are
  bounded by 16 MiB where they arise, so they are natural numbers here.
\<close>

record transformation_outcome =
  oc_Action :: string
  oc_ReasonCode :: string
  oc_JSONPath :: string
  oc_RulePosition :: nat
  oc_Count :: nat

record transformation_manifest =
  tm_ManifestVersion :: string
  tm_PipelineID :: string
  tm_PipelineVersion :: string
  tm_RulesVersion :: string
  tm_InputDigest :: string
  tm_OutputDigest :: string
  tm_OverallStatus :: string
  tm_RedactionsApplied :: "string list"
  tm_TaintedFields :: "string list"
  tm_Outcomes :: "transformation_outcome list"
  tm_Quarantined :: bool
  tm_Truncated :: bool
  tm_OriginalByteCount :: nat
  tm_OutputByteCount :: nat

definition TransformationManifestVersionV1 :: string where
  "TransformationManifestVersionV1 = ''network-broker-sanitisation-manifest/v1''"

definition MaximumArtefactBytes :: int where
  "MaximumArtefactBytes = 16 * 1024 * 1024"

definition validDigest :: "string \<Rightarrow> bool" where
  "validDigest v \<longleftrightarrow> length v = 64 \<and> hex_DecodeString v \<noteq> None"

definition invalidSegment :: "string \<Rightarrow> bool" where
  "invalidSegment v \<longleftrightarrow> v = '''' \<or> 128 < length v \<or> IndexFunc v (\<lambda>r. IsSpace r \<or> IsControl r)"

definition unsafeManifestValue :: "string \<Rightarrow> nat \<Rightarrow> bool" where
  "unsafeManifestValue v maximum \<longleftrightarrow> v = '''' \<or> maximum < length v \<or> IndexFunc v IsControl"

definition validOverallStatus :: "transformation_manifest \<Rightarrow> bool" where
  "validOverallStatus m \<longleftrightarrow>
     (if tm_OverallStatus m = ''clean'' then \<not> tm_Quarantined m \<and> tm_TaintedFields m = []
      else if tm_OverallStatus m = ''tainted'' then \<not> tm_Quarantined m \<and> tm_TaintedFields m \<noteq> []
      else if tm_OverallStatus m = ''quarantined'' then tm_Quarantined m
      else False)"

definition validateManifestEntries :: "transformation_manifest \<Rightarrow> bool" where
  "validateManifestEntries m \<longleftrightarrow>
     list_all (\<lambda>v. \<not> unsafeManifestValue v 512) (tm_RedactionsApplied m @ tm_TaintedFields m) \<and>
     list_all (\<lambda>item. \<not> (unsafeManifestValue (oc_Action item) 64 \<or> unsafeManifestValue (oc_ReasonCode item) 128 \<or>
        unsafeManifestValue (oc_JSONPath item) 512 \<or> oc_Count item = 0)) (tm_Outcomes m)"

definition validateManifestIdentityAndBounds :: "transformation_manifest \<Rightarrow> bool" where
  "validateManifestIdentityAndBounds m \<longleftrightarrow>
     \<not> (tm_ManifestVersion m \<noteq> '''' \<and> tm_ManifestVersion m \<noteq> TransformationManifestVersionV1) \<and>
     \<not> (tm_ManifestVersion m \<noteq> '''' \<and> unsafeManifestValue (tm_ManifestVersion m) 128 \<or>
        unsafeManifestValue (tm_PipelineID m) 128 \<or> unsafeManifestValue (tm_PipelineVersion m) 128 \<or>
        tm_RulesVersion m \<noteq> '''' \<and> unsafeManifestValue (tm_RulesVersion m) 128 \<or>
        256 < length (tm_RedactionsApplied m) \<or> 512 < length (tm_TaintedFields m) \<or> 512 < length (tm_Outcomes m))"

definition validateTransformationManifest :: "transformation_manifest \<Rightarrow> bool" where
  "validateTransformationManifest m \<longleftrightarrow>
     validateManifestIdentityAndBounds m \<and>
     \<not> (tm_ManifestVersion m \<noteq> '''' \<and>
        (\<not> validDigest (tm_InputDigest m) \<or> \<not> validDigest (tm_OutputDigest m) \<or> \<not> validOverallStatus m)) \<and>
     validateManifestEntries m"

text \<open>The encoding of a 32-byte digest is a valid digest.\<close>

lemma validDigest_hex: "length bs = 32 \<Longrightarrow> validDigest (hex_EncodeToString bs)"
  by (simp add: validDigest_def hex_Decode_Encode)

text \<open>Printable ASCII text has no control rune.\<close>

definition ascii_graphic :: "char \<Rightarrow> bool" where
  "ascii_graphic c \<longleftrightarrow> 0x20 \<le> (of_char c :: nat) \<and> of_char c < (0x7F :: nat)"

lemma runes_ascii: "list_all (\<lambda>c. of_char c < (0x80 :: nat)) s \<Longrightarrow> runes s = map of_char s"
proof (induction s)
  case (Cons c s)
  then show ?case by (subst runes.simps) (simp add: Let_def)
qed simp

lemma ascii_not_control: "list_all ascii_graphic s \<Longrightarrow> \<not> IndexFunc s IsControl"
proof -
  assume s: "list_all ascii_graphic s"
  then have "runes s = map of_char s" by (intro runes_ascii) (auto simp: list_all_iff ascii_graphic_def)
  then show ?thesis using s by (auto simp: IndexFunc_def IsControl_def list_ex_iff list_all_iff ascii_graphic_def)
qed

lemma safe_ascii: "v \<noteq> '''' \<Longrightarrow> length v \<le> n \<Longrightarrow> list_all ascii_graphic v \<Longrightarrow> \<not> unsafeManifestValue v n"
  by (simp add: unsafeManifestValue_def ascii_not_control)

end
