(* ===== verification/Sanitise.thy ===== *)
theory Sanitise
  imports Artefact_Manifest "HOL-Library.Char_ord" "HOL-Library.List_Lexorder" "HOL-Library.Product_Lexorder"
begin

text \<open>
  The captured-to-sanitised boundary, \<^verbatim>\<open>internal/sanitise/sanitise.go\<close>: redaction, stripping of terminal
  sequences and raw controls, inspection of text and of JSON documents, quarantine, truncation and the
  manifest of all that.

  A Go map is an association list with distinct keys.  \<open>sanitise_env\<close> holds what the package calls and
  does not define: Unicode normalisation and case mapping, \<^verbatim>\<open>json.Decoder.Decode\<close> (the first value and the
  input after it) and SHA-256.  \<^verbatim>\<open>sort.Slice\<close> leaves the order of outcomes that agree in path, action and
  reason open; the model keeps their order of insertion.
\<close>

section \<open>Rules and environment\<close>

datatype json =
    JNull | JBool bool | JNumber string | JString string
  | JArray "json list" | JObject "(string \<times> json) list"

record sanitise_env =
  se_NFKC :: "string \<Rightarrow> string"
  se_ToLower :: "string \<Rightarrow> string"
  se_Decode :: "string \<Rightarrow> (json \<times> string) option"
  se_sha256 :: "string \<Rightarrow> string"

record sanitise_rules =
  su_Version :: string
  su_FreeTextJSONFields :: "string list"
  su_InstructionPatterns :: "string list"
  su_MaximumStringBytes :: int
  su_MaximumNestingDepth :: int
  su_MaximumJSONNodes :: int
  su_EncodedTokenMinimum :: int
  su_RepeatedCharacterLimit :: int

record sanitise_pipeline =
  sp_ID :: string
  sp_Version :: string
  sp_Redactions :: "(string \<times> string) list"
  sp_MaximumBytes :: int
  sp_Rules :: sanitise_rules

definition quarantinedOutputJSON :: string where
  "quarantinedOutputJSON = ''{'' @ [CHR 0x22] @ ''quarantined'' @ [CHR 0x22] @ '':true}''"

definition DefaultRules :: sanitise_rules where
  "DefaultRules =
     \<lparr>su_Version = ''network-hostile-output/v1'',
      su_FreeTextJSONFields = [''banner'', ''description'', ''interface_name'', ''message'', ''neighbor_description'',
        ''port_description'', ''sys_descr'', ''system_description''],
      su_InstructionPatterns = [''###'', replicate 3 (CHR 0x60), ''assistant:'', ''execute the following'', ''ignore all previous'',
        ''ignore previous'', ''instruction:'', ''reveal the system prompt'', ''system prompt'', ''system:'', ''you are chatgpt''],
      su_MaximumStringBytes = 4096, su_MaximumNestingDepth = 64, su_MaximumJSONNodes = 10000,
      su_EncodedTokenMinimum = 128, su_RepeatedCharacterLimit = 64\<rparr>"

definition safeRuleToken :: "string \<Rightarrow> bool" where
  "safeRuleToken v \<longleftrightarrow>
     v \<noteq> '''' \<and> length v \<le> 128 \<and>
     \<not> IndexFunc v (\<lambda>r. IsSpace r \<or> IsControl r \<or> r = of_char (CHR ''/'') \<or> r = of_char (CHR ''~''))"

definition resolveRules :: "sanitise_rules \<Rightarrow> string + sanitise_rules" where
  "resolveRules configured =
     (let rules = (if su_Version configured = '''' then DefaultRules else configured)
      in if su_Version rules = '''' \<or> su_MaximumStringBytes rules \<le> 0 \<or> su_MaximumNestingDepth rules \<le> 0 \<or>
            su_MaximumJSONNodes rules \<le> 0 \<or> su_EncodedTokenMinimum rules < 32 \<or> su_RepeatedCharacterLimit rules < 8 \<or>
            su_InstructionPatterns rules = []
         then Inl ''complete bounded adversarial sanitisation rules are required''
         else if \<not> list_all safeRuleToken (su_FreeTextJSONFields rules) then Inl ''free-text field rule is invalid''
         else if list_ex (\<lambda>p. p = '''' \<or> 256 < length p \<or> IndexFunc p IsControl) (su_InstructionPatterns rules)
         then Inl ''instruction pattern is invalid''
         else Inr rules)"

definition outcome :: "string \<Rightarrow> string \<Rightarrow> string \<Rightarrow> nat \<Rightarrow> transformation_outcome" where
  "outcome action reason path n =
     \<lparr>oc_Action = action, oc_ReasonCode = reason, oc_JSONPath = path, oc_RulePosition = 0, oc_Count = n\<rparr>"

definition sortOutcomes :: "transformation_outcome list \<Rightarrow> transformation_outcome list" where
  "sortOutcomes = sort_key (\<lambda>x. (oc_JSONPath x, oc_Action x, oc_ReasonCode x))"

definition redactionIdentifier :: "nat \<Rightarrow> string" where
  "redactionIdentifier index =
     (let d = dec_digits (index + 1) in ''configured-redaction-'' @ replicate (4 - length d) (CHR ''0'') @ d)"

definition sanitise_digest :: "sanitise_env \<Rightarrow> string \<Rightarrow> string" where
  "sanitise_digest env payload = hex_EncodeToString (se_sha256 env payload)"

section \<open>Stripping\<close>

fun consumeCSI :: "string \<Rightarrow> string" where
  "consumeCSI [] = []"
| "consumeCSI (c # cs) = (if 0x40 \<le> (of_char c :: nat) \<and> (of_char c :: nat) \<le> 0x7E then cs else consumeCSI cs)"

fun consumeOSC :: "string \<Rightarrow> string" where
  "consumeOSC [] = []"
| "consumeOSC (c # cs) =
     (if c = CHR 0x07 then cs
      else if c = CHR 0x1B \<and> cs \<noteq> [] \<and> hd cs = CHR 0x5C then tl cs
      else consumeOSC cs)"

text \<open>The input after a terminal sequence that starts with the escape before it.\<close>

fun consumeTerminalSequence :: "string \<Rightarrow> string" where
  "consumeTerminalSequence [] = []"
| "consumeTerminalSequence (c # cs) =
     (if c = CHR ''['' then consumeCSI cs else if c = CHR '']'' then consumeOSC cs else cs)"

lemma consume_length:
  "length (consumeCSI s) \<le> length s" "length (consumeOSC s) \<le> length s" "length (consumeTerminalSequence s) \<le> length s"
proof -
  show a: "length (consumeCSI s) \<le> length s" for s by (induction s) auto
  show b: "length (consumeOSC s) \<le> length s" for s by (induction s rule: consumeOSC.induct) auto
  show "length (consumeTerminalSequence s) \<le> length s" using a b by (cases s) (auto intro: le_SucI)
qed

function stripTerminalSequences :: "string \<Rightarrow> string \<times> nat" where
  "stripTerminalSequences [] = ([], 0)"
| "stripTerminalSequences (c # cs) =
     (if c \<noteq> CHR 0x1B then (case stripTerminalSequences cs of (out, n) \<Rightarrow> (c # out, n))
      else (case stripTerminalSequences (consumeTerminalSequence cs) of (out, n) \<Rightarrow> (out, Suc n)))"
  by pat_completeness auto
termination
  by (relation "measure length") (auto simp: le_imp_less_Suc consume_length)

definition keep_rune :: "nat \<Rightarrow> bool" where
  "keep_rune r \<longleftrightarrow> r = 10 \<or> r = 13 \<or> r = 9 \<or> 0x20 \<le> r \<and> r \<noteq> 0x7F"

function stripRawControls :: "string \<Rightarrow> string \<times> nat" where
  "stripRawControls s =
     (if s = [] then ([], 0)
      else case DecodeRune s of (r, width) \<Rightarrow>
        (case stripRawControls (drop width s) of
           (clean, n) \<Rightarrow> if keep_rune r then (AppendRune [] r @ clean, n) else (clean, Suc n)))"
  by pat_completeness auto
termination
  by (relation "measure length") (auto intro!: diff_less, metis DecodeRune_size snd_conv)

declare stripRawControls.simps [simp del]

section \<open>Redaction\<close>

text \<open>The loop over the sorted redactions; \<open>None\<close> for an empty secret or replacement.\<close>

fun redact :: "nat \<Rightarrow> (string \<times> string) list \<Rightarrow> string \<Rightarrow> (string \<times> transformation_outcome list \<times> string list) option" where
  "redact index [] output = Some (output, [], [])"
| "redact index ((sensitive, replacement) # rest) output =
     (if sensitive = '''' \<or> replacement = '''' then None
      else let count = Count output sensitive in
        if count = 0 then redact (Suc index) rest output
        else map_option
          (\<lambda>(out, outcomes, ids).
             (out, (outcome ''redacted'' ''configured_redaction'' ''$'' count)\<lparr>oc_RulePosition := index + 1\<rparr> # outcomes,
              redactionIdentifier index # ids))
          (redact (Suc index) rest (ReplaceAll output sensitive replacement)))"

definition transformBytes ::
  "string \<Rightarrow> (string \<times> string) list \<Rightarrow> (string \<times> transformation_outcome list \<times> string list) option" where
  "transformBytes captured configured =
     (let (output, outcomes) =
        (if \<not> valid_utf8 captured
         then (ToValidUTF8 captured, [outcome ''stripped'' ''invalid_utf8_replaced'' ''$'' 1]) else (captured, []))
      in case redact 0 (sort_key fst configured) output of
           None \<Rightarrow> None
         | Some (output, redacted, redactions) \<Rightarrow>
             let (output, terminalCount) = stripTerminalSequences output;
                 (output, controlCount) = stripRawControls output
             in Some (output,
                  outcomes @ redacted @
                  (if 0 < terminalCount then [outcome ''stripped'' ''terminal_escape_sequence'' ''$'' terminalCount] else []) @
                  (if 0 < controlCount then [outcome ''stripped'' ''raw_control_character'' ''$'' controlCount] else []),
                  redactions))"

section \<open>Inspection of text\<close>

definition normalizedText :: "sanitise_env \<Rightarrow> string \<Rightarrow> string" where
  "normalizedText env v = Join (Fields (se_ToLower env (se_NFKC env v))) '' ''"

definition containsTerminalOrControl :: "string \<Rightarrow> bool" where
  "containsTerminalOrControl v \<longleftrightarrow> CHR 0x1B \<in> set v \<or> IndexFunc v (\<lambda>r. IsControl r \<and> r \<noteq> 10 \<and> r \<noteq> 13 \<and> r \<noteq> 9)"

definition isHexCharacter :: "nat \<Rightarrow> bool" where
  "isHexCharacter r \<longleftrightarrow> 48 \<le> r \<and> r \<le> 57 \<or> 97 \<le> r \<and> r \<le> 102 \<or> 65 \<le> r \<and> r \<le> 70"

definition isBase64Character :: "nat \<Rightarrow> bool" where
  "isBase64Character r \<longleftrightarrow>
     97 \<le> r \<and> r \<le> 122 \<or> 65 \<le> r \<and> r \<le> 90 \<or> 48 \<le> r \<and> r \<le> 57 \<or>
     r = 43 \<or> r = 47 \<or> r = 95 \<or> r = 45 \<or> r = 61"

function encoded_scan :: "int \<Rightarrow> string \<Rightarrow> nat \<Rightarrow> nat \<Rightarrow> nat \<Rightarrow> nat \<Rightarrow> bool" where
  "encoded_scan minimum v index base64Run hexRun urlEncodedRun =
     (if length v \<le> index then False
      else let (char, width) = DecodeRune (drop index v);
               base64Run = (if isBase64Character char then base64Run + 1 else 0);
               hexRun = (if isHexCharacter char then hexRun + 1 else 0);
               urlEncodedRun =
                 (if char = 37 \<and> index + 2 < length v \<and> isHexCharacter (of_char (v ! (index + 1))) \<and> isHexCharacter (of_char (v ! (index + 2)))
                  then urlEncodedRun + 3
                  else if index = 0 \<or> v ! (index - 1) \<noteq> CHR ''%'' \<and> (index < 2 \<or> v ! (index - 2) \<noteq> CHR ''%'') then 0
                  else urlEncodedRun)
           in if minimum \<le> int base64Run \<or> minimum \<le> int hexRun then True
              else if minimum \<le> int urlEncodedRun then True
              else encoded_scan minimum v (index + width) base64Run hexRun urlEncodedRun)"
  by pat_completeness auto
termination
proof (relation "measure (\<lambda>(_, v, index, _). length v - index)", goal_cases)
  case (2 minimum v index b h u p char width)
  then have "0 < width" using DecodeRune_size [of "drop index v"] by (metis drop_eq_Nil not_le snd_conv)
  with 2 show ?case by simp
qed simp

declare encoded_scan.simps [simp del]

definition containsEncodedToken :: "string \<Rightarrow> int \<Rightarrow> bool" where
  "containsEncodedToken v minimum = encoded_scan minimum v 0 0 0 0"

fun repetition_scan :: "int \<Rightarrow> nat \<Rightarrow> nat \<Rightarrow> nat list \<Rightarrow> bool" where
  "repetition_scan limit previous run [] = False"
| "repetition_scan limit previous run (char # chars) =
     (let (previous, run) = (if char = previous then (previous, run + 1) else (char, 1))
      in limit < int run \<or> repetition_scan limit previous run chars)"

definition hasAbnormalRepetition :: "string \<Rightarrow> int \<Rightarrow> bool" where
  "hasAbnormalRepetition v limit = repetition_scan limit 0 0 (runes v)"

text \<open>The position of the first instruction pattern the text contains.\<close>

fun instruction_at :: "sanitise_env \<Rightarrow> nat \<Rightarrow> string \<Rightarrow> string list \<Rightarrow> nat option" where
  "instruction_at env index normalized [] = None"
| "instruction_at env index normalized (pattern # patterns) =
     (if Contains normalized (normalizedText env pattern) then Some index
      else instruction_at env (Suc index) normalized patterns)"

definition inspectString ::
  "sanitise_env \<Rightarrow> string \<Rightarrow> string \<Rightarrow> sanitise_rules \<Rightarrow> transformation_outcome list \<times> bool" where
  "inspectString env v path rules =
     (if su_MaximumStringBytes rules < int (length v) then ([outcome ''rejected'' ''maximum_string_bytes'' path 1], True)
      else case instruction_at env 0 (normalizedText env v) (su_InstructionPatterns rules) of
        Some index \<Rightarrow> ([(outcome ''rejected'' ''instruction_like_text'' path 1)\<lparr>oc_RulePosition := index + 1\<rparr>], True)
      | None \<Rightarrow>
          if containsTerminalOrControl v then ([outcome ''rejected'' ''encoded_control_or_terminal'' path 1], True)
          else ([], False))"

definition inspectTaintedString :: "string \<Rightarrow> string \<Rightarrow> sanitise_rules \<Rightarrow> transformation_outcome list \<times> bool" where
  "inspectTaintedString v path rules =
     (if containsEncodedToken v (su_EncodedTokenMinimum rules) then ([outcome ''rejected'' ''encoded_payload'' path 1], True)
      else if hasAbnormalRepetition v (su_RepeatedCharacterLimit rules) then ([outcome ''rejected'' ''abnormal_repetition'' path 1], True)
      else ([], False))"

definition looksLikeJSON :: "string \<Rightarrow> bool" where
  "looksLikeJSON payload = (case TrimSpace payload of [] \<Rightarrow> False | c # _ \<Rightarrow> c = CHR ''{'' \<or> c = CHR ''['')"

section \<open>Inspection of JSON\<close>

record json_scanner =
  js_depth :: int
  js_nodes :: int
  js_inString :: bool
  js_escaped :: bool

definition withinLimits :: "int \<Rightarrow> int \<Rightarrow> json_scanner \<Rightarrow> bool" where
  "withinLimits maximumDepth maximumNodes s \<longleftrightarrow>
     0 \<le> js_depth s \<and> js_depth s \<le> maximumDepth \<and> js_nodes s \<le> maximumNodes"

definition consumeString :: "char \<Rightarrow> json_scanner \<Rightarrow> json_scanner" where
  "consumeString c s =
     (if js_escaped s then s\<lparr>js_escaped := False\<rparr>
      else if c = CHR 0x5C then s\<lparr>js_escaped := True\<rparr>
      else if c = CHR 0x22 then s\<lparr>js_inString := False\<rparr>
      else s)"

definition scanner_consume :: "int \<Rightarrow> int \<Rightarrow> char \<Rightarrow> json_scanner \<Rightarrow> bool \<times> json_scanner" where
  "scanner_consume maximumDepth maximumNodes c s =
     (if js_inString s then (True, consumeString c s)
      else let s' =
        (if c = CHR 0x22 then s\<lparr>js_inString := True\<rparr>
         else if c = CHR ''{'' \<or> c = CHR ''['' then s\<lparr>js_depth := js_depth s + 1, js_nodes := js_nodes s + 1\<rparr>
         else if c = CHR ''}'' \<or> c = CHR '']'' then s\<lparr>js_depth := js_depth s - 1\<rparr>
         else if c = CHR '','' then s\<lparr>js_nodes := js_nodes s + 1\<rparr>
         else s)
      in (withinLimits maximumDepth maximumNodes s', s'))"

fun json_scan :: "int \<Rightarrow> int \<Rightarrow> string \<Rightarrow> json_scanner \<Rightarrow> bool" where
  "json_scan maximumDepth maximumNodes [] s \<longleftrightarrow> js_depth s = 0 \<and> \<not> js_inString s \<and> \<not> js_escaped s"
| "json_scan maximumDepth maximumNodes (c # cs) s =
     (case scanner_consume maximumDepth maximumNodes c s of (ok, s') \<Rightarrow> ok \<and> json_scan maximumDepth maximumNodes cs s')"

definition boundedJSONStructure :: "string \<Rightarrow> int \<Rightarrow> int \<Rightarrow> bool" where
  "boundedJSONStructure payload maximumDepth maximumNodes =
     json_scan maximumDepth maximumNodes payload \<lparr>js_depth = 0, js_nodes = 0, js_inString = False, js_escaped = False\<rparr>"

definition escapeJSONPointer :: "string \<Rightarrow> string" where
  "escapeJSONPointer v = ReplaceAll (ReplaceAll v ''~'' ''~0'') ''/'' ''~1''"

record inspection_report =
  ir_tainted :: "string list"
  ir_outcomes :: "transformation_outcome list"
  ir_quarantine :: bool

definition inspect_leaf :: "sanitise_env \<Rightarrow> sanitise_rules \<Rightarrow> string \<Rightarrow> string \<Rightarrow> string \<Rightarrow> inspection_report \<Rightarrow> inspection_report" where
  "inspect_leaf env rules v path field report =
     (let isTainted = (field \<in> set (su_FreeTextJSONFields rules));
          (outcomes, quarantine) = inspectString env v path rules;
          (more, quarantine) = (if isTainted \<and> \<not> quarantine then inspectTaintedString v path rules else ([], quarantine))
      in \<lparr>ir_tainted = ir_tainted report @ (if isTainted then [path] else []),
          ir_outcomes = ir_outcomes report @
            (if isTainted then [outcome ''tainted'' ''device_controlled_free_text'' path 1] else []) @ outcomes @ more,
          ir_quarantine = (ir_quarantine report \<or> quarantine)\<rparr>)"

lemma json_member_size:
  "(k, v) \<in> set kvs \<Longrightarrow> size v < Suc (size_list (size_prod (\<lambda>x. 0) size) kvs)"
  by (induction kvs) auto

lemma json_element_size: "(i, x) \<in> set (enumerate n xs) \<Longrightarrow> size x < Suc (size_list size xs)"
  by (induction xs arbitrary: n) (auto, fastforce)

function inspectJSONValue :: "sanitise_env \<Rightarrow> sanitise_rules \<Rightarrow> json \<Rightarrow> string \<Rightarrow> string \<Rightarrow> inspection_report \<Rightarrow> inspection_report" where
  "inspectJSONValue env rules (JObject kvs) path field report =
     fold (\<lambda>(k, v) r. inspectJSONValue env rules v (path @ ''/'' @ escapeJSONPointer k) k r) (sort_key fst kvs) report"
| "inspectJSONValue env rules (JArray xs) path field report =
     fold (\<lambda>(i, x) r. inspectJSONValue env rules x (path @ ''/'' @ itoa (int i)) field r) (enumerate 0 xs) report"
| "inspectJSONValue env rules (JString v) path field report = inspect_leaf env rules v path field report"
| "inspectJSONValue env rules JNull path field report = report"
| "inspectJSONValue env rules (JBool b) path field report = report"
| "inspectJSONValue env rules (JNumber n) path field report = report"
  by pat_completeness auto

termination
proof (relation "measure (\<lambda>(_, _, v, _). size v)", goal_cases)
  case (2 env rules kvs path field report p k v y)
  then show ?case using json_member_size [of k v kvs] by simp
next
  case (3 env rules xs path field report p i x y)
  then show ?case using json_element_size [of i x 0 xs] by simp
qed simp

definition json_blank :: "string \<Rightarrow> bool" where
  "json_blank s \<longleftrightarrow> list_all (\<lambda>c. c \<in> {CHR '' '', CHR 0x09, CHR 0x0A, CHR 0x0D}) s"

text \<open>\<^verbatim>\<open>inspectPayload\<close>; a second \<^verbatim>\<open>Decode\<close> reports \<^verbatim>\<open>io.EOF\<close> when only blanks remain.\<close>

definition inspectPayload ::
  "sanitise_env \<Rightarrow> string \<Rightarrow> sanitise_rules \<Rightarrow> string list \<times> transformation_outcome list \<times> bool" where
  "inspectPayload env payload rules =
     (if \<not> looksLikeJSON payload then
        let (outcomes, quarantine) = inspectString env payload ''$'' rules;
            (more, quarantine) = (if \<not> quarantine then inspectTaintedString payload ''$'' rules else ([], quarantine))
        in ([''$''], outcome ''tainted'' ''device_controlled_free_text'' ''$'' 1 # outcomes @ more, quarantine)
      else if \<not> boundedJSONStructure payload (su_MaximumNestingDepth rules) (su_MaximumJSONNodes rules)
      then ([], [outcome ''rejected'' ''json_structure_limit'' ''$'' 1], True)
      else case se_Decode env payload of
        None \<Rightarrow> ([], [outcome ''rejected'' ''invalid_json'' ''$'' 1], True)
      | Some (v, rest) \<Rightarrow>
          if \<not> json_blank rest then ([], [outcome ''rejected'' ''multiple_json_values'' ''$'' 1], True)
          else let report = inspectJSONValue env rules v ''$'' '''' \<lparr>ir_tainted = [], ir_outcomes = [], ir_quarantine = False\<rparr>
               in (ir_tainted report, ir_outcomes report, ir_quarantine report))"

definition truncateUTF8 :: "string \<Rightarrow> int \<Rightarrow> string" where
  "truncateUTF8 payload limit = trim_valid (take (nat limit) payload)"

section \<open>The transformation\<close>

text \<open>The bound on the output, the verdict and the manifest, once the output has been inspected.\<close>

definition finish_transform ::
  "sanitise_env \<Rightarrow> sanitise_pipeline \<Rightarrow> sanitise_rules \<Rightarrow> string \<Rightarrow> string \<times> transformation_outcome list \<times> string list
   \<Rightarrow> string list \<times> transformation_outcome list \<times> bool \<Rightarrow> string \<times> transformation_manifest" where
  "finish_transform env p rules captured = (\<lambda>(output, outcomes, redactions) (tainted, inspected, rejected).
     let truncated = (sp_MaximumBytes p < int (length output));
         exceeded = (truncated \<and> looksLikeJSON output);
         quarantine = (rejected \<or> exceeded);
         cut = (if exceeded then [outcome ''rejected'' ''bounded_json_exceeded'' ''$'' 1]
                else if truncated then [outcome ''truncated'' ''maximum_output_bytes'' ''$'' 1] else []);
         output = (if quarantine then quarantinedOutputJSON
                   else if truncated then truncateUTF8 output (sp_MaximumBytes p) else output);
         verdict = (if quarantine then outcome ''quarantined'' ''hostile_or_invalid_content'' ''$'' 1
                    else outcome ''retained'' ''policy_checks_passed'' ''$'' 1)
     in (output,
         \<lparr>tm_ManifestVersion = TransformationManifestVersionV1, tm_PipelineID = sp_ID p,
          tm_PipelineVersion = sp_Version p, tm_RulesVersion = su_Version rules,
          tm_InputDigest = sanitise_digest env captured, tm_OutputDigest = sanitise_digest env output,
          tm_OverallStatus = (if quarantine then ''quarantined'' else if tainted \<noteq> [] then ''tainted'' else ''clean''),
          tm_RedactionsApplied = sort redactions, tm_TaintedFields = remdups_adj (sort tainted),
          tm_Outcomes = sortOutcomes (outcomes @ inspected @ cut @ [verdict]),
          tm_Quarantined = quarantine, tm_Truncated = (truncated \<and> \<not> quarantine),
          tm_OriginalByteCount = length captured, tm_OutputByteCount = length output\<rparr>))"

definition Pipeline_Transform ::
  "sanitise_env \<Rightarrow> sanitise_pipeline \<Rightarrow> string \<Rightarrow> string + string \<times> transformation_manifest" where
  "Pipeline_Transform env p captured =
     (if sp_ID p = '''' \<or> sp_Version p = '''' \<or> sp_MaximumBytes p < int (length quarantinedOutputJSON) \<or>
         MaximumArtefactBytes < sp_MaximumBytes p \<or> captured = [] \<or> MaximumArtefactBytes < int (length captured)
      then Inl ''pipeline identity and bounded captured bytes are required''
      else case resolveRules (sp_Rules p) of
        Inl e \<Rightarrow> Inl e
      | Inr rules \<Rightarrow>
          (case transformBytes captured (sp_Redactions p) of
             None \<Rightarrow> Inl ''redaction values must be non-empty''
           | Some t \<Rightarrow>
               Inr (finish_transform env p rules captured t
                 (if fst t = [] then ([], [outcome ''rejected'' ''all_content_removed'' ''$'' 1], True)
                  else inspectPayload env (fst t) rules))))"

section \<open>What the stages guarantee\<close>

text \<open>A byte that no raw control occupies; bytes of longer runes are never in the control range.\<close>

definition printable :: "char \<Rightarrow> bool" where
  "printable c \<longleftrightarrow> keep_rune (of_char c)"

lemma printable_high: "0x80 \<le> (of_char c :: nat) \<Longrightarrow> printable c"
  by (simp add: printable_def keep_rune_def)

lemma encode_printable:
  assumes "valid_rune r" and "keep_rune r"
  shows "list_all printable (encode_valid r)"
proof (cases "r < 0x80")
  case True
  then show ?thesis using assms(2) by (simp add: encode_valid_def printable_def)
next
  case False
  have "r div 262144 < 8" "r div 4096 < 512" if "r \<le> 0x10FFFF" using that by auto
  moreover have "r \<le> 0x10FFFF" using assms(1) by (auto simp: valid_rune_def)
  ultimately have b: "r div 262144 < 8" "r div 4096 < 512" by auto
  have c: "r < 0x10000 \<Longrightarrow> r div 4096 < 16" "r < 0x800 \<Longrightarrow> r div 64 < 32" by auto
  show ?thesis
    using False b c by (auto simp: encode_valid_def intro!: printable_high)
qed

lemma stripRawControls_runes:
  "fst (stripRawControls s) = string_of_runes (filter keep_rune (runes s))"
proof (induction s rule: stripRawControls.induct)
  case (1 s)
  show ?case
  proof (cases "s = []")
    case True
    then show ?thesis by (simp add: stripRawControls.simps)
  next
    case False
    obtain r n where d: "DecodeRune s = (r, n)" by (cases "DecodeRune s")
    have v: "valid_rune r" using DecodeRune_valid [of s] d by simp
    have ih: "fst (stripRawControls (drop n s)) = string_of_runes (filter keep_rune (runes (drop n s)))"
      using 1 [OF False d [symmetric]] by simp
    have rs: "runes s = r # runes (drop n s)" using False d by (subst runes.simps) simp
    obtain clean k where "stripRawControls (drop n s) = (clean, k)" by (cases "stripRawControls (drop n s)")
    then show ?thesis
      using False d v ih by (subst stripRawControls.simps) (simp add: rs string_of_runes_Cons AppendRune_def)
  qed
qed

lemma string_of_runes_valid: "list_all valid_rune rs \<Longrightarrow> valid_utf8 (string_of_runes rs)"
proof (induction rs)
  case (Cons r rs)
  have d: "DecodeRune (encode_valid r @ string_of_runes rs) = (r, length (encode_valid r))"
    using Cons.prems by (intro DecodeRune_encode) simp
  then have "\<not> bad_start (encode_valid r @ string_of_runes rs)"
    by (auto simp: bad_start_def length_encode_valid RuneError_def)
  then show ?case
    using Cons d by (subst valid_utf8.simps) (simp add: string_of_runes_Cons)
qed simp

lemma string_of_runes_printable:
  "list_all valid_rune rs \<Longrightarrow> list_all keep_rune rs \<Longrightarrow> list_all printable (string_of_runes rs)"
  by (induction rs) (auto simp: string_of_runes_Cons encode_printable)

lemma stripped_clean:
  "valid_utf8 (fst (stripRawControls s))" "list_all printable (fst (stripRawControls s))"
proof -
  have "list_all valid_rune (filter keep_rune (runes s))" using runes_valid by (auto simp: list_all_iff)
  moreover have "list_all keep_rune (filter keep_rune (runes s))" by (auto simp: list_all_iff)
  ultimately show "valid_utf8 (fst (stripRawControls s))" "list_all printable (fst (stripRawControls s))"
    by (simp_all add: stripRawControls_runes string_of_runes_valid string_of_runes_printable)
qed

lemma transformBytes_clean:
  assumes "transformBytes captured configured = Some (body, outcomes, redactions)"
  shows "valid_utf8 body" "list_all printable body"
proof -
  obtain s where "body = fst (stripRawControls s)"
    using assms by (auto simp: transformBytes_def Let_def split: option.splits if_splits prod.splits) (metis fst_conv)+
  then show "valid_utf8 body" "list_all printable body" using stripped_clean by simp_all
qed

text \<open>The parts of a successful transformation.\<close>

definition inspected_as ::
  "sanitise_env \<Rightarrow> sanitise_rules \<Rightarrow> string \<Rightarrow> string list \<times> transformation_outcome list \<times> bool" where
  "inspected_as env rules body =
     (if body = [] then ([], [outcome ''rejected'' ''all_content_removed'' ''$'' 1], True) else inspectPayload env body rules)"

lemma Transform_ok:
  assumes "Pipeline_Transform env p captured = Inr (out, m)"
  obtains rules body outcomes redactions where
    "resolveRules (sp_Rules p) = Inr rules" "transformBytes captured (sp_Redactions p) = Some (body, outcomes, redactions)"
    "int (length quarantinedOutputJSON) \<le> sp_MaximumBytes p" "captured \<noteq> []" "sp_ID p \<noteq> []" "sp_Version p \<noteq> []"
    "(out, m) = finish_transform env p rules captured (body, outcomes, redactions) (inspected_as env rules body)"
  using assms by (auto simp: Pipeline_Transform_def inspected_as_def split: if_splits sum.splits option.splits)

lemma finish_output:
  assumes "(out, m) = finish_transform env p rules captured (body, outcomes, redactions) (tainted, inspected, rejected)"
  shows "tm_Quarantined m \<longleftrightarrow> rejected \<or> sp_MaximumBytes p < int (length body) \<and> looksLikeJSON body"
    and "out = (if tm_Quarantined m then quarantinedOutputJSON
            else if sp_MaximumBytes p < int (length body) then truncateUTF8 body (sp_MaximumBytes p) else body)"
    and "tm_Truncated m \<longleftrightarrow> sp_MaximumBytes p < int (length body) \<and> \<not> tm_Quarantined m"
  using assms by (simp_all add: finish_transform_def Let_def)

lemma finish_manifest:
  assumes "(out, m) = finish_transform env p rules captured (body, outcomes, redactions) (tainted, inspected, rejected)"
  shows "tm_InputDigest m = sanitise_digest env captured" "tm_OutputDigest m = sanitise_digest env out"
    "tm_OriginalByteCount m = length captured" "tm_OutputByteCount m = length out"
    "tm_ManifestVersion m = TransformationManifestVersionV1" "tm_PipelineID m = sp_ID p" "tm_PipelineVersion m = sp_Version p"
    "tm_RulesVersion m = su_Version rules" "tm_TaintedFields m = remdups_adj (sort tainted)"
    "tm_RedactionsApplied m = sort redactions"
    "tm_OverallStatus m = (if tm_Quarantined m then ''quarantined'' else if tainted \<noteq> [] then ''tainted'' else ''clean'')"
  using assms by (simp_all add: finish_transform_def Let_def)

lemma ascii_valid: "list_all (\<lambda>c. of_char c < (0x80 :: nat)) s \<Longrightarrow> valid_utf8 s"
proof (induction s)
  case (Cons c s)
  then show ?case by (subst valid_utf8.simps) (simp add: bad_start_def Let_def RuneError_def)
qed simp

lemma quarantined_clean: "valid_utf8 quarantinedOutputJSON" "list_all printable quarantinedOutputJSON" "quarantinedOutputJSON \<noteq> []"
proof -
  have "list_all (\<lambda>c. of_char c < (0x80 :: nat)) quarantinedOutputJSON" by (simp add: quarantinedOutputJSON_def)
  then show "valid_utf8 quarantinedOutputJSON" by (rule ascii_valid)
  show "list_all printable quarantinedOutputJSON" by (simp add: quarantinedOutputJSON_def printable_def keep_rune_def)
  show "quarantinedOutputJSON \<noteq> []" by (simp add: quarantinedOutputJSON_def)
qed

lemma truncated_clean:
  assumes "valid_utf8 body" and "list_all printable body" and "20 \<le> n" and "n < int (length body)"
  shows "valid_utf8 (truncateUTF8 body n) \<and> list_all printable (truncateUTF8 body n) \<and> truncateUTF8 body n \<noteq> []
    \<and> int (length (truncateUTF8 body n)) \<le> n \<and> prefix (truncateUTF8 body n) body"
proof -
  obtain j where j: "nat n \<le> j + 3" "j \<le> nat n" "valid_utf8 (take j body)"
    using valid_cut [OF assms(1), of "nat n"] assms(4) by (metis less_imp_le nat_le_iff)
  have "nat n < length body" using assms(3,4) by linarith
  then have s: "valid_utf8 (truncateUTF8 body n)" "prefix (truncateUTF8 body n) (take (nat n) body)" "j \<le> length (truncateUTF8 body n)"
    using trim_valid_spec [of "take (nat n) body" j] j by (simp_all add: truncateUTF8_def min_def)
  have p: "prefix (truncateUTF8 body n) body" using s(2) take_is_prefix prefix_order.trans by blast
  then have "set (truncateUTF8 body n) \<subseteq> set body" by (rule set_mono_prefix)
  then have "list_all printable (truncateUTF8 body n)" using assms(2) by (auto simp: list_all_iff)
  moreover have "int (length (truncateUTF8 body n)) \<le> n" using prefix_length_le [OF s(2)] assms(3) by (simp, linarith)
  ultimately show ?thesis using s j assms(3) p by auto
qed

lemma quarantined_length: "length quarantinedOutputJSON = 20"
  by (simp add: quarantinedOutputJSON_def)

text \<open>
  C35. Whatever bytes a device sends, the sanitised artefact is a non-empty valid UTF-8 text within the
  byte limit of the pipeline; it contains no control byte below 0x20 except tab, line feed and carriage
  return, so in particular no escape byte, and no 0x7F; a quarantined artefact is the fixed
  quarantine marker; and the manifest gives the digest and size of the output and of the captured bytes.
\<close>

theorem sanitised_output_safe:
  assumes "Pipeline_Transform env p captured = Inr (out, m)"
  shows "valid_utf8 out \<and> out \<noteq> [] \<and> int (length out) \<le> sp_MaximumBytes p
    \<and> (\<forall>c \<in> set out. of_char c \<in> {9, 10, 13 :: nat} \<or> 0x20 \<le> (of_char c :: nat) \<and> of_char c \<noteq> (0x7F :: nat))
    \<and> (tm_Quarantined m \<longrightarrow> out = quarantinedOutputJSON)
    \<and> tm_OutputDigest m = hex_EncodeToString (se_sha256 env out) \<and> tm_OutputByteCount m = length out
    \<and> tm_InputDigest m = hex_EncodeToString (se_sha256 env captured) \<and> tm_OriginalByteCount m = length captured"
proof -
  obtain rules body outcomes redactions where t: "transformBytes captured (sp_Redactions p) = Some (body, outcomes, redactions)"
    "int (length quarantinedOutputJSON) \<le> sp_MaximumBytes p"
    "(out, m) = finish_transform env p rules captured (body, outcomes, redactions) (inspected_as env rules body)"
    using assms by (rule Transform_ok)
  obtain tainted inspected rejected where i: "inspected_as env rules body = (tainted, inspected, rejected)"
    by (metis prod_cases3)
  note f = finish_output [OF t(3) [unfolded i]] finish_manifest [OF t(3) [unfolded i]]
  have "body \<noteq> [] \<or> tm_Quarantined m" using f(1) i by (auto simp: inspected_as_def split: if_splits)
  then have safe: "valid_utf8 out \<and> list_all printable out \<and> out \<noteq> [] \<and> int (length out) \<le> sp_MaximumBytes p"
    unfolding f(2) using t(2) transformBytes_clean [OF t(1)] quarantined_clean
      truncated_clean [of body "sp_MaximumBytes p", unfolded quarantined_length]
    by (auto simp: quarantined_length)
  then have "\<forall>c \<in> set out. of_char c \<in> {9, 10, 13 :: nat} \<or> 0x20 \<le> (of_char c :: nat) \<and> of_char c \<noteq> (0x7F :: nat)"
    by (auto simp: list_all_iff printable_def keep_rune_def)
  moreover have "tm_Quarantined m \<longrightarrow> out = quarantinedOutputJSON" using f(2) by simp
  ultimately show ?thesis using safe f(4-7) by (simp add: sanitise_digest_def)
qed

section \<open>What a released text passed\<close>

text \<open>The strings of a document, each with the field \<^verbatim>\<open>inspectJSONValue\<close> reaches it under.\<close>

primrec json_fields :: "json \<Rightarrow> string \<Rightarrow> (string \<times> string) list" where
  "json_fields JNull field = []"
| "json_fields (JBool b) field = []"
| "json_fields (JNumber n) field = []"
| "json_fields (JString v) field = [(field, v)]"
| "json_fields (JArray xs) field = concat (map (\<lambda>g. g field) (map json_fields xs))"
| "json_fields (JObject kvs) field = concat (map (\<lambda>(k, g). g k) (map (map_prod id json_fields) kvs))"

definition text_ok :: "sanitise_env \<Rightarrow> sanitise_rules \<Rightarrow> string \<Rightarrow> bool" where
  "text_ok env rules v \<longleftrightarrow>
     int (length v) \<le> su_MaximumStringBytes rules \<and>
     (\<forall>pattern \<in> set (su_InstructionPatterns rules). \<not> sublist (normalizedText env pattern) (normalizedText env v)) \<and>
     \<not> containsTerminalOrControl v"

definition free_text_ok :: "sanitise_rules \<Rightarrow> string \<Rightarrow> bool" where
  "free_text_ok rules v \<longleftrightarrow>
     \<not> containsEncodedToken v (su_EncodedTokenMinimum rules) \<and> \<not> hasAbnormalRepetition v (su_RepeatedCharacterLimit rules)"

definition field_ok :: "sanitise_env \<Rightarrow> sanitise_rules \<Rightarrow> string \<times> string \<Rightarrow> bool" where
  "field_ok env rules fv \<longleftrightarrow>
     text_ok env rules (snd fv) \<and> (fst fv \<in> set (su_FreeTextJSONFields rules) \<longrightarrow> free_text_ok rules (snd fv))"

lemma instruction_at_None:
  "instruction_at env index v patterns = None \<longleftrightarrow> (\<forall>pattern \<in> set patterns. \<not> sublist (normalizedText env pattern) v)"
  by (induction patterns arbitrary: index) (auto simp: Contains_sublist)

lemma inspectString_passes: "\<not> snd (inspectString env v path rules) \<longleftrightarrow> text_ok env rules v"
  using instruction_at_None [of env 0 "normalizedText env v" "su_InstructionPatterns rules"]
  by (cases "instruction_at env 0 (normalizedText env v) (su_InstructionPatterns rules)")
    (simp_all add: inspectString_def text_ok_def)

lemma inspectTaintedString_passes: "\<not> snd (inspectTaintedString v path rules) \<longleftrightarrow> free_text_ok rules v"
  by (simp add: inspectTaintedString_def free_text_ok_def)

lemma inspect_leaf_passes:
  assumes "\<not> ir_quarantine (inspect_leaf env rules v path field report)"
  shows "\<not> ir_quarantine report \<and> field_ok env rules (field, v)"
proof -
  obtain os q where i: "inspectString env v path rules = (os, q)" by (cases "inspectString env v path rules")
  obtain ts t where u: "inspectTaintedString v path rules = (ts, t)" by (cases "inspectTaintedString v path rules")
  have "\<not> q \<and> \<not> ir_quarantine report \<and> (field \<in> set (su_FreeTextJSONFields rules) \<longrightarrow> \<not> t)"
    using assms by (cases q; cases t) (simp_all add: inspect_leaf_def i u Let_def split: if_splits)
  then show ?thesis
    using inspectString_passes [of env v path rules] inspectTaintedString_passes [of v path rules] i u by (simp add: field_ok_def)
qed

lemma fold_passes:
  assumes "\<And>x r. x \<in> set xs \<Longrightarrow> \<not> q (f x r) \<Longrightarrow> \<not> q r \<and> P x" and "\<not> q (fold f xs r)"
  shows "\<not> q r \<and> (\<forall>x \<in> set xs. P x)"
  using assms
proof (induction xs arbitrary: r)
  case (Cons x xs)
  have "\<not> q (f x r) \<and> (\<forall>y \<in> set xs. P y)"
    by (rule Cons.IH) (use Cons.prems in auto)
  then show ?case using Cons.prems(1) [of x r] by simp
qed simp

lemma inspectJSON_passes:
  "\<not> ir_quarantine (inspectJSONValue env rules v path field report) \<Longrightarrow>
   \<not> ir_quarantine report \<and> (\<forall>fv \<in> set (json_fields v field). field_ok env rules fv)"
proof (induction env rules v path field report rule: inspectJSONValue.induct)
  case (1 env rules kvs path field report)
  have "\<not> ir_quarantine report \<and> (\<forall>p \<in> set (sort_key fst kvs). \<forall>fv \<in> set (json_fields (snd p) (fst p)). field_ok env rules fv)"
  proof (rule fold_passes [where f = "\<lambda>p r. case p of (k, v) \<Rightarrow> inspectJSONValue env rules v (path @ ''/'' @ escapeJSONPointer k) k r" and q = ir_quarantine])
    fix p r assume "p \<in> set (sort_key fst kvs)"
      and "\<not> ir_quarantine (case p of (k, v) \<Rightarrow> inspectJSONValue env rules v (path @ ''/'' @ escapeJSONPointer k) k r)"
    then show "\<not> ir_quarantine r \<and> (\<forall>fv \<in> set (json_fields (snd p) (fst p)). field_ok env rules fv)"
      using "1.IH" [of p "fst p" "snd p" r] by (simp add: case_prod_unfold)
  qed (use "1.prems" in \<open>simp add: case_prod_unfold\<close>)
  then show ?case by (auto simp: case_prod_unfold)
next
  case (2 env rules xs path field report)
  have "\<not> ir_quarantine report \<and> (\<forall>p \<in> set (enumerate 0 xs). \<forall>fv \<in> set (json_fields (snd p) field). field_ok env rules fv)"
  proof (rule fold_passes [where f = "\<lambda>p r. case p of (i, x) \<Rightarrow> inspectJSONValue env rules x (path @ ''/'' @ itoa (int i)) field r" and q = ir_quarantine])
    fix p r assume "p \<in> set (enumerate 0 xs)"
      and "\<not> ir_quarantine (case p of (i, x) \<Rightarrow> inspectJSONValue env rules x (path @ ''/'' @ itoa (int i)) field r)"
    then show "\<not> ir_quarantine r \<and> (\<forall>fv \<in> set (json_fields (snd p) field). field_ok env rules fv)"
      using "2.IH" [of p "fst p" "snd p" r] by (simp add: case_prod_unfold)
  qed (use "2.prems" in \<open>simp add: case_prod_unfold\<close>)
  then have "\<forall>x \<in> set (map snd (enumerate 0 xs)). \<forall>fv \<in> set (json_fields x field). field_ok env rules fv" and "\<not> ir_quarantine report"
    unfolding set_map by blast+
  then show ?case by simp
next
  case (3 env rules v path field report)
  then show ?case using inspect_leaf_passes by simp
qed simp_all

text \<open>
  C36. What the sanitiser releases has been inspected.  An output that is neither quarantined nor
  truncated is one of two things.  It is a single JSON document within the structure limits, in which no
  string value is too long, contains an instruction pattern (after normalisation) or hides a control
  or terminal character, and in which no string under a free-text field, directly or in arrays,
  carries a long encoded token or an abnormal repetition.  Or it is a plain text of which all this
  holds as a whole, and which is marked as device-controlled.
\<close>

theorem released_text_inspected:
  assumes "Pipeline_Transform env p captured = Inr (out, m)" and "\<not> tm_Quarantined m" and "\<not> tm_Truncated m"
  shows "\<exists>rules. resolveRules (sp_Rules p) = Inr rules \<and>
    (if looksLikeJSON out
     then boundedJSONStructure out (su_MaximumNestingDepth rules) (su_MaximumJSONNodes rules) \<and>
       (\<exists>v rest. se_Decode env out = Some (v, rest) \<and> json_blank rest \<and> (\<forall>(field, s) \<in> set (json_fields v ''''). text_ok env rules s \<and>
          (field \<in> set (su_FreeTextJSONFields rules) \<longrightarrow>
             \<not> containsEncodedToken s (su_EncodedTokenMinimum rules) \<and> \<not> hasAbnormalRepetition s (su_RepeatedCharacterLimit rules))))
     else text_ok env rules out \<and> \<not> containsEncodedToken out (su_EncodedTokenMinimum rules) \<and>
       \<not> hasAbnormalRepetition out (su_RepeatedCharacterLimit rules) \<and> tm_TaintedFields m = [''$''])"
proof -
  obtain rules body outcomes redactions where r: "resolveRules (sp_Rules p) = Inr rules"
    and f: "(out, m) = finish_transform env p rules captured (body, outcomes, redactions) (inspected_as env rules body)"
    using assms(1) by (rule Transform_ok)
  obtain tainted inspected rejected where i: "inspected_as env rules body = (tainted, inspected, rejected)"
    by (metis prod_cases3)
  note o = finish_output [OF f [unfolded i]] finish_manifest [OF f [unfolded i]]
  have body: "out = body" "body \<noteq> []" "\<not> rejected"
    using o(1-3) assms(2,3) i by (auto simp: inspected_as_def split: if_splits)
  have ins: "inspectPayload env out rules = (tainted, inspected, False)"
    using i body by (simp add: inspected_as_def)
  show ?thesis
  proof (intro exI conjI)
    show "resolveRules (sp_Rules p) = Inr rules" by (rule r)
    show "if looksLikeJSON out
     then boundedJSONStructure out (su_MaximumNestingDepth rules) (su_MaximumJSONNodes rules) \<and>
       (\<exists>v rest. se_Decode env out = Some (v, rest) \<and> json_blank rest \<and> (\<forall>(field, s) \<in> set (json_fields v ''''). text_ok env rules s \<and>
          (field \<in> set (su_FreeTextJSONFields rules) \<longrightarrow>
             \<not> containsEncodedToken s (su_EncodedTokenMinimum rules) \<and> \<not> hasAbnormalRepetition s (su_RepeatedCharacterLimit rules))))
     else text_ok env rules out \<and> \<not> containsEncodedToken out (su_EncodedTokenMinimum rules) \<and>
       \<not> hasAbnormalRepetition out (su_RepeatedCharacterLimit rules) \<and> tm_TaintedFields m = [''$'']"
    proof (cases "looksLikeJSON out")
      case True
      then obtain v rest where "boundedJSONStructure out (su_MaximumNestingDepth rules) (su_MaximumJSONNodes rules)"
        "se_Decode env out = Some (v, rest)" "json_blank rest"
        "\<not> ir_quarantine (inspectJSONValue env rules v ''$'' '''' \<lparr>ir_tainted = [], ir_outcomes = [], ir_quarantine = False\<rparr>)"
        using ins by (auto simp: inspectPayload_def Let_def split: if_splits option.splits)
      moreover from this(4) have "\<forall>fv \<in> set (json_fields v ''''). field_ok env rules fv" using inspectJSON_passes by blast
      ultimately show ?thesis using True by (fastforce simp: field_ok_def free_text_ok_def)
    next
      case False
      then have "tainted = [''$'']" and "text_ok env rules out" and "\<not> snd (inspectTaintedString out ''$'' rules)"
        using ins inspectString_passes [of env out "''$''" rules]
        by (auto simp: inspectPayload_def Let_def split: if_splits prod.splits)
      then show ?thesis using False o(12) by (auto simp: inspectTaintedString_def split: if_splits)
    qed
  qed
qed

section \<open>Repetition\<close>

lemma replicate_break:
  assumes "c \<noteq> p" and "r \<le> n"
  shows "sublist (replicate (Suc n) d) (replicate r p @ c # cs) \<longleftrightarrow> sublist (replicate (Suc n) d) (c # cs)"
  using assms(2)
proof (induction r)
  case (Suc r)
  have "\<not> prefix (replicate (Suc n) d) (replicate (Suc r) p @ c # cs)"
  proof
    assume "prefix (replicate (Suc n) d) (replicate (Suc r) p @ c # cs)"
    then obtain z where z: "replicate (Suc r) p @ c # cs = replicate (Suc n) d @ z" by (auto simp: prefix_def)
    have "(replicate (Suc r) p @ c # cs) ! 0 = d" "(replicate (Suc r) p @ c # cs) ! Suc r = d"
      unfolding z using Suc.prems by (simp_all add: nth_append del: replicate_Suc)
    then show False using assms(1) by (simp add: nth_append del: replicate_Suc)
  qed
  then show ?case using Suc by (auto simp: sublist_Cons_right)
qed simp

lemma repetition_scan_spec:
  "int r \<le> limit \<Longrightarrow> repetition_scan limit p r cs \<longleftrightarrow> (\<exists>d. sublist (replicate (Suc (nat limit)) d) (replicate r p @ cs))"
proof (induction cs arbitrary: p r)
  case Nil
  then show ?case by (auto dest: sublist_length_le)
next
  case (Cons c cs)
  define p' r' where "p' = (if c = p then p else c)" and "r' = (if c = p then Suc r else 1)"
  have scan: "repetition_scan limit p r (c # cs) \<longleftrightarrow> limit < int r' \<or> repetition_scan limit p' r' cs"
    by (simp add: p'_def r'_def)
  have same: "(\<exists>d. sublist (replicate (Suc (nat limit)) d) (replicate r p @ c # cs))
      \<longleftrightarrow> (\<exists>d. sublist (replicate (Suc (nat limit)) d) (replicate r' p' @ cs))"
    using replicate_break [of c p r "nat limit"] Cons.prems
    by (cases "c = p") (auto simp: p'_def r'_def replicate_app_Cons_same nat_le_iff le_nat_iff)
  show ?case
  proof (cases "limit < int r'")
    case True
    then have "r' = Suc (nat limit)" using Cons.prems by (auto simp: r'_def split: if_splits)
    then have "sublist (replicate (Suc (nat limit)) p') (replicate r' p' @ cs)" by simp
    then show ?thesis using True scan same by blast
  next
    case False
    then show ?thesis using Cons.IH [of r' p'] scan same by simp
  qed
qed

text \<open>
  C38. The single-pass repetition detector decides exactly its specification: for every limit the rules
  allow, it reports a text if and only if some character occurs more than \<open>limit\<close> times in a row.
\<close>

theorem repetition_detector_exact:
  assumes "resolveRules configured = Inr rules"
  shows "hasAbnormalRepetition v (su_RepeatedCharacterLimit rules)
    \<longleftrightarrow> (\<exists>c n. su_RepeatedCharacterLimit rules < int n \<and> sublist (replicate n c) (runes v))"
proof -
  define l where "l = su_RepeatedCharacterLimit rules"
  have l: "0 \<le> l" using assms by (auto simp: resolveRules_def Let_def l_def split: if_splits)
  have "sublist (replicate (Suc (nat l)) c) (runes v)" if "l < int n" "sublist (replicate n c) (runes v)" for c n
  proof -
    have "replicate n c = replicate (Suc (nat l)) c @ replicate (n - Suc (nat l)) c"
      using that(1) l by (simp add: replicate_add [symmetric] del: replicate_Suc)
    then have "sublist (replicate (Suc (nat l)) c) (replicate n c)" by (metis sublist_appendI append_Nil)
    then show ?thesis using that(2) sublist_order.order_trans by blast
  qed
  moreover have "l < int (Suc (nat l))" using l by simp
  ultimately show ?thesis
    unfolding hasAbnormalRepetition_def l_def [symmetric] repetition_scan_spec [of 0 l 0 "runes v", simplified, OF l]
    by (metis replicate_Suc)
qed

section \<open>Redaction\<close>

lemma redact_absent:
  assumes "redact index rs out = Some (out', outcomes, ids)"
    and "\<forall>u \<in> K. u \<noteq> [] \<and> \<not> sublist u out"
    and "\<forall>u \<in> K \<union> fst ` set rs. \<forall>r \<in> snd ` set rs. set u \<inter> set r = {}"
  shows "\<forall>u \<in> K \<union> fst ` set rs. \<not> sublist u out'"
  using assms
proof (induction index rs out arbitrary: K outcomes ids rule: redact.induct)
  case (1 index out)
  then show ?case by simp
next
  case (2 index s r rest out)
  define body where "body = (if Count out s = 0 then out else ReplaceAll out s r)"
  have sr: "s \<noteq> []" "r \<noteq> []" using "2.prems"(1) by (auto split: if_splits)
  obtain outcomes1 ids1 where run: "redact (Suc index) rest body = Some (out', outcomes1, ids1)"
    using "2.prems"(1) sr by (auto simp: body_def Let_def split: if_splits)
  have d: "set u \<inter> set r = {}" if "u \<in> insert s K" for u using "2.prems"(3) that by auto
  have k: "\<forall>u \<in> insert s K. u \<noteq> [] \<and> \<not> sublist u body"
    using Replace_absent [OF _ sr(2) sr(1) d, of _ out] "2.prems"(2) sr Count_zero [OF sr(1), of out]
    by (auto simp: body_def)
  have "\<forall>u \<in> insert s K \<union> fst ` set rest. \<not> sublist u out'"
  proof (cases "Count out s = 0")
    case True
    then show ?thesis
      using "2.IH"(1) [OF _ refl True, of outcomes1 ids1 "insert s K"] sr run k "2.prems"(3) by (simp add: body_def)
  next
    case False
    then show ?thesis
      using "2.IH"(2) [OF _ refl False, of outcomes1 ids1 "insert s K"] sr run k "2.prems"(3) by (simp add: body_def)
  qed
  then show ?case by auto
qed

lemma redact_set:
  "redact index rs out = Some (out', outcomes, ids) \<Longrightarrow> set out' \<subseteq> set out \<union> (\<Union>r \<in> snd ` set rs. set r)"
proof (induction index rs out arbitrary: outcomes ids rule: redact.induct)
  case (2 index s r rest out)
  have sr: "s \<noteq> []" "r \<noteq> []" using "2.prems" by (auto split: if_splits)
  show ?case
  proof (cases "Count out s = 0")
    case True
    then show ?thesis using "2.IH"(1) [OF _ refl True] "2.prems" sr by auto
  next
    case False
    then obtain o1 i1 where "redact (Suc index) rest (ReplaceAll out s r) = Some (out', o1, i1)"
      using "2.prems" sr by (auto simp: Let_def)
    then have "set out' \<subseteq> set (ReplaceAll out s r) \<union> (\<Union>r \<in> snd ` set rest. set r)"
      using "2.IH"(2) [OF _ refl False] sr by simp
    then show ?thesis using set_Replace [of out s r] by auto
  qed
qed simp

lemma strip_no_escape: "CHR 0x1B \<notin> set s \<Longrightarrow> stripTerminalSequences s = (s, 0)"
  by (induction s rule: stripTerminalSequences.induct) auto

lemma decode_high:
  assumes "0xC2 \<le> b"
  shows "0x80 \<le> fst (decode2 b cs)"
    and "0xE0 \<le> b \<Longrightarrow> 0x80 \<le> fst (decode3 b cs)"
    and "0xF0 \<le> b \<Longrightarrow> 0x80 \<le> fst (decode4 b cs)"
  using assms
  by (auto simp: decode2_def decode3_def decode4_def RuneError_def low6_def in_byte_def cont_def split: list.splits)

lemma DecodeRune_low:
  assumes "fst (DecodeRune (c # s)) < 0x80"
  shows "DecodeRune (c # s) = (of_char c, 1)"
  using assms decode_high [of "of_char c" s] by (auto simp: Let_def RuneError_def split: if_splits)

lemma encode_high: "0x80 \<le> r \<Longrightarrow> valid_rune r \<Longrightarrow> c \<in> set (encode_valid r) \<Longrightarrow> 0x80 \<le> (of_char c :: nat)"
proof -
  assume r: "0x80 \<le> r" "valid_rune r" and c: "c \<in> set (encode_valid r)"
  have "r \<le> 0x10FFFF" using r(2) by (auto simp: valid_rune_def)
  then have b: "r div 262144 < 8" by auto
  have "r < 0x10000 \<Longrightarrow> r div 4096 < 16" "r < 0x800 \<Longrightarrow> r div 64 < 32" by auto
  then show ?thesis using r b c by (auto simp: encode_valid_def split: if_splits)
qed

text \<open>Dropping controls and replacing broken bytes brings no ASCII text together when there is no control.\<close>

lemma strip_keeps_absent:
  assumes "list_all printable s" and "list_all (\<lambda>c. of_char c < (0x80 :: nat)) u"
  shows "(prefix u (fst (stripRawControls s)) \<longrightarrow> prefix u s) \<and> (sublist u (fst (stripRawControls s)) \<longrightarrow> sublist u s)"
  using assms
proof (induction s arbitrary: u rule: stripRawControls.induct)
  case (1 s)
  show ?case
  proof (cases s)
    case Nil
    then show ?thesis by (simp add: stripRawControls.simps)
  next
    case (Cons c t)
    obtain r n where d: "DecodeRune s = (r, n)" by (cases "DecodeRune s")
    obtain y k where y: "stripRawControls (drop n s) = (y, k)" by (cases "stripRawControls (drop n s)")
    have v: "valid_rune r" using DecodeRune_valid [of s] d by simp
    have ne: "s \<noteq> []" using Cons by simp
    have pr: "list_all printable (drop n s)" using "1.prems"(1) by (auto simp: list_all_iff dest: in_set_dropD)
    have ih: "(prefix w y \<longrightarrow> prefix w (drop n s)) \<and> (sublist w y \<longrightarrow> sublist w (drop n s))"
      if "list_all (\<lambda>c. of_char c < (0x80 :: nat)) w" for w
      using "1.IH" [OF ne d [symmetric] pr that] y by simp
    have low: "r < 0x80 \<Longrightarrow> r = of_char c \<and> n = 1" using DecodeRune_low [of c t] d Cons by simp
    have keep: "keep_rune r" using low "1.prems"(1) Cons by (cases "r < 0x80") (auto simp: printable_def keep_rune_def)
    have out: "fst (stripRawControls s) = encode_valid r @ y"
      using ne d y keep v by (subst stripRawControls.simps) (simp add: AppendRune_def)
    show ?thesis
    proof (cases "r < 0x80")
      case True
      then have "encode_valid r = [c]" and "drop n s = t" using low Cons by (auto simp: encode_valid_def)
      then have pre: "prefix w (c # y) \<longrightarrow> prefix w s" if "list_all (\<lambda>c. of_char c < (0x80 :: nat)) w" for w
        using ih that Cons by (cases w) auto
      then show ?thesis
        using out ih [OF "1.prems"(2)] "1.prems"(2) \<open>encode_valid r = [c]\<close> \<open>drop n s = t\<close> Cons
        by (auto simp: sublist_Cons_right)
    next
      case False
      then have dis: "set u \<inter> set (encode_valid r) = {}"
        using encode_high [OF _ v] "1.prems"(2) by (fastforce simp: list_all_iff)
      have "prefix u (encode_valid r @ y) \<longrightarrow> u = []"
        using dis by (cases u; cases "encode_valid r") auto
      moreover have "sublist u (encode_valid r @ y) \<longrightarrow> sublist u s"
        using sublist_skip [OF _ _ dis, of y] ih [OF "1.prems"(2)] sublist_drop [of n s] sublist_order.order_trans by (cases "u = []") blast+
      ultimately show ?thesis using out by auto
    qed
  qed
qed

lemma to_valid_set: "set (to_valid i s) \<subseteq> set s \<union> set (encode_valid RuneError)"
proof (induction i s rule: to_valid.induct)
  case (1 i s)
  show ?case
  proof (cases "s = []")
    case True
    then show ?thesis by (simp add: to_valid.simps)
  next
    case False
    let ?n = "snd (DecodeRune s)"
    show ?thesis
    proof (cases "bad_start s")
      case True
      then have "to_valid i s = (if i then [] else encode_valid RuneError) @ to_valid True (drop 1 s)"
        using False by (subst to_valid.simps) simp
      then show ?thesis using "1.IH"(1) [OF False True] set_drop_subset [of 1 s] by (auto split: if_splits)
    next
      case False2: False
      then have "to_valid i s = take ?n s @ to_valid False (drop ?n s)"
        using False by (subst to_valid.simps) simp
      then show ?thesis
        using "1.IH"(2) [OF False False2] set_drop_subset [of ?n s] set_take_subset [of ?n s] by auto
    qed
  qed
qed

text \<open>
  C37. On output without terminal sequences and control characters, redaction is complete: if no
  replacement shares a byte with a secret and the secrets are ASCII text, then no configured secret
  occurs anywhere in a released artefact, however the secrets overlap and in whatever order they
  are applied.
\<close>

theorem redaction_complete:
  assumes "Pipeline_Transform env p captured = Inr (out, m)" and "\<not> tm_Quarantined m"
    and "\<forall>c \<in> set captured. printable c"
    and "\<forall>(s, r) \<in> set (sp_Redactions p). (\<forall>c \<in> set s. of_char c < (0x80 :: nat)) \<and> (\<forall>c \<in> set r. printable c)"
    and "\<forall>(s, _) \<in> set (sp_Redactions p). \<forall>(_, r) \<in> set (sp_Redactions p). set s \<inter> set r = {}"
  shows "\<forall>(s, _) \<in> set (sp_Redactions p). \<not> sublist s out"
proof -
  let ?rs = "sort_key fst (sp_Redactions p)"
  obtain rules body outcomes redactions where t: "transformBytes captured (sp_Redactions p) = Some (body, outcomes, redactions)"
    and f: "(out, m) = finish_transform env p rules captured (body, outcomes, redactions) (inspected_as env rules body)"
    using assms(1) by (rule Transform_ok)
  obtain tainted inspected rejected where i: "inspected_as env rules body = (tainted, inspected, rejected)"
    by (metis prod_cases3)
  have "prefix out body"
    using finish_output(2) [OF f [unfolded i]] assms(2) trim_valid_spec [of "take (nat (sp_MaximumBytes p)) body" 0]
    by (auto simp: truncateUTF8_def intro: prefix_order.trans [OF _ take_is_prefix])
  define start where "start = (if valid_utf8 captured then captured else ToValidUTF8 captured)"
  obtain redacted oc where r: "redact 0 ?rs start = Some (redacted, oc, redactions)"
    and b: "body = fst (stripRawControls (fst (stripTerminalSequences redacted)))"
    using t by (auto simp: transformBytes_def start_def Let_def split: if_splits option.splits prod.splits)
  have "set start \<subseteq> set captured \<union> set (encode_valid RuneError)"
    using to_valid_set by (auto simp: start_def ToValidUTF8_def)
  moreover have "list_all printable (encode_valid RuneError)"
    by (rule encode_printable) (simp_all add: valid_rune_def RuneError_def keep_rune_def)
  ultimately have pr: "list_all printable redacted"
    using redact_set [OF r] assms(3,4) by (fastforce simp: list_all_iff)
  then have "CHR 0x1B \<notin> set redacted" by (auto simp: list_all_iff printable_def keep_rune_def)
  then have b: "body = fst (stripRawControls redacted)" using b strip_no_escape by simp
  have "\<forall>u \<in> {} \<union> fst ` set ?rs. \<not> sublist u redacted"
    by (rule redact_absent [OF r]) (simp, use assms(5) in fastforce)
  then have "\<not> sublist s body" if "(s, r') \<in> set (sp_Redactions p)" for s r'
    using strip_keeps_absent [OF pr, of s] assms(4) that b by (fastforce simp: list_all_iff)
  then show ?thesis
    using prefix_imp_sublist [OF \<open>prefix out body\<close>] sublist_order.order_trans by blast
qed

lemma ascii_strip:
  "list_all printable s \<Longrightarrow> list_all (\<lambda>c. of_char c < (0x80 :: nat)) s \<Longrightarrow> stripRawControls s = (s, 0)"
proof (induction s)
  case (Cons c s)
  then show ?case
    by (subst stripRawControls.simps) (simp add: Let_def printable_def AppendRune_def valid_rune_def encode_valid_def)
qed (simp add: stripRawControls.simps)

lemma plain_text_inspected:
  assumes "\<not> looksLikeJSON s" and "text_ok env rules s" and "\<not> containsEncodedToken s (su_EncodedTokenMinimum rules)"
    and "\<not> hasAbnormalRepetition s (su_RepeatedCharacterLimit rules)"
  shows "inspectPayload env s rules = ([''$''], [outcome ''tainted'' ''device_controlled_free_text'' ''$'' 1], False)"
proof -
  have "instruction_at env 0 (normalizedText env s) (su_InstructionPatterns rules) = None"
    using assms(2) by (simp add: text_ok_def instruction_at_None)
  then have "inspectString env s ''$'' rules = ([], False)" using assms(2) by (simp add: inspectString_def text_ok_def)
  then show ?thesis using assms by (simp add: inspectPayload_def inspectTaintedString_def)
qed

definition example_sanitise_env :: sanitise_env where
  "example_sanitise_env = \<lparr>se_NFKC = (\<lambda>v. v), se_ToLower = (\<lambda>v. v), se_Decode = (\<lambda>v. Some (JString v, '''')), se_sha256 = (\<lambda>v. replicate 32 (CHR ''0''))\<rparr>"

definition example_rules :: sanitise_rules where
  "example_rules = \<lparr>su_Version = ''v1'', su_FreeTextJSONFields = [''description''], su_InstructionPatterns = [''###''],
     su_MaximumStringBytes = 64, su_MaximumNestingDepth = 8, su_MaximumJSONNodes = 64, su_EncodedTokenMinimum = 32,
     su_RepeatedCharacterLimit = 8\<rparr>"

definition example_pipeline :: sanitise_pipeline where
  "example_pipeline = \<lparr>sp_ID = ''safe-text'', sp_Version = ''v1'', sp_Redactions = [(''hunter2'', ''[***]'')],
     sp_MaximumBytes = 32, sp_Rules = example_rules\<rparr>"

lemma example_resolved: "resolveRules example_rules = Inr example_rules"
proof -
  have "runes ''###'' = map of_char ''###''" "runes ''description'' = map of_char ''description''" by (rule runes_ascii, simp)+
  then show ?thesis
    by (simp add: resolveRules_def example_rules_def safeRuleToken_def IndexFunc_def IsControl_def IsSpace_def)
qed

lemma example_texts_inspected:
  assumes "s \<in> {''pw=[***] ok'', ''pw=hunter2 ok''}"
  shows "inspectPayload example_sanitise_env s example_rules = ([''$''], [outcome ''tainted'' ''device_controlled_free_text'' ''$'' 1], False)"
proof (rule plain_text_inspected)
  have "TrimSpace ''pw=[***] ok'' = ''pw=[***] ok''" "TrimSpace ''pw=hunter2 ok'' = ''pw=hunter2 ok''"
    by (rule TrimSpace_plain; simp add: plain_def IsSpace_def)+
  then show "\<not> looksLikeJSON s" using assms by (auto simp: looksLikeJSON_def)
  have r: "runes ''pw=[***] ok'' = map of_char ''pw=[***] ok''" "runes ''pw=hunter2 ok'' = map of_char ''pw=hunter2 ok''"
    by (rule runes_ascii, simp)+
  have "\<not> hasAbnormalRepetition ''pw=[***] ok'' 8" "\<not> hasAbnormalRepetition ''pw=hunter2 ok'' 8"
    by (simp_all add: hasAbnormalRepetition_def r)
  then show "\<not> hasAbnormalRepetition s (su_RepeatedCharacterLimit example_rules)" using assms by (auto simp: example_rules_def)
  have "\<not> containsEncodedToken ''pw=[***] ok'' 32" "\<not> containsEncodedToken ''pw=hunter2 ok'' 32"
    by (simp_all add: containsEncodedToken_def encoded_scan.simps Let_def isBase64Character_def isHexCharacter_def)
  then show "\<not> containsEncodedToken s (su_EncodedTokenMinimum example_rules)" using assms by (auto simp: example_rules_def)
  have n: "normalizedText example_sanitise_env ''pw=[***] ok'' = ''pw=[***] ok''" "normalizedText example_sanitise_env ''###'' = ''###''"
    "normalizedText example_sanitise_env ''pw=hunter2 ok'' = ''pw=hunter2 ok''"
    by (simp_all add: normalizedText_def example_sanitise_env_def Fields_def fields_from.simps Let_def IsSpace_def)
  have "text_ok example_sanitise_env example_rules ''pw=[***] ok''" "text_ok example_sanitise_env example_rules ''pw=hunter2 ok''"
    using n by (simp_all add: text_ok_def containsTerminalOrControl_def IndexFunc_def r IsControl_def example_rules_def sublist_Cons_right)
  then show "text_ok example_sanitise_env example_rules s" using assms by auto
qed

lemma example_transform:
  assumes "transformBytes captured (sp_Redactions example_pipeline) = Some (body, outcomes, redactions)"
    and "body \<in> {''pw=[***] ok'', ''pw=hunter2 ok''}" and "captured \<noteq> []" and "length captured \<le> 64"
  obtains m where "Pipeline_Transform example_sanitise_env example_pipeline captured = Inr (body, m)" "\<not> tm_Quarantined m"
    "\<not> tm_Truncated m" "tm_RedactionsApplied m = sort redactions"
    "finish_transform example_sanitise_env example_pipeline example_rules captured (body, outcomes, redactions)
       ([''$''], [outcome ''tainted'' ''device_controlled_free_text'' ''$'' 1], False) = (body, m)"
proof -
  have b: "body \<noteq> []" "length body \<le> 20" using assms(2) by auto
  let ?f = "finish_transform example_sanitise_env example_pipeline example_rules captured (body, outcomes, redactions)
    ([''$''], [outcome ''tainted'' ''device_controlled_free_text'' ''$'' 1], False)"
  obtain out m where f: "(out, m) = ?f" by (metis prod.collapse)
  have "Pipeline_Transform example_sanitise_env example_pipeline captured = Inr (out, m)"
    using assms b f example_texts_inspected [OF assms(2)] example_resolved
    by (simp add: Pipeline_Transform_def example_pipeline_def quarantined_length MaximumArtefactBytes_def)
  moreover have "\<not> sp_MaximumBytes example_pipeline < int (length body)" using b by (simp add: example_pipeline_def)
  ultimately show ?thesis
    using that [of m] finish_output [OF f] finish_manifest(10) [OF f] f [symmetric] by simp
qed

lemma example_redacted:
  "transformBytes ''pw=hunter2 ok'' (sp_Redactions example_pipeline) = Some (''pw=[***] ok'',
     [(outcome ''redacted'' ''configured_redaction'' ''$'' 1)\<lparr>oc_RulePosition := 1\<rparr>], [redactionIdentifier 0])"
  by (simp add: transformBytes_def example_pipeline_def ascii_valid ascii_strip printable_def keep_rune_def strip_no_escape
      Count.simps ReplaceAll.simps)

theorem sanitised_output_safe_witness:
  "\<exists>m. Pipeline_Transform example_sanitise_env example_pipeline ''pw=hunter2 ok'' = Inr (''pw=[***] ok'', m) \<and> valid_utf8 ''pw=[***] ok''
     \<and> tm_OutputByteCount m = 11"
proof -
  obtain m where "Pipeline_Transform example_sanitise_env example_pipeline ''pw=hunter2 ok'' = Inr (''pw=[***] ok'', m)"
    using example_redacted by (rule example_transform) simp_all
  then show ?thesis using sanitised_output_safe by fastforce
qed

theorem released_text_inspected_witness:
  "\<not> sublist ''###'' (normalizedText example_sanitise_env ''pw=[***] ok'') \<and> \<not> containsEncodedToken ''pw=[***] ok'' 32"
proof -
  obtain m where t: "Pipeline_Transform example_sanitise_env example_pipeline ''pw=hunter2 ok'' = Inr (''pw=[***] ok'', m)"
    "\<not> tm_Quarantined m" "\<not> tm_Truncated m"
    using example_redacted by (rule example_transform) simp_all
  have "TrimSpace ''pw=[***] ok'' = ''pw=[***] ok''" by (rule TrimSpace_plain) (simp_all add: plain_def IsSpace_def)
  then have j: "\<not> looksLikeJSON ''pw=[***] ok''" by (simp add: looksLikeJSON_def)
  have n: "normalizedText example_sanitise_env ''###'' = ''###''"
    by (simp add: normalizedText_def example_sanitise_env_def Fields_def fields_from.simps Let_def IsSpace_def)
  show ?thesis
    using released_text_inspected [OF t] j example_resolved n by (auto simp: example_pipeline_def text_ok_def example_rules_def)
qed

theorem repetition_detector_exact_witness: "hasAbnormalRepetition (replicate 9 (CHR ''a'')) 8"
proof -
  have "runes (replicate 9 (CHR ''a'')) = replicate 9 97" by (subst runes_ascii) (simp_all add: list_all_iff)
  then have "8 < int 9 \<and> sublist (replicate 9 97) (runes (replicate 9 (CHR ''a'')))" by simp
  then show ?thesis
    using repetition_detector_exact [OF example_resolved, of "replicate 9 (CHR ''a'')"] by (auto simp: example_rules_def)
qed

theorem redaction_complete_witness:
  "\<exists>m. Pipeline_Transform example_sanitise_env example_pipeline ''pw=hunter2 ok'' = Inr (''pw=[***] ok'', m)
     \<and> \<not> sublist ''hunter2'' ''pw=[***] ok''"
proof -
  obtain m where t: "Pipeline_Transform example_sanitise_env example_pipeline ''pw=hunter2 ok'' = Inr (''pw=[***] ok'', m)" "\<not> tm_Quarantined m"
    using example_redacted by (rule example_transform) simp_all
  have "\<forall>(s, _) \<in> set (sp_Redactions example_pipeline). \<not> sublist s ''pw=[***] ok''"
    by (rule redaction_complete [OF t]) (auto simp: example_pipeline_def printable_def keep_rune_def)
  then show ?thesis using t by (auto simp: example_pipeline_def)
qed

section \<open>Redaction and terminal sequences\<close>

lemma redact_nothing:
  "redact index rs out = Some (out', outcomes, ids) \<Longrightarrow> \<forall>(s, r) \<in> set rs. \<not> sublist s out \<Longrightarrow> out' = out \<and> ids = []"
proof (induction index rs out arbitrary: outcomes ids rule: redact.induct)
  case (2 index s r rest out)
  then have sr: "s \<noteq> []" "r \<noteq> []" by (auto split: if_splits)
  then have c: "Count out s = 0" using "2.prems"(2) Count_zero by auto
  then have "redact (Suc index) rest out = Some (out', outcomes, ids)" using "2.prems"(1) sr by simp
  then show ?case using "2.IH"(1) [OF _ refl c] "2.prems"(2) sr by simp
qed simp

lemma strip_skip: "CHR 0x1B \<notin> set x \<Longrightarrow> fst (stripTerminalSequences (x @ y)) = x @ fst (stripTerminalSequences y)"
  by (induction x) (auto split: prod.splits)

lemma consumeCSI_final:
  "\<forall>c \<in> set params. of_char c < (0x40 :: nat) \<Longrightarrow> 0x40 \<le> (of_char f :: nat) \<Longrightarrow> (of_char f :: nat) \<le> 0x7E \<Longrightarrow>
   consumeCSI (params @ f # rest) = rest"
  by (induction params) auto

text \<open>
  C40. Without the hypothesis on terminal sequences redaction fails, for every environment, pipeline and
  configured secret: secrets are replaced before terminal sequences are removed.  When a CSI
  sequence stands inside a secret of an otherwise printable ASCII capture in which no configured secret occurs
  literally, and the result is neither quarantined nor truncated, the released text is the capture
  without the sequence.  It contains the whole secret, and the manifest records no redaction.
\<close>

theorem redaction_evaded_by_escape:
  assumes "Pipeline_Transform env p (before @ s1 @ [CHR 0x1B, CHR ''[''] @ params @ [final] @ s2 @ after) = Inr (out, m)"
    and "\<not> tm_Quarantined m" and "\<not> tm_Truncated m"
    and "(s1 @ s2, replacement) \<in> set (sp_Redactions p)"
    and "\<forall>(s, _) \<in> set (sp_Redactions p). \<not> sublist s (before @ s1 @ [CHR 0x1B, CHR ''[''] @ params @ [final] @ s2 @ after)"
    and "\<forall>c \<in> set (before @ s1 @ s2 @ after). printable c \<and> of_char c < (0x80 :: nat)"
    and "\<forall>c \<in> set params. of_char c < (0x40 :: nat)" and "0x40 \<le> (of_char final :: nat) \<and> (of_char final :: nat) \<le> 0x7E"
  shows "out = before @ s1 @ s2 @ after \<and> sublist (s1 @ s2) out \<and> tm_RedactionsApplied m = []"
proof -
  let ?captured = "before @ s1 @ [CHR 0x1B, CHR ''[''] @ params @ [final] @ s2 @ after" and ?text = "before @ s1 @ s2 @ after"
  obtain rules body outcomes redactions where t: "transformBytes ?captured (sp_Redactions p) = Some (body, outcomes, redactions)"
    and f: "(out, m) = finish_transform env p rules ?captured (body, outcomes, redactions) (inspected_as env rules body)"
    using assms(1) by (rule Transform_ok)
  obtain tainted inspected rejected where i: "inspected_as env rules body = (tainted, inspected, rejected)"
    by (metis prod_cases3)
  have "valid_utf8 ?captured"
    using assms(6-8) by (intro ascii_valid) (fastforce simp: list_all_iff)
  then obtain oc redacted where r: "redact 0 (sort_key fst (sp_Redactions p)) ?captured = Some (redacted, oc, redactions)"
    and b: "body = fst (stripRawControls (fst (stripTerminalSequences redacted)))"
    using t by (auto simp: transformBytes_def Let_def split: option.splits prod.splits)
  have same: "redacted = ?captured" "redactions = []" using redact_nothing [OF r] assms(5) by auto
  have "\<not> printable (CHR 0x1B)" by (simp add: printable_def keep_rune_def)
  then have esc: "CHR 0x1B \<notin> set ?text" using assms(6) by blast
  have "fst (stripTerminalSequences ?captured) = before @ s1 @ fst (stripTerminalSequences (s2 @ after))"
    using esc strip_skip [of "before @ s1" "[CHR 0x1B, CHR ''[''] @ params @ [final] @ s2 @ after"]
      consumeCSI_final [OF assms(7), of final "s2 @ after"] assms(8) by (simp split: prod.splits)
  then have "fst (stripTerminalSequences ?captured) = ?text" using strip_no_escape [of "s2 @ after"] esc by simp
  moreover have "stripRawControls ?text = (?text, 0)" using assms(6) by (intro ascii_strip) (auto simp: list_all_iff)
  ultimately have "body = ?text" using b same by simp
  moreover have "out = body"
    using finish_output [OF f [unfolded i]] assms(2,3) by (simp split: if_splits)
  ultimately have "out = ?text" by simp
  moreover have "tm_RedactionsApplied m = []" using finish_manifest(10) [OF f [unfolded i]] same by simp
  moreover have "sublist (s1 @ s2) ?text" by (metis append.assoc sublist_appendI)
  ultimately show ?thesis by simp
qed

theorem redaction_evaded_by_escape_witness:
  "\<exists>m. Pipeline_Transform example_sanitise_env example_pipeline (''pw='' @ ''hun'' @ [CHR 0x1B, CHR ''[''] @ ''0'' @ ''m'' @ ''ter2'' @ '' ok'')
       = Inr (''pw=hunter2 ok'', m) \<and> tm_RedactionsApplied m = []"
proof -
  let ?captured = "''pw='' @ ''hun'' @ [CHR 0x1B, CHR ''[''] @ ''0'' @ ''m'' @ ''ter2'' @ '' ok''"
  have b: "transformBytes ?captured (sp_Redactions example_pipeline) =
      Some (''pw=hunter2 ok'', [outcome ''stripped'' ''terminal_escape_sequence'' ''$'' 1], [])"
    by (simp add: transformBytes_def example_pipeline_def ascii_valid ascii_strip printable_def keep_rune_def Count.simps)
  obtain m where t: "Pipeline_Transform example_sanitise_env example_pipeline ?captured = Inr (''pw=hunter2 ok'', m)"
    "\<not> tm_Quarantined m" "\<not> tm_Truncated m"
    using b by (rule example_transform) simp_all
  have "''pw=hunter2 ok'' = ''pw='' @ ''hun'' @ ''ter2'' @ '' ok'' \<and> sublist (''hun'' @ ''ter2'') ''pw=hunter2 ok'' \<and> tm_RedactionsApplied m = []"
    by (rule redaction_evaded_by_escape [OF t, of "''[***]''"])
      (simp_all add: example_pipeline_def printable_def keep_rune_def sublist_Cons_right)
  then show ?thesis using t by simp
qed

end
