(* ===== verification/Sanitise_Manifest.thy ===== *)
theory Sanitise_Manifest
  imports Sanitise
begin

text \<open>
  The manifest of a sanitised artefact (\<^verbatim>\<open>src/internal/sanitise/sanitise.go\<close>) against the check the
  artefact store makes of it (\<^verbatim>\<open>src/internal/artefacts/store.go\<close>,
  \<^verbatim>\<open>validateTransformationManifest\<close>): whatever the pipeline writes, the store accepts.
\<close>

text \<open>Every outcome carries one of the action and reason codes of the package and a positive count.\<close>

definition known_outcome :: "transformation_outcome \<Rightarrow> bool" where
  "known_outcome item \<longleftrightarrow>
     oc_Action item \<in> {''retained'', ''redacted'', ''stripped'', ''tainted'', ''rejected'', ''truncated'', ''quarantined''} \<and>
     oc_ReasonCode item \<noteq> '''' \<and> length (oc_ReasonCode item) \<le> 64 \<and> list_all ascii_graphic (oc_ReasonCode item) \<and>
     oc_Count item \<noteq> 0"

lemma known_action: "known_outcome item \<Longrightarrow> \<not> unsafeManifestValue (oc_Action item) 64"
  by (rule safe_ascii) (auto simp: known_outcome_def ascii_graphic_def)

lemma known_reason: "known_outcome item \<Longrightarrow> \<not> unsafeManifestValue (oc_ReasonCode item) 128"
  by (rule safe_ascii) (auto simp: known_outcome_def)

lemma known_outcomeI:
  "action \<in> {''retained'', ''redacted'', ''stripped'', ''tainted'', ''rejected'', ''truncated'', ''quarantined''} \<Longrightarrow>
   reason \<noteq> '''' \<Longrightarrow> length reason \<le> 64 \<Longrightarrow> list_all ascii_graphic reason \<Longrightarrow> n \<noteq> 0 \<Longrightarrow> known_outcome (outcome action reason path n)"
  by (simp add: known_outcome_def outcome_def)

lemma known_position [simp]: "known_outcome (item\<lparr>oc_RulePosition := n\<rparr>) = known_outcome item"
  by (simp add: known_outcome_def)

lemma redact_known: "redact index rs out = Some (out', outcomes, ids) \<Longrightarrow> list_all known_outcome outcomes"
  by (induction index rs out arbitrary: out' outcomes ids rule: redact.induct)
    (auto simp: Let_def ascii_graphic_def intro!: known_outcomeI split: if_splits)

lemma redact_ids:
  "redact index rs out = Some (out', outcomes, ids) \<Longrightarrow>
   length ids \<le> length rs \<and> (\<forall>x \<in> set ids. \<exists>k. x = redactionIdentifier k \<and> k < index + length rs)"
proof (induction index rs out arbitrary: out' outcomes ids rule: redact.induct)
  case (2 index s r rest out)
  have sr: "s \<noteq> []" "r \<noteq> []" using "2.prems" by (auto split: if_splits)
  show ?case
  proof (cases "Count out s = 0")
    case True
    then show ?thesis using "2.IH"(1) [OF _ refl True] "2.prems" sr by fastforce
  next
    case False
    then obtain o1 i1 where r: "redact (Suc index) rest (ReplaceAll out s r) = Some (out', o1, i1)" "ids = redactionIdentifier index # i1"
      using "2.prems" sr by (auto simp: Let_def)
    then show ?thesis using "2.IH"(2) [OF _ refl False, of out' o1 i1] sr by fastforce
  qed
qed simp

lemma dec_digits_ascii: "list_all ascii_graphic (dec_digits n) \<and> dec_digits n \<noteq> [] \<and> length (dec_digits n) \<le> Suc n"
proof (induction n rule: dec_digits.induct)
  case (1 n)
  show ?case
  proof (cases "n < 10")
    case True
    then show ?thesis by (subst (1 2 3) dec_digits.simps) (simp add: ascii_graphic_def)
  next
    case False
    moreover have "ascii_graphic (char_of (48 + n mod 10))" by (simp add: ascii_graphic_def)
    ultimately show ?thesis using 1 by (subst (1 2 3) dec_digits.simps) auto
  qed
qed

lemma redactionIdentifier_safe:
  assumes "k < 256"
  shows "\<not> unsafeManifestValue (redactionIdentifier k) 512"
proof (rule safe_ascii)
  have d: "list_all ascii_graphic (dec_digits (k + 1))" "length (dec_digits (k + 1)) \<le> Suc (k + 1)"
    using dec_digits_ascii [of "k + 1"] by auto
  show "redactionIdentifier k \<noteq> ''''" by (simp add: redactionIdentifier_def Let_def)
  show "length (redactionIdentifier k) \<le> 512" using d(2) assms by (simp add: redactionIdentifier_def Let_def)
  show "list_all ascii_graphic (redactionIdentifier k)" using d(1) by (auto simp: redactionIdentifier_def Let_def ascii_graphic_def list_all_iff)
qed

lemma inspectString_known: "list_all known_outcome (fst (inspectString env v path rules))"
  by (auto simp: inspectString_def ascii_graphic_def intro!: known_outcomeI split: option.splits)

lemma inspectTainted_known: "list_all known_outcome (fst (inspectTaintedString v path rules))"
  by (auto simp: inspectTaintedString_def ascii_graphic_def intro!: known_outcomeI)

lemma tainted_known: "known_outcome (outcome ''tainted'' ''device_controlled_free_text'' path 1)"
  by (rule known_outcomeI) (auto simp: ascii_graphic_def)

lemma inspect_leaf_known:
  "list_all known_outcome (ir_outcomes report) \<Longrightarrow> list_all known_outcome (ir_outcomes (inspect_leaf env rules v path field report))"
  using inspectString_known [of env v path rules] inspectTainted_known [of v path rules] tainted_known [of path]
  by (cases "inspectString env v path rules"; cases "inspectTaintedString v path rules") (simp add: inspect_leaf_def Let_def)

lemma inspectJSON_known:
  "list_all known_outcome (ir_outcomes report) \<Longrightarrow>
   list_all known_outcome (ir_outcomes (inspectJSONValue env rules v path field report))"
proof (induction env rules v path field report rule: inspectJSONValue.induct)
  case (1 env rules kvs path field report)
  then show ?case
    by (auto simp: case_prod_unfold intro!: fold_invariant [where P = "\<lambda>r. list_all known_outcome (ir_outcomes r)" and Q = "\<lambda>p. p \<in> set kvs"])
next
  case (2 env rules xs path field report)
  then show ?case
    by (auto simp: case_prod_unfold intro!: fold_invariant [where P = "\<lambda>r. list_all known_outcome (ir_outcomes r)" and Q = "\<lambda>p. p \<in> set (enumerate 0 xs)"])
next
  case (3 env rules v path field report)
  then show ?case by (simp add: inspect_leaf_known)
qed simp_all

lemma inspected_known: "list_all known_outcome (fst (snd (inspected_as env rules body)))"
  using inspectString_known [of env body "''$''" rules] inspectTainted_known [of body "''$''" rules] tainted_known [of "''$''"]
    inspectJSON_known [of "\<lparr>ir_tainted = [], ir_outcomes = [], ir_quarantine = False\<rparr>" env rules _ "''$''" "[]"]
  by (auto simp: inspected_as_def inspectPayload_def Let_def ascii_graphic_def intro!: known_outcomeI split: prod.split option.split)

lemma transformBytes_known:
  assumes "transformBytes captured configured = Some (body, outcomes, redactions)"
  shows "list_all known_outcome outcomes"
    and "length redactions \<le> length configured" and "length configured \<le> 256 \<Longrightarrow> \<forall>x \<in> set redactions. \<not> unsafeManifestValue x 512"
proof -
  obtain start oc redacted where r: "redact 0 (sort_key fst configured) start = Some (redacted, oc, redactions)"
    and o: "\<exists>pre post. outcomes = pre @ oc @ post \<and> list_all known_outcome pre \<and> list_all known_outcome post"
  proof -
    define start where "start = (if valid_utf8 captured then captured else ToValidUTF8 captured)"
    obtain redacted oc where r: "redact 0 (sort_key fst configured) start = Some (redacted, oc, redactions)"
      using assms by (auto simp: transformBytes_def start_def Let_def split: if_splits option.splits prod.splits)
    obtain s1 n1 where s1: "stripTerminalSequences redacted = (s1, n1)" by (cases "stripTerminalSequences redacted")
    obtain s2 n2 where s2: "stripRawControls s1 = (s2, n2)" by (cases "stripRawControls s1")
    let ?pre = "if valid_utf8 captured then [] else [outcome ''stripped'' ''invalid_utf8_replaced'' ''$'' 1]"
    let ?post = "(if 0 < n1 then [outcome ''stripped'' ''terminal_escape_sequence'' ''$'' n1] else []) @
      (if 0 < n2 then [outcome ''stripped'' ''raw_control_character'' ''$'' n2] else [])"
    have "outcomes = ?pre @ oc @ ?post" using assms r s1 s2 by (auto simp: transformBytes_def start_def split: if_splits)
    moreover have "list_all known_outcome ?pre" "list_all known_outcome ?post"
      by (auto simp: ascii_graphic_def intro!: known_outcomeI)
    ultimately show ?thesis using that [OF r] by blast
  qed
  show "list_all known_outcome outcomes" using o redact_known [OF r] by auto
  show "length redactions \<le> length configured" using redact_ids [OF r] by simp
  show "length configured \<le> 256 \<Longrightarrow> \<forall>x \<in> set redactions. \<not> unsafeManifestValue x 512"
    using redact_ids [OF r] redactionIdentifier_safe by fastforce
qed

lemma finish_known:
  assumes "(out, m) = finish_transform env p rules captured (body, outcomes, redactions) (tainted, inspected, rejected)"
    and "list_all known_outcome outcomes" and "list_all known_outcome inspected"
  shows "list_all known_outcome (tm_Outcomes m)"
proof -
  have v: "known_outcome (outcome ''quarantined'' ''hostile_or_invalid_content'' ''$'' 1)"
    "known_outcome (outcome ''retained'' ''policy_checks_passed'' ''$'' 1)"
    "known_outcome (outcome ''rejected'' ''bounded_json_exceeded'' ''$'' 1)"
    "known_outcome (outcome ''truncated'' ''maximum_output_bytes'' ''$'' 1)"
    by (auto simp: ascii_graphic_def intro!: known_outcomeI)
  obtain cut verdict where "tm_Outcomes m = sortOutcomes (outcomes @ inspected @ cut @ [verdict])"
    "list_all known_outcome cut" "known_outcome verdict"
    using assms(1) v by (simp add: finish_transform_def Let_def)
  then show ?thesis using assms(2,3) by (auto simp: sortOutcomes_def list_all_iff)
qed

text \<open>
  C39. The manifest of every transformation is well formed: with a 32-byte hash, a pipeline whose names
  pass the naming rules and at most 256 redactions, the artefact store accepts it, provided the document
  itself stays within the store's limits of 512 tainted fields and 512 outcomes on safe paths.  In
  particular status, quarantine flag and tainted fields always agree, and every outcome has a
  known action and reason.
\<close>

theorem transform_manifest_accepted:
  assumes "Pipeline_Transform env p captured = Inr (out, m)" and "\<And>v. length (se_sha256 env v) = 32"
    and "\<not> unsafeManifestValue (sp_ID p) 128" and "\<not> unsafeManifestValue (sp_Version p) 128"
    and "\<not> unsafeManifestValue (tm_RulesVersion m) 128" and "length (sp_Redactions p) \<le> 256"
    and "length (tm_TaintedFields m) \<le> 512" and "length (tm_Outcomes m) \<le> 512"
    and "\<forall>f \<in> set (tm_TaintedFields m). \<not> unsafeManifestValue f 512"
    and "\<forall>item \<in> set (tm_Outcomes m). \<not> unsafeManifestValue (oc_JSONPath item) 512"
  shows "validateTransformationManifest m"
proof -
  obtain rules body outcomes redactions where t: "transformBytes captured (sp_Redactions p) = Some (body, outcomes, redactions)"
    and f: "(out, m) = finish_transform env p rules captured (body, outcomes, redactions) (inspected_as env rules body)"
    using assms(1) by (rule Transform_ok)
  obtain tainted inspected rejected where i: "inspected_as env rules body = (tainted, inspected, rejected)"
    by (metis prod_cases3)
  note f = f [unfolded i] and k = transformBytes_known [OF t]
  have known: "list_all known_outcome (tm_Outcomes m)"
    using finish_known [OF f k(1)] inspected_known [of env rules body] i by simp
  have "length (tm_RedactionsApplied m) \<le> 256" "\<forall>x \<in> set (tm_RedactionsApplied m). \<not> unsafeManifestValue x 512"
    using finish_manifest(10) [OF f] k(2,3) assms(6) by auto
  moreover have "validDigest (tm_InputDigest m)" "validDigest (tm_OutputDigest m)"
    using finish_manifest(1,2) [OF f] assms(2) by (simp_all add: sanitise_digest_def validDigest_hex)
  moreover have "validOverallStatus m"
    using finish_manifest(9,11) [OF f] set_sort [of id tainted] by (auto simp: validOverallStatus_def id_def simp del: set_sort)
  moreover have "\<not> unsafeManifestValue (tm_ManifestVersion m) 128" "tm_ManifestVersion m = TransformationManifestVersionV1"
    using finish_manifest(5) [OF f] by (simp_all add: TransformationManifestVersionV1_def ascii_graphic_def safe_ascii)
  ultimately show ?thesis
    using assms known finish_manifest(6,7) [OF f] known_action known_reason
    by (auto simp: validateTransformationManifest_def validateManifestIdentityAndBounds_def validateManifestEntries_def
        list_all_iff known_outcome_def)
qed


theorem transform_manifest_accepted_witness:
  "\<exists>m. Pipeline_Transform example_sanitise_env example_pipeline ''pw=hunter2 ok'' = Inr (''pw=[***] ok'', m) \<and>
     validateTransformationManifest m"
proof -
  obtain m where t: "Pipeline_Transform example_sanitise_env example_pipeline ''pw=hunter2 ok'' = Inr (''pw=[***] ok'', m)"
    and f: "finish_transform example_sanitise_env example_pipeline example_rules ''pw=hunter2 ok''
       (''pw=[***] ok'', [(outcome ''redacted'' ''configured_redaction'' ''$'' 1)\<lparr>oc_RulePosition := 1\<rparr>], [redactionIdentifier 0])
       ([''$''], [outcome ''tainted'' ''device_controlled_free_text'' ''$'' 1], False) = (''pw=[***] ok'', m)"
    using example_redacted by (rule example_transform) simp_all
  have names: "\<not> unsafeManifestValue ''safe-text'' 128" "\<not> unsafeManifestValue ''v1'' 128"
    "\<not> unsafeManifestValue ''$'' 512" "\<not> unsafeManifestValue (su_Version example_rules) 128"
    by (simp_all add: ascii_graphic_def example_rules_def safe_ascii)
  have "validateTransformationManifest m"
  proof (rule transform_manifest_accepted [OF t])
    show "length (tm_Outcomes m) \<le> 512" "\<forall>item \<in> set (tm_Outcomes m). \<not> unsafeManifestValue (oc_JSONPath item) 512"
      using f names(3) by (auto simp: finish_transform_def example_pipeline_def sortOutcomes_def outcome_def Let_def)
  qed (use names finish_manifest(8,9) [OF f [symmetric]] in \<open>simp_all add: example_pipeline_def example_sanitise_env_def\<close>)
  then show ?thesis using t by blast
qed

end
