(* ===== verification/Spec2Isabelle.thy ===== *)
theory Spec2Isabelle
  imports Collector_Refinement Resolution_Memory Task_Fanout Execution_Grants Approval Policy Delivery_System Collector_Worker Sanitise_Manifest
begin

text \<open>
  \<^bold>\<open>Verification of the network evidence broker.\<close>

  \<^bold>\<open>The program.\<close>  The broker turns a request for evidence about network devices into signed evidence.  A
  \<^emph>\<open>resolution\<close> (\<^verbatim>\<open>internal/resolution\<close>) is the workflow of one request.  Planning (\<^verbatim>\<open>internal/planning\<close>,
  \<^verbatim>\<open>internal/collector/fanout.go\<close>) splits it into collection \<^emph>\<open>tasks\<close>, governed by policy bundles
  (\<^verbatim>\<open>internal/policy\<close>) and approvals of bounded use (\<^verbatim>\<open>internal/approval\<close>).  Collectors
  (\<^verbatim>\<open>internal/collector\<close>) lease a task under a fencing token, have it authorised again, obtain an
  \<^emph>\<open>execution grant\<close> (\<^verbatim>\<open>internal/grants\<close>) signed by a key provider (\<^verbatim>\<open>internal/keyprovider\<close>), exchange it once
  for a device credential, execute over a transport (\<^verbatim>\<open>internal/transport\<close>), pass the captured bytes
  through the sanitiser (\<^verbatim>\<open>internal/sanitise\<close>) and commit the result.  A reconciliation pass accepts evidence
  whose commit was lost.  Every change of a resolution writes an event into the \<^emph>\<open>outbox\<close>
  (\<^verbatim>\<open>internal/outbox\<close>) in the same transaction; dispatchers deliver the events, and operators inspect and
  replay those that could not be delivered (\<^verbatim>\<open>internal/deadletter\<close>).

  \<^bold>\<open>How Go is rendered.\<close>  A string or byte slice is a list of bytes; a time or duration is an integer of
  nanoseconds; a pair of value and error is a sum; \<^verbatim>\<open>int64\<close> and \<^verbatim>\<open>uint64\<close> counters are integers or words with
  their wrap-around written out.  A method that changes state is a function that takes the state
  last and returns it updated; an in-memory repository under its mutex is therefore one step.  A PostgreSQL
  repository is modelled statement by statement over tables of rows.  Its operations take a fault
  function that says, for each statement and for the commit, whether the call works, fails or works with the
  reply lost, and the table that a separate classifying query sees, so that other transactions may run
  between two statements.  Concurrency is a list of operations executed in any order, or, where steps of
  different processes overlap, an inductive step relation.  Clocks, random bytes, SHA-256, Ed25519,
  JSON, \<^verbatim>\<open>jsonb\<close>, Unicode normalisation and the external services are arguments; what a theorem relies on of
  them is among its hypotheses.

  \<^bold>\<open>The theories.\<close>
  \<^item> \<^verbatim>\<open>Broker_Prelude\<close>: the vocabulary above: times, counters, faults of database calls, single-row statements,
    bounded lists and maps.  \<^verbatim>\<open>Utf8\<close>, \<^verbatim>\<open>Hex\<close>, \<^verbatim>\<open>Go_Strings\<close>, \<^verbatim>\<open>Text_Search\<close>: the functions of Go's standard
    library the code calls (decoding of runes, \<^verbatim>\<open>ToValidUTF8\<close>, \<^verbatim>\<open>TrimSpace\<close>, \<^verbatim>\<open>Fields\<close>, \<^verbatim>\<open>Count\<close>, \<^verbatim>\<open>ReplaceAll\<close>,
    hexadecimal encoding) with their specifications.  \<^verbatim>\<open>Auth_Context\<close>: \<^verbatim>\<open>internal/authctx\<close>.
  \<^item> \<^verbatim>\<open>Collector_Task\<close>: \<^verbatim>\<open>internal/collector/task.go\<close>; the type \<open>store\<close> is the map of \<^verbatim>\<open>Store\<close>, \<open>Store_X\<close> its method
    \<^verbatim>\<open>X\<close>.  \<^verbatim>\<open>Task_Authority\<close>: the lifecycle of a task as a step relation and the locales \<open>task_steps\<close>,
    \<open>fenced_tasks\<close> and \<open>exclusive_leases\<close>, the contract of every task repository; from it follow that an accepted
    result is final, that a superseded lease is refused and that a live lease excludes others.
  \<^item> \<^verbatim>\<open>Collector_Postgres\<close>: \<^verbatim>\<open>postgres_repository.go\<close> of the collector (\<open>PG_X\<close> over \<open>task_row\<close>, the row of
    \<^verbatim>\<open>migrations/000007\<close> with its check constraints).  \<^verbatim>\<open>Collector_Refinement\<close>: it refines the in-memory
    store, call by call, returned leases and errors included.  \<^verbatim>\<open>Collector_Reconciliation\<close>: \<^verbatim>\<open>reconciliation.go\<close>
    and a pass of \<^verbatim>\<open>reconciliation_runner.go\<close>; the contracts and the schema constraints for the PostgreSQL repository
    under every interleaving.
  \<^item> \<^verbatim>\<open>Outbox_Event\<close>: \<^verbatim>\<open>internal/outbox/event.go\<close>.  \<^verbatim>\<open>Resolution\<close>: states, service and in-memory repository of
    \<^verbatim>\<open>internal/resolution\<close>.  \<^verbatim>\<open>Resolution_Contract\<close>: the abstract workflow and the locale \<open>resolution_store\<close>;
    \<^verbatim>\<open>Resolution_Memory\<close> and \<^verbatim>\<open>Resolution_Postgres\<close> (\<open>PGR_X\<close>) implement it: creation is idempotent, the watch has
    no gaps, terminal states are final.
  \<^item> \<^verbatim>\<open>Task_Fanout\<close>: \<^verbatim>\<open>fanout.go\<close> and \<^verbatim>\<open>internal/planning/service.go\<close> on the joint database of resolutions, events and
    tasks: the fan-out is atomic and happens once per planned version, stays within the tenant, and
    its tasks stay.
  \<^item> \<^verbatim>\<open>Key_Provider\<close>: \<^verbatim>\<open>keyprovider.go\<close>.  \<^verbatim>\<open>Execution_Grants\<close>: \<^verbatim>\<open>grants.go\<close> and both consumption ledgers
    (\<open>MemC_X\<close>, \<open>PGC_X\<close>, locale \<open>grant_ledger\<close>): a grant is exchanged at most once, only by the
    live attempt it names, and exchanging works while it is valid.  \<^verbatim>\<open>Approval\<close>: \<^verbatim>\<open>internal/approval\<close> (\<open>MemA_X\<close>, \<open>PGA_X\<close>,
    locale \<open>approval_store\<close>).  \<^verbatim>\<open>Policy\<close>: evaluator, bundle engine and repository of \<^verbatim>\<open>internal/policy\<close> (\<open>PGP_X\<close>).
  \<^item> \<^verbatim>\<open>Outbox_Text\<close>: the bounded error text.  \<^verbatim>\<open>Outbox_Delivery\<close>: the delivery store (\<open>PGO_X\<close>), dispatcher, counters and
    runner of \<^verbatim>\<open>internal/outbox\<close>.  \<^verbatim>\<open>Dead_Letter\<close>: \<^verbatim>\<open>internal/deadletter\<close> (\<open>DL_X\<close> the service, \<open>PGD_X\<close> the repository,
    locale \<open>replay_ledger\<close>).  \<^verbatim>\<open>Delivery_System\<close>: dispatchers, operators and insertions together; \<open>delivery_step\<close> is a
    transition system with crashes, of which a pass of the dispatcher is a run.
  \<^item> \<^verbatim>\<open>Collector_Worker\<close>: \<open>Worker_Run\<close> is \<^verbatim>\<open>Worker.Run\<close> of \<^verbatim>\<open>worker.go\<close>; \<open>others k\<close> is what other processes do before its
    \<open>k\<close>-th call.  An execution is tied to the lease, task, authorisation, grant and credential of its attempt; a success
    is accepted durably; a failure leaves the task for others.
  \<^item> \<^verbatim>\<open>Artefact_Manifest\<close>: the manifest of \<^verbatim>\<open>internal/artefacts/store.go\<close> and its validation.  \<^verbatim>\<open>Sanitise\<close>:
    \<^verbatim>\<open>internal/sanitise/sanitise.go\<close>: what an output may contain, what it was inspected for, when redaction is complete
    and how a terminal sequence defeats it.  \<^verbatim>\<open>Sanitise_Manifest\<close>: its manifests pass the validation.

  \<^bold>\<open>Recursion.\<close>  All definitions are total.  The scanners recurse on the remaining input, the JSON inspection on the
  size of the value.  The one loop that may run for ever, \<^verbatim>\<open>Runner.Run\<close>, is a \<^verbatim>\<open>partial_function\<close> whose result
  \<open>None\<close> means that it never returns; no fuel is used.

  \<^bold>\<open>Not modelled.\<close>  Process start-up and HTTP handlers (\<^verbatim>\<open>cmd/\<close>, \<^verbatim>\<open>internal/collectorruntime\<close>), which decode a
  request, call a modelled service and encode the answer.  Clients of external services: device
  transports, object store, AWS KMS, JetStream, TLS identity (\<^verbatim>\<open>internal/workloadidentity\<close>, \<^verbatim>\<open>internal/operatorauth\<close>) and
  the database role audit (\<^verbatim>\<open>internal/databaseauth\<close>).  Storage and lifecycle of artefacts, evidence envelopes
  (\<^verbatim>\<open>internal/evidence\<close>), disclosure, signature sets and retrieval, parsing and gNMI normalisation: the worker sees them as its
  sink, reconciliation as a table of evidence rows.  Cancellation of a context is an error of the call it
  interrupts; the timers of the reconciliation loop are not modelled.
\<close>

end
